theory Spec2Isabelle
  imports Main "HOL-Library.Multiset"
begin

section \<open>Data model (shared/schema.ts)\<close>

text \<open>
  Numeric columns are JavaScript numbers that the zod insert schemas restrict to integers;
  they are modelled as \<open>int\<close>. Nullable columns are options. A suggestion id is a
  \<open>uuidv4()\<close> token: the package is external, so a token is modelled by the number of
  the draw that produced it (two tokens are equal exactly when they come from the same draw).
\<close>

type_synonym uuid = nat

record TimePreference =
  tp_dayOfWeek :: int
  tp_startTimeSlot :: int
  tp_endTimeSlot :: int

record Teacher =
  tch_id :: int
  tch_name :: string
  tch_specialization :: "string option"
  tch_skills :: "string list option"
  tch_timePreferences :: "TimePreference list option"

text \<open>Of a course the engine reads only \<open>name\<close>; the other columns are carried along.\<close>

record Course =
  crs_id :: int
  crs_name :: string
  crs_code :: string
  crs_programId :: int
  crs_semester :: int
  crs_teacherId :: "int option"

record Schedule =
  sch_id :: int
  sch_programId :: int
  sch_semester :: int
  sch_dayOfWeek :: int
  sch_timeSlot :: int
  sch_courseId :: int
  sch_teacherId :: int
  sch_roomNumber :: "string option"

datatype action = Move | Swap | Reassign

record ConflictSuggestion =
  sg_id :: uuid
  sg_description :: string
  sg_action :: action
  sg_scheduleId :: int
  sg_newDayOfWeek :: "int option"
  sg_newTimeSlot :: "int option"
  sg_newTeacherId :: "int option"
  sg_swapWithScheduleId :: "int option"

record InsertConflict =
  ic_teacherId :: int
  ic_dayOfWeek :: int
  ic_timeSlot :: int
  ic_conflictingScheduleIds :: "int list"
  ic_resolved :: bool
  ic_suggestions :: "ConflictSuggestion list"

record Conflict =
  cf_id :: int
  cf_teacherId :: int
  cf_dayOfWeek :: int
  cf_timeSlot :: int
  cf_conflictingScheduleIds :: "int list"
  cf_resolved :: bool
  cf_suggestions :: "ConflictSuggestion list"

text \<open>
  \<open>Partial<InsertSchedule>\<close> and \<open>Partial<InsertConflict>\<close>: a field that is
  \<open>None\<close> is a key that the patch object does not have. Only the keys the engine ever
  passes are listed.
\<close>

record SchedulePatch =
  sp_dayOfWeek :: "int option"
  sp_timeSlot :: "int option"
  sp_teacherId :: "int option"

record ConflictPatch =
  cp_resolved :: "bool option"
  cp_suggestions :: "ConflictSuggestion list option"

section \<open>JavaScript \<open>Map\<close>, template literals, \<open>split\<close> and \<open>Number\<close>\<close>

text \<open>
  A \<open>Map\<close> iterates in insertion order and \<open>set\<close> on a present key keeps the key's
  position, so a \<open>Map\<close> is a list of key/value pairs with distinct keys.
\<close>

type_synonym ('k, 'v) jsmap = "('k \<times> 'v) list"

definition Map_get :: "('k, 'v) jsmap \<Rightarrow> 'k \<Rightarrow> 'v option" where
  "Map_get m k = map_of m k"

definition Map_has :: "('k, 'v) jsmap \<Rightarrow> 'k \<Rightarrow> bool" where
  "Map_has m k = (map_of m k \<noteq> None)"

fun Map_set :: "'k \<Rightarrow> 'v \<Rightarrow> ('k, 'v) jsmap \<Rightarrow> ('k, 'v) jsmap" where
  "Map_set k v [] = [(k, v)]"
| "Map_set k v ((k', v') # m) = (if k' = k then (k, v) # m else (k', v') # Map_set k v m)"

definition Map_values :: "('k, 'v) jsmap \<Rightarrow> 'v list" where
  "Map_values m = map snd m"

text \<open>Decimal rendering of an integer inside a template literal.\<close>

definition digitChar :: "nat \<Rightarrow> char" where
  "digitChar d = ''0123456789'' ! d"

fun digits :: "nat \<Rightarrow> string" where
  "digits n = (if n < 10 then [digitChar n] else digits (n div 10) @ [digitChar (n mod 10)])"

declare digits.simps [simp del]

definition toString :: "int \<Rightarrow> string" where
  "toString i = (if i < 0 then CHR ''-'' # digits (nat (- i)) else digits (nat i))"

text \<open>\<open>str.split('-')\<close>: the pieces between the separators, empty pieces included.\<close>

fun split :: "char \<Rightarrow> string \<Rightarrow> string list" where
  "split c [] = [[]]"
| "split c (x # xs) =
     (if x = c then [] # split c xs
      else (case split c xs of [] \<Rightarrow> [[x]] | w # ws \<Rightarrow> (x # w) # ws))"

text \<open>
  \<open>Number(piece)\<close> on a run of decimal digits; the empty string gives 0. The pieces of a
  key built from two integers are such runs (lemma \<open>split_dayTimeKey_digits\<close> below), so
  the \<open>NaN\<close> result of \<open>Number\<close> never arises here.
\<close>

definition digitVal :: "char \<Rightarrow> int" where
  "digitVal c = int (of_char c) - 48"

definition Number :: "string \<Rightarrow> int" where
  "Number s = foldl (\<lambda>a c. 10 * a + digitVal c) 0 s"

text \<open>The key \<open>`${dayOfWeek}-${timeSlot}`\<close>.\<close>

definition dayTimeKey :: "int \<Rightarrow> int \<Rightarrow> string" where
  "dayTimeKey day slot = toString day @ ''-'' @ toString slot"

text \<open>
  \<open>const [dayOfWeek, timeSlot] = dayTimeKey.split('-').map(Number)\<close>: the first two
  pieces. A key always has a separator, so there are at least two pieces; were one missing,
  destructuring would give \<open>undefined\<close>, which the model has no value for and renders as 0.
\<close>

definition splitKey :: "string \<Rightarrow> int \<times> int" where
  "splitKey key =
     (case map Number (split CHR ''-'' key) of
        d # t # _ \<Rightarrow> (d, t)
      | [d] \<Rightarrow> (d, 0)
      | [] \<Rightarrow> (0, 0))"

section \<open>MemStorage (server/storage.ts)\<close>

text \<open>
  The fields of the class that the conflict engine reads or writes, and two components that
  are not fields: \<open>uuidNext\<close>, the number of tokens \<open>uuidv4()\<close> has handed out so far
  (the state of the external generator), and \<open>detectLog\<close>, a history variable to which
  every detection pass appends the schedule entries it read. No function reads the history.
\<close>

record MemStorage =
  courses :: "(int, Course) jsmap"
  teachers :: "(int, Teacher) jsmap"
  schedules :: "(int, Schedule) jsmap"
  conflicts :: "(int, Conflict) jsmap"
  conflictId :: int
  uuidNext :: nat
  detectLog :: "Schedule list list"

definition getCourseById :: "MemStorage \<Rightarrow> int \<Rightarrow> Course option" where
  "getCourseById st i = Map_get (courses st) i"

definition getTeachers :: "MemStorage \<Rightarrow> Teacher list" where
  "getTeachers st = Map_values (teachers st)"

definition getTeacherById :: "MemStorage \<Rightarrow> int \<Rightarrow> Teacher option" where
  "getTeacherById st i = Map_get (teachers st) i"

definition getSchedules :: "MemStorage \<Rightarrow> Schedule list" where
  "getSchedules st = Map_values (schedules st)"

definition getConflicts :: "MemStorage \<Rightarrow> Conflict list" where
  "getConflicts st = Map_values (conflicts st)"

definition getConflictById :: "MemStorage \<Rightarrow> int \<Rightarrow> Conflict option" where
  "getConflictById st i = Map_get (conflicts st) i"

text \<open>\<open>createConflict\<close>: \<open>{ ...conflict, id }\<close> under the next id.\<close>

definition createConflict :: "InsertConflict \<Rightarrow> MemStorage \<Rightarrow> Conflict \<times> MemStorage" where
  "createConflict conflict st =
     (let i = conflictId st;
          newConflict = \<lparr> cf_id = i,
                          cf_teacherId = ic_teacherId conflict,
                          cf_dayOfWeek = ic_dayOfWeek conflict,
                          cf_timeSlot = ic_timeSlot conflict,
                          cf_conflictingScheduleIds = ic_conflictingScheduleIds conflict,
                          cf_resolved = ic_resolved conflict,
                          cf_suggestions = ic_suggestions conflict \<rparr>
      in (newConflict, st\<lparr> conflictId := i + 1, conflicts := Map_set i newConflict (conflicts st) \<rparr>))"

text \<open>\<open>{ ...existingConflict, ...conflict }\<close>.\<close>

definition patchConflict :: "Conflict \<Rightarrow> ConflictPatch \<Rightarrow> Conflict" where
  "patchConflict c p =
     c\<lparr> cf_resolved := (case cp_resolved p of None \<Rightarrow> cf_resolved c | Some r \<Rightarrow> r),
        cf_suggestions := (case cp_suggestions p of None \<Rightarrow> cf_suggestions c | Some s \<Rightarrow> s) \<rparr>"

definition updateConflict :: "int \<Rightarrow> ConflictPatch \<Rightarrow> MemStorage \<Rightarrow> Conflict option \<times> MemStorage" where
  "updateConflict i p st =
     (case Map_get (conflicts st) i of
        None \<Rightarrow> (None, st)
      | Some existingConflict \<Rightarrow>
          (let updatedConflict = patchConflict existingConflict p
           in (Some updatedConflict, st\<lparr> conflicts := Map_set i updatedConflict (conflicts st) \<rparr>)))"

subsection \<open>detectConflicts\<close>

text \<open>
  First loop: \<open>teacherSchedules\<close> is a \<open>Map\<close> from teacher id to a \<open>Map\<close> from key to
  the array of schedule ids. A missing entry is created empty and the id is pushed onto the
  array, which lives in the inner map.
\<close>

definition pushId :: "string \<Rightarrow> int \<Rightarrow> (string, int list) jsmap \<Rightarrow> (string, int list) jsmap" where
  "pushId key i teacherMap =
     (case Map_get teacherMap key of
        None \<Rightarrow> Map_set key [i] teacherMap
      | Some ids \<Rightarrow> Map_set key (ids @ [i]) teacherMap)"

definition groupSchedule ::
  "(int, (string, int list) jsmap) jsmap \<Rightarrow> Schedule \<Rightarrow> (int, (string, int list) jsmap) jsmap" where
  "groupSchedule teacherSchedules schedule =
     (let key = dayTimeKey (sch_dayOfWeek schedule) (sch_timeSlot schedule);
          teacherMap = (case Map_get teacherSchedules (sch_teacherId schedule) of
                          None \<Rightarrow> [] | Some m \<Rightarrow> m)
      in Map_set (sch_teacherId schedule) (pushId key (sch_id schedule) teacherMap) teacherSchedules)"

text \<open>
  Second loop, innermost body: a slot with more than one id becomes a conflict.
  \<open>createConflict\<close> has no \<open>await\<close>, so it runs to its end inside the call and the
  conflict is in the store at once. The \<open>then\<close> callback that pushes the conflict onto the
  result array and starts the generation of suggestions is queued as a microtask.
\<close>

definition detectSlot :: "int \<Rightarrow> Conflict list \<times> MemStorage \<Rightarrow> string \<times> int list \<Rightarrow> Conflict list \<times> MemStorage" where
  "detectSlot teacherId acc entry =
     (let (found, st) = acc; (key, scheduleIds) = entry
      in if length scheduleIds > 1
         then (let (dayOfWeek, timeSlot) = splitKey key;
                   conflict = \<lparr> ic_teacherId = teacherId, ic_dayOfWeek = dayOfWeek,
                                ic_timeSlot = timeSlot, ic_conflictingScheduleIds = scheduleIds,
                                ic_resolved = False, ic_suggestions = [] \<rparr>;
                   (newConflict, st') = createConflict conflict st
               in (found @ [newConflict], st'))
         else (found, st))"

definition detectTeacher :: "Conflict list \<times> MemStorage \<Rightarrow> int \<times> (string, int list) jsmap \<Rightarrow> Conflict list \<times> MemStorage" where
  "detectTeacher acc entry = (let (teacherId, dayTimeMap) = entry in foldl (detectSlot teacherId) acc dayTimeMap)"

text \<open>
  \<open>detectConflicts\<close> up to the moment its awaiting caller resumes. The function returns
  the array \<open>conflicts\<close> while it is still empty; the queued callbacks run before the
  caller's continuation (they were queued first) and push every new conflict onto that same
  array, so the caller sees all of them. Each callback also calls
  \<open>generateConflictSuggestions\<close>, which stops at its first \<open>await\<close> behind the caller's
  continuation: when the caller resumes, no suggestion has been attached yet. That detached
  work is \<open>pendingSuggestions\<close> below.
\<close>

definition detectConflicts :: "MemStorage \<Rightarrow> Conflict list \<times> MemStorage" where
  "detectConflicts st =
     (let st0 = st\<lparr> conflicts := [], conflictId := 1 \<rparr>;
          allSchedules = getSchedules st0;
          st1 = st0\<lparr> detectLog := detectLog st0 @ [allSchedules] \<rparr>;
          teacherSchedules = foldl groupSchedule [] allSchedules
      in foldl detectTeacher ([], st1) teacherSchedules)"

subsection \<open>generateConflictSuggestions\<close>

text \<open>The labels written into the descriptions (line 333 and line 354).\<close>

definition dayNames :: "string list" where
  "dayNames = [''Sunday'', ''Monday'', ''Tuesday'', ''Wednesday'', ''Thursday'', ''Friday'']"

definition slotLabels :: "string list" where
  "slotLabels = [''6:30-7:20 AM'', ''7:20-8:10 AM'', ''8:10-9:00 AM'', ''9:20-10:10 AM'', ''10:10-11:00 AM'']"

text \<open>\<open>array[i]\<close> inside a template literal: out of range it is \<open>undefined\<close>.\<close>

definition labelAt :: "string list \<Rightarrow> int \<Rightarrow> string" where
  "labelAt xs i = (if 0 \<le> i \<and> i < int (length xs) then xs ! nat i else ''undefined'')"

text \<open>\<open>course?.name || fallback\<close>: a missing course and an empty name give the fallback.\<close>

definition nameOr :: "Course option \<Rightarrow> string \<Rightarrow> string" where
  "nameOr course fallback =
     (case course of None \<Rightarrow> fallback
      | Some c \<Rightarrow> if crs_name c = [] then fallback else crs_name c)"

text \<open>
  Lines 320-327: \<open>preferenceMatch\<close> starts true and is recomputed only when the teacher
  exists and has a non-empty array of preferences.
\<close>

definition preferenceMatch :: "Teacher option \<Rightarrow> int \<Rightarrow> int \<Rightarrow> bool" where
  "preferenceMatch teacher day slot =
     (case teacher of
        None \<Rightarrow> True
      | Some t \<Rightarrow>
          (case tch_timePreferences t of
             None \<Rightarrow> True
           | Some prefs \<Rightarrow>
               if length prefs = 0 then True
               else list_ex (\<lambda>pref. tp_dayOfWeek pref = day \<and>
                                      slot \<ge> tp_startTimeSlot pref \<and>
                                      slot \<le> tp_endTimeSlot pref) prefs))"

definition preferenceNote :: "bool \<Rightarrow> string" where
  "preferenceNote match = (if match then ''(matches teacher preference)'' else [])"

text \<open>
  What the loops of \<open>generateConflictSuggestions\<close> read: its local variables, the two
  storage methods it calls inside the loops (\<open>getCourseById\<close> and \<open>getTeachers\<close>), and
  the two label tables. Both storage classes contain the loop over the candidate slots word
  for word except for the label tables, so the loop is modelled once and each class supplies
  its own scope. The accumulator of the loops is the array \<open>suggestions\<close> together with
  the number of tokens drawn so far.
\<close>

record Scope =
  sc_getCourseById :: "int \<Rightarrow> Course option"
  sc_getTeachers :: "Teacher list"
  sc_conflict :: Conflict
  sc_allSchedules :: "Schedule list"
  sc_teacher :: "Teacher option"
  sc_occupiedSlots :: "string set"
  sc_dayLabel :: "int \<Rightarrow> string"
  sc_slotLabel :: "int \<Rightarrow> string"

type_synonym batch = "ConflictSuggestion list \<times> nat"

definition push :: "batch \<Rightarrow> (uuid \<Rightarrow> ConflictSuggestion) \<Rightarrow> batch" where
  "push acc mk = (let (suggestions, u) = acc in (suggestions @ [mk u], u + 1))"

text \<open>Body of the innermost loop (lines 313-338), with its two \<open>continue\<close> statements.\<close>

definition slotBody :: "Scope \<Rightarrow> Schedule \<Rightarrow> int \<Rightarrow> int \<Rightarrow> batch \<Rightarrow> batch" where
  "slotBody sc schedule day slot acc =
     (let key = dayTimeKey day slot
      in if day = cf_dayOfWeek (sc_conflict sc) \<and> slot = cf_timeSlot (sc_conflict sc) then acc
         else if key \<in> sc_occupiedSlots sc then acc
         else (let match = preferenceMatch (sc_teacher sc) day slot;
                   course = sc_getCourseById sc (sch_courseId schedule)
               in push acc (\<lambda>u.
                    \<lparr> sg_id = u,
                      sg_description = ''Move '' @ nameOr course ''Course'' @ '' to '' @ sc_dayLabel sc day
                          @ '' at '' @ sc_slotLabel sc slot @ '' '' @ preferenceNote match,
                      sg_action = Move,
                      sg_scheduleId = sch_id schedule,
                      sg_newDayOfWeek = Some day,
                      sg_newTimeSlot = Some slot,
                      sg_newTeacherId = None,
                      sg_swapWithScheduleId = None \<rparr>)))"

text \<open>\<open>for (let slot = 0; slot < 5; slot++)\<close> and \<open>for (let day = 0; day < 6; day++)\<close>.\<close>

function slotLoop :: "Scope \<Rightarrow> Schedule \<Rightarrow> int \<Rightarrow> int \<Rightarrow> batch \<Rightarrow> batch" where
  "slotLoop sc schedule day slot acc =
     (if slot < 5 then slotLoop sc schedule day (slot + 1) (slotBody sc schedule day slot acc) else acc)"
  by pat_completeness auto
termination
  by (relation "measure (\<lambda>(sc, schedule, day, slot, acc). nat (5 - slot))") auto

function dayLoop :: "Scope \<Rightarrow> Schedule \<Rightarrow> int \<Rightarrow> batch \<Rightarrow> batch" where
  "dayLoop sc schedule day acc =
     (if day < 6 then dayLoop sc schedule (day + 1) (slotLoop sc schedule day 0 acc) else acc)"
  by pat_completeness auto
termination
  by (relation "measure (\<lambda>(sc, schedule, day, acc). nat (6 - day))") auto

declare slotLoop.simps [simp del]

declare dayLoop.simps [simp del]

text \<open>MemStorage, lines 348-359: one swap suggestion per schedule of another teacher.\<close>

definition swapBody :: "Scope \<Rightarrow> Schedule \<Rightarrow> batch \<Rightarrow> Schedule \<Rightarrow> batch" where
  "swapBody sc schedule acc otherSchedule =
     (let course = sc_getCourseById sc (sch_courseId schedule);
          otherCourse = sc_getCourseById sc (sch_courseId otherSchedule)
      in push acc (\<lambda>u.
           \<lparr> sg_id = u,
             sg_description = ''Swap '' @ nameOr course ''Course'' @ '' with ''
                 @ nameOr otherCourse ''another course'' @ '' on ''
                 @ sc_dayLabel sc (sch_dayOfWeek otherSchedule) @ '' at ''
                 @ sc_slotLabel sc (sch_timeSlot otherSchedule),
             sg_action = Swap,
             sg_scheduleId = sch_id schedule,
             sg_newDayOfWeek = None,
             sg_newTimeSlot = None,
             sg_newTeacherId = None,
             sg_swapWithScheduleId = Some (sch_id otherSchedule) \<rparr>))"

text \<open>MemStorage, lines 365-384: a teacher who is busy in the conflict's slot is passed over.\<close>

definition reassignBody :: "Scope \<Rightarrow> Schedule \<Rightarrow> batch \<Rightarrow> Teacher \<Rightarrow> batch" where
  "reassignBody sc schedule acc otherTeacher =
     (let otherTeacherBusy =
            list_ex (\<lambda>s. sch_teacherId s = tch_id otherTeacher \<and>
                          sch_dayOfWeek s = cf_dayOfWeek (sc_conflict sc) \<and>
                          sch_timeSlot s = cf_timeSlot (sc_conflict sc)) (sc_allSchedules sc)
      in if \<not> otherTeacherBusy
         then (let course = sc_getCourseById sc (sch_courseId schedule)
               in push acc (\<lambda>u.
                    \<lparr> sg_id = u,
                      sg_description = ''Reassign '' @ nameOr course ''Course'' @ '' to '' @ tch_name otherTeacher,
                      sg_action = Reassign,
                      sg_scheduleId = sch_id schedule,
                      sg_newDayOfWeek = None,
                      sg_newTimeSlot = None,
                      sg_newTeacherId = Some (tch_id otherTeacher),
                      sg_swapWithScheduleId = None \<rparr>))
         else acc)"

text \<open>
  MemStorage, body of \<open>for (const schedule of validSchedules)\<close>: moves, then swaps,
  then reassignments.
\<close>

definition scheduleBody :: "Scope \<Rightarrow> batch \<Rightarrow> Schedule \<Rightarrow> batch" where
  "scheduleBody sc acc schedule =
     (let acc1 = dayLoop sc schedule 0 acc;
          otherSchedules = filter (\<lambda>s. sch_teacherId s \<noteq> cf_teacherId (sc_conflict sc) \<and>
                                        sch_id s \<notin> set (cf_conflictingScheduleIds (sc_conflict sc)))
                             (sc_allSchedules sc);
          acc2 = foldl (swapBody sc schedule) acc1 otherSchedules;
          allTeachers = sc_getTeachers sc;
          otherTeachers = filter (\<lambda>t. tch_id t \<noteq> cf_teacherId (sc_conflict sc)) allTeachers
      in foldl (reassignBody sc schedule) acc2 otherTeachers)"

text \<open>\<open>schedules.filter(schedule => schedule !== undefined)\<close>.\<close>

fun defined :: "'a option list \<Rightarrow> 'a list" where
  "defined [] = []"
| "defined (None # xs) = defined xs"
| "defined (Some x # xs) = x # defined xs"

text \<open>
  The function reads the store and draws tokens; the store it returns differs from the one
  it was given in \<open>uuidNext\<close> only because no statement of the source writes a field.
\<close>

definition generateConflictSuggestions :: "MemStorage \<Rightarrow> int \<Rightarrow> ConflictSuggestion list \<times> MemStorage" where
  "generateConflictSuggestions st conflictId' =
     (case getConflictById st conflictId' of
        None \<Rightarrow> ([], st)
      | Some conflict \<Rightarrow>
          (let found = map (Map_get (schedules st)) (cf_conflictingScheduleIds conflict);
               validSchedules = defined found
           in if length validSchedules < 2 then ([], st)
              else (let allSchedules = getSchedules st;
                        teacher = getTeacherById st (cf_teacherId conflict);
                        occupiedSlots = set (map (\<lambda>s. dayTimeKey (sch_dayOfWeek s) (sch_timeSlot s)) allSchedules);
                        sc = \<lparr> sc_getCourseById = getCourseById st, sc_getTeachers = getTeachers st,
                               sc_conflict = conflict, sc_allSchedules = allSchedules,
                               sc_teacher = teacher, sc_occupiedSlots = occupiedSlots,
                               sc_dayLabel = labelAt dayNames, sc_slotLabel = labelAt slotLabels \<rparr>;
                        (suggestions, u) = foldl (scheduleBody sc) ([], uuidNext st) validSchedules
                    in (suggestions, st\<lparr> uuidNext := u \<rparr>))))"

text \<open>
  The detached chains started by a detection pass (lines 276-278), one per new conflict:
  \<open>generateConflictSuggestions(newConflict.id).then(suggestions =>
  updateConflict(newConflict.id, { suggestions }))\<close>. Nobody awaits them. They write the
  field \<open>suggestions\<close> of the conflict stored under that id and nothing else.
\<close>

definition attachSuggestions :: "MemStorage \<Rightarrow> Conflict \<Rightarrow> MemStorage" where
  "attachSuggestions st newConflict =
     (let (suggestions, st1) = generateConflictSuggestions st (cf_id newConflict)
      in snd (updateConflict (cf_id newConflict) \<lparr> cp_resolved = None, cp_suggestions = Some suggestions \<rparr> st1))"

definition pendingSuggestions :: "Conflict list \<Rightarrow> MemStorage \<Rightarrow> MemStorage" where
  "pendingSuggestions newConflicts st = foldl attachSuggestions st newConflicts"

subsection \<open>Schedule and teacher updates\<close>

text \<open>
  \<open>{ ...existingSchedule, ...schedule }\<close>. The engine builds its patches from the
  optional fields of a stored suggestion; a field the suggestion lacks would be copied as
  \<open>undefined\<close>, here it leaves the schedule's value. Stored suggestions never lack the
  fields of their action (lemma \<open>generated_fields\<close>).
\<close>

definition patchSchedule :: "Schedule \<Rightarrow> SchedulePatch \<Rightarrow> Schedule" where
  "patchSchedule s p =
     s\<lparr> sch_dayOfWeek := (case sp_dayOfWeek p of None \<Rightarrow> sch_dayOfWeek s | Some d \<Rightarrow> d),
        sch_timeSlot := (case sp_timeSlot p of None \<Rightarrow> sch_timeSlot s | Some t \<Rightarrow> t),
        sch_teacherId := (case sp_teacherId p of None \<Rightarrow> sch_teacherId s | Some t \<Rightarrow> t) \<rparr>"

text \<open>
  \<open>updateSchedule\<close> (lines 183-193): an absent id returns \<open>undefined\<close> before anything
  is written; otherwise the entry is replaced and a detection pass is awaited.
\<close>

definition updateSchedule :: "int \<Rightarrow> SchedulePatch \<Rightarrow> MemStorage \<Rightarrow> Schedule option \<times> MemStorage" where
  "updateSchedule i p st =
     (case Map_get (schedules st) i of
        None \<Rightarrow> (None, st)
      | Some existingSchedule \<Rightarrow>
          (let updatedSchedule = patchSchedule existingSchedule p;
               st1 = st\<lparr> schedules := Map_set i updatedSchedule (schedules st) \<rparr>;
               (found, st2) = detectConflicts st1
           in (Some updatedSchedule, st2)))"

text \<open>\<open>deleteTeacher\<close> (line 158): no detection pass follows.\<close>

definition deleteTeacher :: "int \<Rightarrow> MemStorage \<Rightarrow> bool \<times> MemStorage" where
  "deleteTeacher i st =
     (Map_has (teachers st) i, st\<lparr> teachers := filter (\<lambda>(k, t). k \<noteq> i) (teachers st) \<rparr>)"

section \<open>Routes (server/routes.ts)\<close>

text \<open>
  One constructor per \<open>res.json\<close> call of the two handlers; \<open>statusCode\<close> is the HTTP
  status sent with it. A handler's result is its reply and the store as the handler's own
  statements leave it; suggestion chains started by its detection passes are still in flight
  then.
\<close>

datatype reply =
    SuggestionIdRequired
  | ConflictNotFound int
  | SuggestionNotFound uuid
  | InvalidSwapSuggestion
  | SchedulesNotFound
  | ResolvedSuccessfully
  | SuggestionList "ConflictSuggestion list"

fun statusCode :: "reply \<Rightarrow> nat" where
  "statusCode SuggestionIdRequired = 400"
| "statusCode (ConflictNotFound i) = 404"
| "statusCode (SuggestionNotFound s) = 404"
| "statusCode InvalidSwapSuggestion = 400"
| "statusCode SchedulesNotFound = 404"
| "statusCode ResolvedSuccessfully = 200"
| "statusCode (SuggestionList xs) = 200"

text \<open>\<open>GET /api/conflicts/:id/suggestions\<close> (lines 625-635).\<close>

definition getSuggestionsRoute :: "MemStorage \<Rightarrow> int \<Rightarrow> reply \<times> MemStorage" where
  "getSuggestionsRoute st i =
     (case getConflictById st i of
        None \<Rightarrow> (ConflictNotFound i, st)
      | Some conflict \<Rightarrow>
          (let (suggestions, st1) = generateConflictSuggestions st i
           in (SuggestionList suggestions, st1)))"

text \<open>
  \<open>POST /api/conflicts/:id/resolve\<close> (lines 637-701). \<open>suggestionId\<close> is \<open>None\<close>
  when the body has none or a falsy one. The tail of the handler (lines 694-700) marks the
  conflict resolved, awaits a detection pass and answers.
\<close>

definition finishResolve :: "int \<Rightarrow> MemStorage \<Rightarrow> reply \<times> MemStorage" where
  "finishResolve i st =
     (let (updated, st1) = updateConflict i \<lparr> cp_resolved = Some True, cp_suggestions = None \<rparr> st;
          (found, st2) = detectConflicts st1
      in (ResolvedSuccessfully, st2))"

definition resolveSwap :: "int \<Rightarrow> Schedule \<Rightarrow> Schedule \<Rightarrow> MemStorage \<Rightarrow> reply \<times> MemStorage" where
  "resolveSwap i schedule1 schedule2 st =
     (let (r1, st1) = updateSchedule (sch_id schedule1)
                        \<lparr> sp_dayOfWeek = Some (sch_dayOfWeek schedule2),
                          sp_timeSlot = Some (sch_timeSlot schedule2), sp_teacherId = None \<rparr> st;
          (r2, st2) = updateSchedule (sch_id schedule2)
                        \<lparr> sp_dayOfWeek = Some (sch_dayOfWeek schedule1),
                          sp_timeSlot = Some (sch_timeSlot schedule1), sp_teacherId = None \<rparr> st1
      in finishResolve i st2)"

definition resolveRoute :: "MemStorage \<Rightarrow> int \<Rightarrow> uuid option \<Rightarrow> reply \<times> MemStorage" where
  "resolveRoute st i suggestionId =
     (case suggestionId of
        None \<Rightarrow> (SuggestionIdRequired, st)
      | Some sid \<Rightarrow>
          (case getConflictById st i of
             None \<Rightarrow> (ConflictNotFound i, st)
           | Some conflict \<Rightarrow>
               (case find (\<lambda>s. sg_id s = sid) (cf_suggestions conflict) of
                  None \<Rightarrow> (SuggestionNotFound sid, st)
                | Some suggestion \<Rightarrow>
                    (case sg_action suggestion of
                       Move \<Rightarrow>
                         (let (r, st1) = updateSchedule (sg_scheduleId suggestion)
                                           \<lparr> sp_dayOfWeek = sg_newDayOfWeek suggestion,
                                             sp_timeSlot = sg_newTimeSlot suggestion,
                                             sp_teacherId = None \<rparr> st
                          in finishResolve i st1)
                     | Swap \<Rightarrow>
                         (case sg_swapWithScheduleId suggestion of
                            None \<Rightarrow> (InvalidSwapSuggestion, st)
                          | Some w \<Rightarrow>
                              if w = 0 then (InvalidSwapSuggestion, st)
                              else (case (find (\<lambda>s. sch_id s = sg_scheduleId suggestion) (getSchedules st),
                                          find (\<lambda>s. sch_id s = w) (getSchedules st)) of
                                      (Some schedule1, Some schedule2) \<Rightarrow> resolveSwap i schedule1 schedule2 st
                                    | _ \<Rightarrow> (SchedulesNotFound, st)))
                     | Reassign \<Rightarrow>
                         (let (r, st1) = updateSchedule (sg_scheduleId suggestion)
                                           \<lparr> sp_dayOfWeek = None, sp_timeSlot = None,
                                             sp_teacherId = sg_newTeacherId suggestion \<rparr> st
                          in finishResolve i st1)))))"

section \<open>DatabaseStorage (server/database-storage.ts)\<close>

text \<open>
  The second implementation of \<open>IStorage\<close>. A table is the list of its rows; \<open>select\<close>
  with a \<open>where\<close> clause is \<open>filter\<close>, and \<open>result.length > 0 ? result[0] : undefined\<close>
  is \<open>find\<close>. \<open>db_conflictSerial\<close> is the next value of the \<open>SERIAL\<close> id of table
  \<open>conflicts\<close>, \<open>db_uuidNext\<close> the number of tokens drawn so far.
\<close>

record Database =
  db_courses :: "Course list"
  db_teachers :: "Teacher list"
  db_schedules :: "Schedule list"
  db_conflicts :: "Conflict list"
  db_conflictSerial :: int
  db_uuidNext :: nat

definition db_getCourseById :: "Database \<Rightarrow> int \<Rightarrow> Course option" where
  "db_getCourseById d i = find (\<lambda>c. crs_id c = i) (db_courses d)"

definition db_getTeachers :: "Database \<Rightarrow> Teacher list" where
  "db_getTeachers d = db_teachers d"

definition db_getTeacherById :: "Database \<Rightarrow> int \<Rightarrow> Teacher option" where
  "db_getTeacherById d i = find (\<lambda>t. tch_id t = i) (db_teachers d)"

definition db_getSchedules :: "Database \<Rightarrow> Schedule list" where
  "db_getSchedules d = db_schedules d"

definition db_getConflictById :: "Database \<Rightarrow> int \<Rightarrow> Conflict option" where
  "db_getConflictById d i = find (\<lambda>c. cf_id c = i) (db_conflicts d)"

text \<open>\<open>insert(conflicts).values(conflict).returning()\<close>.\<close>

definition db_createConflict :: "InsertConflict \<Rightarrow> Database \<Rightarrow> Conflict \<times> Database" where
  "db_createConflict conflict d =
     (let i = db_conflictSerial d;
          row = \<lparr> cf_id = i,
                  cf_teacherId = ic_teacherId conflict,
                  cf_dayOfWeek = ic_dayOfWeek conflict,
                  cf_timeSlot = ic_timeSlot conflict,
                  cf_conflictingScheduleIds = ic_conflictingScheduleIds conflict,
                  cf_resolved = ic_resolved conflict,
                  cf_suggestions = ic_suggestions conflict \<rparr>
      in (row, d\<lparr> db_conflictSerial := i + 1, db_conflicts := db_conflicts d @ [row] \<rparr>))"

text \<open>\<open>update(conflicts).set(conflict).where(eq(conflicts.id, id))\<close>.\<close>

definition db_updateConflict :: "int \<Rightarrow> ConflictPatch \<Rightarrow> Database \<Rightarrow> Database" where
  "db_updateConflict i p d =
     d\<lparr> db_conflicts := map (\<lambda>c. if cf_id c = i then patchConflict c p else c) (db_conflicts d) \<rparr>"

subsection \<open>generateConflictSuggestions\<close>

text \<open>The tables \<open>DAYS_OF_WEEK\<close> and \<open>TIME_SLOTS\<close> (labels only) of shared/schema.ts.\<close>

definition DAYS_OF_WEEK :: "string list" where
  "DAYS_OF_WEEK = [''Sunday'', ''Monday'', ''Tuesday'', ''Wednesday'', ''Thursday'', ''Friday'', ''Saturday'']"

definition TIME_SLOTS :: "string list" where
  "TIME_SLOTS = [''6:30 AM - 7:20 AM'', ''7:20 AM - 8:10 AM'', ''8:10 AM - 9:00 AM'',
                 ''9:20 AM - 10:10 AM'', ''10:10 AM - 11:00 AM'']"

datatype jsError = ReferenceError

text \<open>
  Body of \<open>for (const schedule of validSchedules)\<close>, lines 266-330. The loop over the
  candidate slots is \<open>dayLoop\<close>. In the two loops that follow, the description reads
  \<open>course\<close>, which is declared with \<open>const\<close> inside the body of the slot loop (line 286)
  and is not in scope at lines 310 and 324: the first iteration of either loop draws a token
  and then throws \<open>ReferenceError\<close>, before anything is pushed. So the body finishes only when
  there is no schedule of another teacher outside the conflict and no other teacher.
\<close>

definition db_scheduleBody :: "Scope \<Rightarrow> Schedule \<Rightarrow> batch \<Rightarrow> jsError option \<times> batch" where
  "db_scheduleBody sc schedule acc =
     (let acc1 = dayLoop sc schedule 0 acc;
          otherTeachersSchedules =
            filter (\<lambda>s. sch_teacherId s \<noteq> cf_teacherId (sc_conflict sc) \<and>
                         sch_id s \<notin> set (cf_conflictingScheduleIds (sc_conflict sc)))
              (sc_allSchedules sc)
      in if otherTeachersSchedules \<noteq> [] then (Some ReferenceError, (fst acc1, snd acc1 + 1))
         else (let otherTeachers = filter (\<lambda>t. tch_id t \<noteq> cf_teacherId (sc_conflict sc)) (sc_getTeachers sc)
               in if otherTeachers \<noteq> [] then (Some ReferenceError, (fst acc1, snd acc1 + 1))
                  else (None, acc1)))"

fun db_scheduleLoop :: "Scope \<Rightarrow> batch \<Rightarrow> Schedule list \<Rightarrow> jsError option \<times> batch" where
  "db_scheduleLoop sc acc [] = (None, acc)"
| "db_scheduleLoop sc acc (schedule # rest) =
     (case db_scheduleBody sc schedule acc of
        (Some e, acc1) \<Rightarrow> (Some e, acc1)
      | (None, acc1) \<Rightarrow> db_scheduleLoop sc acc1 rest)"

text \<open>
  Lines 246-333. \<open>inArray(schedules.id, ids)\<close> selects the rows whose id is among the ids.
  The early exit is taken only when no row is selected. A rejected promise is \<open>Inl\<close>.
\<close>

definition db_generateConflictSuggestions ::
  "Database \<Rightarrow> int \<Rightarrow> (jsError + ConflictSuggestion list) \<times> Database" where
  "db_generateConflictSuggestions d conflictId' =
     (case db_getConflictById d conflictId' of
        None \<Rightarrow> (Inr [], d)
      | Some conflict \<Rightarrow>
          (let validSchedules = filter (\<lambda>s. sch_id s \<in> set (cf_conflictingScheduleIds conflict)) (db_schedules d)
           in if length validSchedules = 0 then (Inr [], d)
              else (let allSchedules = db_getSchedules d;
                        teacher = db_getTeacherById d (cf_teacherId conflict);
                        occupiedSlots = set (map (\<lambda>s. dayTimeKey (sch_dayOfWeek s) (sch_timeSlot s)) allSchedules);
                        sc = \<lparr> sc_getCourseById = db_getCourseById d, sc_getTeachers = db_getTeachers d,
                               sc_conflict = conflict, sc_allSchedules = allSchedules,
                               sc_teacher = teacher, sc_occupiedSlots = occupiedSlots,
                               sc_dayLabel = labelAt DAYS_OF_WEEK, sc_slotLabel = labelAt TIME_SLOTS \<rparr>
                    in (case db_scheduleLoop sc ([], db_uuidNext d) validSchedules of
                          (Some e, (suggestions, u)) \<Rightarrow> (Inl e, d\<lparr> db_uuidNext := u \<rparr>)
                        | (None, (suggestions, u)) \<Rightarrow> (Inr suggestions, d\<lparr> db_uuidNext := u \<rparr>)))))"

subsection \<open>detectConflicts\<close>

text \<open>Lines 176-200: group by teacher, then each teacher's schedules by key.\<close>

definition db_pushSchedule :: "'k \<Rightarrow> Schedule \<Rightarrow> ('k, Schedule list) jsmap \<Rightarrow> ('k, Schedule list) jsmap" where
  "db_pushSchedule k schedule m =
     (case Map_get m k of
        None \<Rightarrow> Map_set k [schedule] m
      | Some xs \<Rightarrow> Map_set k (xs @ [schedule]) m)"

definition db_teacherMap :: "Schedule list \<Rightarrow> (int, Schedule list) jsmap" where
  "db_teacherMap allSchedules = foldl (\<lambda>m s. db_pushSchedule (sch_teacherId s) s m) [] allSchedules"

definition db_slotMap :: "Schedule list \<Rightarrow> (string, Schedule list) jsmap" where
  "db_slotMap teacherSchedules =
     foldl (\<lambda>m s. db_pushSchedule (dayTimeKey (sch_dayOfWeek s) (sch_timeSlot s)) s m) [] teacherSchedules"

text \<open>
  Lines 203-234: a slot with more than one schedule becomes a conflict row unless a row with
  the same teacher, day and slot is already in the table. No row is ever deleted.
\<close>

definition db_detectSlot :: "int \<Rightarrow> Conflict list \<times> Database \<Rightarrow> string \<times> Schedule list \<Rightarrow> Conflict list \<times> Database" where
  "db_detectSlot teacherId acc entry =
     (let (newConflicts, d) = acc; (key, slotSchedules) = entry
      in if length slotSchedules > 1
         then (let (day, time) = splitKey key;
                   scheduleIds = map sch_id slotSchedules;
                   existingConflicts =
                     filter (\<lambda>c. cf_teacherId c = teacherId \<and> cf_dayOfWeek c = day \<and> cf_timeSlot c = time)
                       (db_conflicts d)
               in if length existingConflicts = 0
                  then (let conflict = \<lparr> ic_teacherId = teacherId, ic_dayOfWeek = day, ic_timeSlot = time,
                                         ic_conflictingScheduleIds = scheduleIds,
                                         ic_resolved = False, ic_suggestions = [] \<rparr>;
                            (newConflict, d1) = db_createConflict conflict d
                        in (newConflicts @ [newConflict], d1))
                  else (newConflicts, d))
         else (newConflicts, d))"

definition db_detectTeacher :: "Conflict list \<times> Database \<Rightarrow> int \<times> Schedule list \<Rightarrow> Conflict list \<times> Database" where
  "db_detectTeacher acc entry =
     (let (teacherId, teacherSchedules) = entry
      in foldl (db_detectSlot teacherId) acc (db_slotMap teacherSchedules))"

text \<open>
  Lines 237-241: the suggestions of each new conflict are generated and stored, each step
  awaited. A rejection of \<open>generateConflictSuggestions\<close> ends the loop and the call.
\<close>

fun db_attachAll :: "Conflict list \<Rightarrow> Database \<Rightarrow> jsError option \<times> Database" where
  "db_attachAll [] d = (None, d)"
| "db_attachAll (conflict # rest) d =
     (case db_generateConflictSuggestions d (cf_id conflict) of
        (Inl e, d1) \<Rightarrow> (Some e, d1)
      | (Inr suggestions, d1) \<Rightarrow>
          db_attachAll rest
            (db_updateConflict (cf_id conflict) \<lparr> cp_resolved = None, cp_suggestions = Some suggestions \<rparr> d1))"

definition db_detectConflicts :: "Database \<Rightarrow> (jsError + Conflict list) \<times> Database" where
  "db_detectConflicts d =
     (let allSchedules = db_getSchedules d;
          (newConflicts, d1) = foldl db_detectTeacher ([], d) (db_teacherMap allSchedules)
      in (case db_attachAll newConflicts d1 of
            (Some e, d2) \<Rightarrow> (Inl e, d2)
          | (None, d2) \<Rightarrow> (Inr newConflicts, d2)))"

section \<open>The specification's vocabulary\<close>

text \<open>
  Notions the claims are stated with. Spec 4.1: the entries are partitioned into groups keyed by
  (teacherId, dayOfWeek, timeSlot); a group with more than one entry is a double booking.
  Spec 4.2: a slot is occupied when any entry of any teacher is in it; a teacher is busy in a
  slot when one of the teacher's entries is in it; the candidate slots are the pairs of a day
  in [0, 6) and a slot in [0, 5), day outer and slot inner.
\<close>

definition slotKey :: "Schedule \<Rightarrow> int \<times> int \<times> int" where
  "slotKey s = (sch_teacherId s, sch_dayOfWeek s, sch_timeSlot s)"

definition groupOf :: "Schedule list \<Rightarrow> int \<times> int \<times> int \<Rightarrow> Schedule list" where
  "groupOf scheds k = filter (\<lambda>s. slotKey s = k) scheds"

definition doubleBooked :: "Schedule list \<Rightarrow> (int \<times> int \<times> int) list" where
  "doubleBooked scheds = filter (\<lambda>k. length (groupOf scheds k) > 1) (remdups (map slotKey scheds))"

definition conflictContent :: "Conflict \<Rightarrow> int \<times> int list \<times> bool \<times> ConflictSuggestion list" where
  "conflictContent c = (cf_teacherId c, cf_conflictingScheduleIds c, cf_resolved c, cf_suggestions c)"

definition conflictSlot :: "Conflict \<Rightarrow> (int \<times> int \<times> int) \<times> int list" where
  "conflictSlot c = ((cf_teacherId c, cf_dayOfWeek c, cf_timeSlot c), cf_conflictingScheduleIds c)"

definition occupied :: "Schedule list \<Rightarrow> int \<times> int \<Rightarrow> bool" where
  "occupied scheds p = (\<exists>x \<in> set scheds. (sch_dayOfWeek x, sch_timeSlot x) = p)"

definition busyAt :: "Schedule list \<Rightarrow> int \<Rightarrow> int \<Rightarrow> int \<Rightarrow> bool" where
  "busyAt scheds t day slot =
     (\<exists>s \<in> set scheds. sch_teacherId s = t \<and> sch_dayOfWeek s = day \<and> sch_timeSlot s = slot)"

definition candidateSlots :: "(int \<times> int) list" where
  "candidateSlots = concat (map (\<lambda>day. map (Pair day) [0..4]) [0..5])"

definition freeSlots :: "Schedule list \<Rightarrow> Conflict \<Rightarrow> (int \<times> int) list" where
  "freeSlots scheds conflict =
     filter (\<lambda>p. p \<noteq> (cf_dayOfWeek conflict, cf_timeSlot conflict) \<and> \<not> occupied scheds p) candidateSlots"

definition moveTarget :: "ConflictSuggestion \<Rightarrow> int \<times> int option \<times> int option" where
  "moveTarget sg = (sg_scheduleId sg, sg_newDayOfWeek sg, sg_newTimeSlot sg)"

definition reassignTarget :: "ConflictSuggestion \<Rightarrow> int \<times> int option" where
  "reassignTarget sg = (sg_scheduleId sg, sg_newTeacherId sg)"

definition storedPreferences :: "Teacher option \<Rightarrow> TimePreference list" where
  "storedPreferences teacher =
     (case teacher of None \<Rightarrow> []
      | Some t \<Rightarrow> (case tch_timePreferences t of None \<Rightarrow> [] | Some prefs \<Rightarrow> prefs))"

definition withinPreference :: "TimePreference \<Rightarrow> int \<Rightarrow> int \<Rightarrow> bool" where
  "withinPreference pref day slot =
     (tp_dayOfWeek pref = day \<and> tp_startTimeSlot pref \<le> slot \<and> slot \<le> tp_endTimeSlot pref)"

definition prefers :: "Teacher option \<Rightarrow> int \<Rightarrow> int \<Rightarrow> bool" where
  "prefers teacher day slot =
     (storedPreferences teacher = [] \<or> (\<exists>pref \<in> set (storedPreferences teacher). withinPreference pref day slot))"

definition moveText :: "Course option \<Rightarrow> string \<Rightarrow> string \<Rightarrow> bool \<Rightarrow> string" where
  "moveText course dayLabel slotLabel match =
     ''Move '' @ nameOr course ''Course'' @ '' to '' @ dayLabel
       @ '' at '' @ slotLabel @ '' '' @ (if match then ''(matches teacher preference)'' else [])"

definition moveNote :: "ConflictSuggestion \<Rightarrow> (int \<times> int option \<times> int option) \<times> string" where
  "moveNote sg = (moveTarget sg, sg_description sg)"

definition storedTokens :: "MemStorage \<Rightarrow> uuid set" where
  "storedTokens st = set (concat (map (\<lambda>c. map sg_id (cf_suggestions c)) (getConflicts st)))"

text \<open>
  Spec 4.3 and 7: the outcomes of \<open>resolve\<close>. A reply of the handler is read as
  \<open>NotFound\<close> when it reports a missing conflict or missing schedule entries, and as
  \<open>InvalidSuggestion\<close> when it reports a missing suggestion id, a suggestion id that the
  conflict does not hold, or a swap suggestion without its partner. A store is well formed
  when every schedule entry is filed under its own id, as \<open>createSchedule\<close> files it.
\<close>

datatype outcome = Success | NotFound | InvalidSuggestion

fun outcomeOf :: "reply \<Rightarrow> outcome" where
  "outcomeOf SuggestionIdRequired = InvalidSuggestion"
| "outcomeOf (ConflictNotFound i) = NotFound"
| "outcomeOf (SuggestionNotFound s) = InvalidSuggestion"
| "outcomeOf InvalidSwapSuggestion = InvalidSuggestion"
| "outcomeOf SchedulesNotFound = NotFound"
| "outcomeOf ResolvedSuccessfully = Success"
| "outcomeOf (SuggestionList xs) = Success"

definition wellFormed :: "MemStorage \<Rightarrow> bool" where
  "wellFormed st = (distinct (map fst (schedules st)) \<and> list_all (\<lambda>(k, s). sch_id s = k) (schedules st))"

definition slotOf :: "Schedule \<Rightarrow> int \<times> int" where
  "slotOf s = (sch_dayOfWeek s, sch_timeSlot s)"

definition moveTo :: "Schedule \<Rightarrow> int \<times> int \<Rightarrow> Schedule" where
  "moveTo s p = s\<lparr> sch_dayOfWeek := fst p, sch_timeSlot := snd p \<rparr>"

definition slotsOf :: "Schedule list \<Rightarrow> (int \<times> int \<times> int) list" where
  "slotsOf scheds = map (\<lambda>s. (sch_id s, sch_dayOfWeek s, sch_timeSlot s)) scheds"

definition entryWithId :: "MemStorage \<Rightarrow> int \<Rightarrow> Schedule option" where
  "entryWithId st k = find (\<lambda>s. sch_id s = k) (getSchedules st)"

definition storedSuggestion :: "MemStorage \<Rightarrow> int \<Rightarrow> uuid \<Rightarrow> ConflictSuggestion option" where
  "storedSuggestion st i sid =
     (case getConflictById st i of None \<Rightarrow> None
      | Some conflict \<Rightarrow> find (\<lambda>s. sg_id s = sid) (cf_suggestions conflict))"

definition targetsExistingEntry :: "MemStorage \<Rightarrow> int \<Rightarrow> uuid option \<Rightarrow> bool" where
  "targetsExistingEntry st i suggestionId =
     (case suggestionId of
        None \<Rightarrow> True
      | Some sid \<Rightarrow>
          (case storedSuggestion st i sid of
             None \<Rightarrow> True
           | Some sg \<Rightarrow> sg_action sg = Swap \<or> Map_get (schedules st) (sg_scheduleId sg) \<noteq> None))"

text \<open>
  What the generator is expected to propose for the entries of a conflict, given the schedule
  entries of the store: the free candidate slots, the other teachers who are not busy in the
  conflict's slot, and the description of each move. \<open>hasFields\<close>: a suggestion
  carries the optional fields that its action reads.
\<close>

definition expectedMoves :: "Schedule list \<Rightarrow> Conflict \<Rightarrow> Schedule list \<Rightarrow> (int \<times> int option \<times> int option) list" where
  "expectedMoves scheds conflict entries =
     concat (map (\<lambda>e. map (\<lambda>(d, s). (sch_id e, Some d, Some s)) (freeSlots scheds conflict)) entries)"

definition avoidsTakenSlots :: "Schedule list \<Rightarrow> Conflict \<Rightarrow> ConflictSuggestion \<Rightarrow> bool" where
  "avoidsTakenSlots scheds conflict sg =
     (\<exists>d s. sg_newDayOfWeek sg = Some d \<and> sg_newTimeSlot sg = Some s
            \<and> (d, s) \<noteq> (cf_dayOfWeek conflict, cf_timeSlot conflict)
            \<and> \<not> occupied scheds (d, s))"

definition expectedReassignments :: "Schedule list \<Rightarrow> Teacher list \<Rightarrow> Conflict \<Rightarrow> Schedule list \<Rightarrow> (int \<times> int option) list" where
  "expectedReassignments scheds allTeachers conflict entries =
     concat (map (\<lambda>e. map (\<lambda>t. (sch_id e, Some (tch_id t)))
                        (filter (\<lambda>t. tch_id t \<noteq> cf_teacherId conflict
                                      \<and> \<not> busyAt scheds (tch_id t) (cf_dayOfWeek conflict) (cf_timeSlot conflict))
                           allTeachers))
               entries)"

definition expectedNotes ::
  "(int \<Rightarrow> Course option) \<Rightarrow> string list \<Rightarrow> string list \<Rightarrow> Teacher option \<Rightarrow> Schedule list \<Rightarrow> Conflict
     \<Rightarrow> Schedule list \<Rightarrow> ((int \<times> int option \<times> int option) \<times> string) list" where
  "expectedNotes courseOf days slots teacher scheds conflict entries =
     concat (map (\<lambda>e. map (\<lambda>(d, s). ((sch_id e, Some d, Some s),
                                        moveText (courseOf (sch_courseId e)) (labelAt days d) (labelAt slots s)
                                          (prefers teacher d s)))
                        (freeSlots scheds conflict))
               entries)"

definition hasFields :: "ConflictSuggestion \<Rightarrow> bool" where
  "hasFields sg =
     (case sg_action sg of
        Move \<Rightarrow> sg_newDayOfWeek sg \<noteq> None \<and> sg_newTimeSlot sg \<noteq> None
      | Swap \<Rightarrow> sg_swapWithScheduleId sg \<noteq> None
      | Reassign \<Rightarrow> sg_newTeacherId sg \<noteq> None)"

section \<open>Auxiliary notions for the proofs\<close>

text \<open>
  The contents of the nested grouping map, the conflicts a pass creates from it, and the
  suggestions a generation pushes, as plain lists.
\<close>

definition lookup2 :: "(int, (string, int list) jsmap) jsmap \<Rightarrow> int \<Rightarrow> string \<Rightarrow> int list option" where
  "lookup2 G t k = (case map_of G t of None \<Rightarrow> None | Some m \<Rightarrow> map_of m k)"

definition nested_distinct :: "(int, (string, int list) jsmap) jsmap \<Rightarrow> bool" where
  "nested_distinct G = (distinct (map fst G) \<and> (\<forall>(t, m) \<in> set G. distinct (map fst m)))"

definition idsAt :: "Schedule list \<Rightarrow> int \<Rightarrow> string \<Rightarrow> int list" where
  "idsAt scheds t k =
     map sch_id (filter (\<lambda>s. sch_teacherId s = t \<and> dayTimeKey (sch_dayOfWeek s) (sch_timeSlot s) = k) scheds)"

definition flat :: "(int, (string, int list) jsmap) jsmap \<Rightarrow> (int \<times> string \<times> int list) list" where
  "flat G = concat (map (\<lambda>(t, m). map (\<lambda>(k, ids). (t, k, ids)) m) G)"

definition mkConflict :: "int \<Rightarrow> int \<times> string \<times> int list \<Rightarrow> Conflict" where
  "mkConflict n e =
     (case e of (t, k, ids) \<Rightarrow>
        \<lparr> cf_id = n, cf_teacherId = t, cf_dayOfWeek = fst (splitKey k), cf_timeSlot = snd (splitKey k),
          cf_conflictingScheduleIds = ids, cf_resolved = False, cf_suggestions = [] \<rparr>)"

fun numbered :: "int \<Rightarrow> (int \<times> string \<times> int list) list \<Rightarrow> Conflict list" where
  "numbered n [] = []"
| "numbered n (e # es) = mkConflict n e # numbered (n + 1) es"

definition big :: "int \<times> string \<times> int list \<Rightarrow> bool" where
  "big e = (case e of (t, k, ids) \<Rightarrow> length ids > 1)"

definition keys_below :: "MemStorage \<Rightarrow> bool" where
  "keys_below st = (\<forall>i \<in> fst ` set (conflicts st). i < conflictId st)"

definition emit :: "MemStorage \<Rightarrow> (int \<times> string \<times> int list) list \<Rightarrow> MemStorage" where
  "emit st B = st\<lparr> conflictId := conflictId st + int (length B),
                   conflicts := conflicts st @ map (\<lambda>c. (cf_id c, c)) (numbered (conflictId st) B) \<rparr>"

definition slotGroups :: "MemStorage \<Rightarrow> (int \<times> string \<times> int list) list" where
  "slotGroups st = filter big (flat (foldl groupSchedule [] (getSchedules st)))"

definition keyed :: "(int \<times> int \<times> int) \<times> int list \<Rightarrow> int \<times> string \<times> int list" where
  "keyed e = (case e of ((t, d, s), ids) \<Rightarrow> (t, dayTimeKey d s, ids))"

definition specGroups :: "Schedule list \<Rightarrow> ((int \<times> int \<times> int) \<times> int list) list" where
  "specGroups scheds = map (\<lambda>k. (k, map sch_id (groupOf scheds k))) (remdups (map slotKey scheds))"

definition stamped :: "ConflictSuggestion \<Rightarrow> uuid \<Rightarrow> ConflictSuggestion" where
  "stamped b u = b\<lparr> sg_id := u \<rparr>"

fun stampAll :: "nat \<Rightarrow> ConflictSuggestion list \<Rightarrow> ConflictSuggestion list" where
  "stampAll u [] = []"
| "stampAll u (b # bs) = stamped b u # stampAll (u + 1) bs"

definition pushAll :: "batch \<Rightarrow> ConflictSuggestion list \<Rightarrow> batch" where
  "pushAll acc bs = (fst acc @ stampAll (snd acc) bs, snd acc + length bs)"

definition moveOf :: "Scope \<Rightarrow> Schedule \<Rightarrow> int \<Rightarrow> int \<Rightarrow> ConflictSuggestion" where
  "moveOf sc schedule day slot =
     \<lparr> sg_id = 0,
       sg_description = ''Move '' @ nameOr (sc_getCourseById sc (sch_courseId schedule)) ''Course''
           @ '' to '' @ sc_dayLabel sc day @ '' at '' @ sc_slotLabel sc slot @ '' ''
           @ preferenceNote (preferenceMatch (sc_teacher sc) day slot),
       sg_action = Move, sg_scheduleId = sch_id schedule,
       sg_newDayOfWeek = Some day, sg_newTimeSlot = Some slot,
       sg_newTeacherId = None, sg_swapWithScheduleId = None \<rparr>"

definition freeSlot :: "Scope \<Rightarrow> int \<times> int \<Rightarrow> bool" where
  "freeSlot sc p =
     (case p of (day, slot) \<Rightarrow>
        \<not> (day = cf_dayOfWeek (sc_conflict sc) \<and> slot = cf_timeSlot (sc_conflict sc))
        \<and> dayTimeKey day slot \<notin> sc_occupiedSlots sc)"

definition slotBodies :: "Scope \<Rightarrow> Schedule \<Rightarrow> int \<Rightarrow> int \<Rightarrow> ConflictSuggestion list" where
  "slotBodies sc schedule day slot = (if freeSlot sc (day, slot) then [moveOf sc schedule day slot] else [])"

definition swapOf :: "Scope \<Rightarrow> Schedule \<Rightarrow> Schedule \<Rightarrow> ConflictSuggestion" where
  "swapOf sc schedule otherSchedule =
     \<lparr> sg_id = 0,
       sg_description = ''Swap '' @ nameOr (sc_getCourseById sc (sch_courseId schedule)) ''Course''
           @ '' with '' @ nameOr (sc_getCourseById sc (sch_courseId otherSchedule)) ''another course''
           @ '' on '' @ sc_dayLabel sc (sch_dayOfWeek otherSchedule) @ '' at ''
           @ sc_slotLabel sc (sch_timeSlot otherSchedule),
       sg_action = Swap, sg_scheduleId = sch_id schedule,
       sg_newDayOfWeek = None, sg_newTimeSlot = None,
       sg_newTeacherId = None, sg_swapWithScheduleId = Some (sch_id otherSchedule) \<rparr>"

definition reassignOf :: "Scope \<Rightarrow> Schedule \<Rightarrow> Teacher \<Rightarrow> ConflictSuggestion" where
  "reassignOf sc schedule otherTeacher =
     \<lparr> sg_id = 0,
       sg_description = ''Reassign '' @ nameOr (sc_getCourseById sc (sch_courseId schedule)) ''Course''
           @ '' to '' @ tch_name otherTeacher,
       sg_action = Reassign, sg_scheduleId = sch_id schedule,
       sg_newDayOfWeek = None, sg_newTimeSlot = None,
       sg_newTeacherId = Some (tch_id otherTeacher), sg_swapWithScheduleId = None \<rparr>"

definition reassignBodies :: "Scope \<Rightarrow> Schedule \<Rightarrow> Teacher \<Rightarrow> ConflictSuggestion list" where
  "reassignBodies sc schedule t =
     (if busyAt (sc_allSchedules sc) (tch_id t) (cf_dayOfWeek (sc_conflict sc)) (cf_timeSlot (sc_conflict sc))
      then [] else [reassignOf sc schedule t])"

definition moveBodies :: "Scope \<Rightarrow> Schedule \<Rightarrow> ConflictSuggestion list" where
  "moveBodies sc schedule = map (\<lambda>(day, slot). moveOf sc schedule day slot) (filter (freeSlot sc) candidateSlots)"

definition swapBodies :: "Scope \<Rightarrow> Schedule \<Rightarrow> ConflictSuggestion list" where
  "swapBodies sc schedule =
     map (swapOf sc schedule)
       (filter (\<lambda>s. sch_teacherId s \<noteq> cf_teacherId (sc_conflict sc) \<and>
                     sch_id s \<notin> set (cf_conflictingScheduleIds (sc_conflict sc))) (sc_allSchedules sc))"

definition scheduleBodies :: "Scope \<Rightarrow> Schedule \<Rightarrow> ConflictSuggestion list" where
  "scheduleBodies sc schedule =
     moveBodies sc schedule @ swapBodies sc schedule
     @ concat (map (reassignBodies sc schedule)
         (filter (\<lambda>t. tch_id t \<noteq> cf_teacherId (sc_conflict sc)) (sc_getTeachers sc)))"

definition scopeOf :: "MemStorage \<Rightarrow> Conflict \<Rightarrow> Scope" where
  "scopeOf st conflict =
     \<lparr> sc_getCourseById = getCourseById st, sc_getTeachers = getTeachers st,
       sc_conflict = conflict, sc_allSchedules = getSchedules st,
       sc_teacher = getTeacherById st (cf_teacherId conflict),
       sc_occupiedSlots = set (map (\<lambda>s. dayTimeKey (sch_dayOfWeek s) (sch_timeSlot s)) (getSchedules st)),
       sc_dayLabel = labelAt dayNames, sc_slotLabel = labelAt slotLabels \<rparr>"

definition validSchedules :: "MemStorage \<Rightarrow> Conflict \<Rightarrow> Schedule list" where
  "validSchedules st conflict = defined (map (Map_get (schedules st)) (cf_conflictingScheduleIds conflict))"

definition resolving :: "MemStorage \<Rightarrow> Conflict \<Rightarrow> Schedule list" where
  "resolving st conflict =
     (if length (validSchedules st conflict) < 2 then [] else validSchedules st conflict)"

definition allBodies :: "MemStorage \<Rightarrow> Conflict \<Rightarrow> ConflictSuggestion list" where
  "allBodies st conflict =
     (if length (validSchedules st conflict) < 2 then []
      else concat (map (scheduleBodies (scopeOf st conflict)) (validSchedules st conflict)))"

text \<open>The scope and the selected rows of \<open>DatabaseStorage.generateConflictSuggestions\<close>.\<close>

definition db_scopeOf :: "Database \<Rightarrow> Conflict \<Rightarrow> Scope" where
  "db_scopeOf d conflict =
     \<lparr> sc_getCourseById = db_getCourseById d, sc_getTeachers = db_getTeachers d,
       sc_conflict = conflict, sc_allSchedules = db_getSchedules d,
       sc_teacher = db_getTeacherById d (cf_teacherId conflict),
       sc_occupiedSlots = set (map (\<lambda>s. dayTimeKey (sch_dayOfWeek s) (sch_timeSlot s)) (db_getSchedules d)),
       sc_dayLabel = labelAt DAYS_OF_WEEK, sc_slotLabel = labelAt TIME_SLOTS \<rparr>"

definition db_validSchedules :: "Database \<Rightarrow> Conflict \<Rightarrow> Schedule list" where
  "db_validSchedules d conflict =
     filter (\<lambda>s. sch_id s \<in> set (cf_conflictingScheduleIds conflict)) (db_schedules d)"

section \<open>Example stores\<close>

text \<open>
  Teacher 1 is booked twice on day 1, slot 2 (entries 10 and 11); teacher 3 is booked there
  once; teacher 2 is booked on day 3, slot 0.
\<close>

definition exampleSchedule :: "int \<Rightarrow> int \<Rightarrow> int \<Rightarrow> int \<Rightarrow> int \<Rightarrow> int \<times> Schedule" where
  "exampleSchedule i teacher day slot course =
     (i, \<lparr> sch_id = i, sch_programId = 1, sch_semester = 1, sch_dayOfWeek = day, sch_timeSlot = slot,
            sch_courseId = course, sch_teacherId = teacher, sch_roomNumber = None \<rparr>)"

definition exampleTeacher :: "int \<Rightarrow> string \<Rightarrow> TimePreference list option \<Rightarrow> int \<times> Teacher" where
  "exampleTeacher i name prefs =
     (i, \<lparr> tch_id = i, tch_name = name, tch_specialization = None, tch_skills = None,
            tch_timePreferences = prefs \<rparr>)"

definition exampleCourse :: "int \<Rightarrow> string \<Rightarrow> int \<times> Course" where
  "exampleCourse i name =
     (i, \<lparr> crs_id = i, crs_name = name, crs_code = name, crs_programId = 1, crs_semester = 1,
            crs_teacherId = None \<rparr>)"

definition exampleStore :: MemStorage where
  "exampleStore =
     \<lparr> courses = [exampleCourse 1 ''Algebra'', exampleCourse 2 ''Physics''],
       teachers = [exampleTeacher 1 ''Asha'' (Some [\<lparr> tp_dayOfWeek = 2, tp_startTimeSlot = 1, tp_endTimeSlot = 3 \<rparr>]),
                   exampleTeacher 2 ''Bikram'' None,
                   exampleTeacher 3 ''Chandra'' None],
       schedules = [exampleSchedule 10 1 1 2 1, exampleSchedule 11 1 1 2 2,
                    exampleSchedule 12 2 3 0 1, exampleSchedule 13 3 1 2 2],
       conflicts = [], conflictId = 1, uuidNext = 0, detectLog = [] \<rparr>"

definition exampleConflict :: Conflict where
  "exampleConflict = \<lparr> cf_id = 1, cf_teacherId = 1, cf_dayOfWeek = 1, cf_timeSlot = 2,
       cf_conflictingScheduleIds = [10, 11], cf_resolved = False, cf_suggestions = [] \<rparr>"

definition detectedExample :: MemStorage where
  "detectedExample = snd (detectConflicts exampleStore)"

definition settledExample :: MemStorage where
  "settledExample = pendingSuggestions (fst (detectConflicts exampleStore)) detectedExample"

definition staleExample :: MemStorage where
  "staleExample = detectedExample\<lparr> schedules := [exampleSchedule 10 1 1 2 1] \<rparr>"

definition exampleFreeSlots :: "(int \<times> int) list" where
  "exampleFreeSlots =
     [(0, 0), (0, 1), (0, 2), (0, 3), (0, 4),
      (1, 0), (1, 1), (1, 3), (1, 4),
      (2, 0), (2, 1), (2, 2), (2, 3), (2, 4),
      (3, 1), (3, 2), (3, 3), (3, 4),
      (4, 0), (4, 1), (4, 2), (4, 3), (4, 4),
      (5, 0), (5, 1), (5, 2), (5, 3), (5, 4)]"

definition exampleSwap :: ConflictSuggestion where
  "exampleSwap =
     \<lparr> sg_id = 28, sg_description = ''Swap Algebra with Algebra on Wednesday at 6:30-7:20 AM'',
       sg_action = Swap, sg_scheduleId = 10, sg_newDayOfWeek = None, sg_newTimeSlot = None,
       sg_newTeacherId = None, sg_swapWithScheduleId = Some 12 \<rparr>"

definition exampleReassign :: ConflictSuggestion where
  "exampleReassign =
     \<lparr> sg_id = 30, sg_description = ''Reassign Algebra to Bikram'',
       sg_action = Reassign, sg_scheduleId = 10, sg_newDayOfWeek = None, sg_newTimeSlot = None,
       sg_newTeacherId = Some 2, sg_swapWithScheduleId = None \<rparr>"

definition missingTeacherExample :: MemStorage where
  "missingTeacherExample = snd (deleteTeacher 2 settledExample)"

text \<open>
  A database with teacher 1 only, booked twice on day 1, slot 2 (rows 10 and 11).
  \<open>dbCreated\<close> is the database once the conflict row is inserted, \<open>dbDetected\<close>
  the database after a detection pass. Then: row 11 deleted (\<open>dbStale\<close>), a third
  booking of teacher 1 in the same slot added (\<open>dbGrown\<close>), the conflict marked resolved
  (\<open>dbResolved\<close>), a second teacher added (\<open>dbTwoTeachers\<close>).
\<close>

definition dbExample :: Database where
  "dbExample =
     \<lparr> db_courses = [snd (exampleCourse 1 ''Algebra''), snd (exampleCourse 2 ''Physics'')],
       db_teachers = [snd (exampleTeacher 1 ''Asha'' (Some [\<lparr> tp_dayOfWeek = 2, tp_startTimeSlot = 1, tp_endTimeSlot = 3 \<rparr>]))],
       db_schedules = [snd (exampleSchedule 10 1 1 2 1), snd (exampleSchedule 11 1 1 2 2)],
       db_conflicts = [], db_conflictSerial = 1, db_uuidNext = 0 \<rparr>"

definition dbCreated :: Database where
  "dbCreated = dbExample\<lparr> db_conflicts := [exampleConflict], db_conflictSerial := 2 \<rparr>"

definition dbDetected :: Database where
  "dbDetected = snd (db_detectConflicts dbExample)"

definition dbStale :: Database where
  "dbStale = dbDetected\<lparr> db_schedules := [snd (exampleSchedule 10 1 1 2 1)] \<rparr>"

definition dbGrown :: Database where
  "dbGrown = dbDetected\<lparr> db_schedules := db_schedules dbDetected @ [snd (exampleSchedule 12 1 1 2 1)] \<rparr>"

definition dbResolved :: Database where
  "dbResolved = db_updateConflict 1 \<lparr> cp_resolved = Some True, cp_suggestions = None \<rparr> dbDetected"

definition dbFreeSlots :: "(int \<times> int) list" where
  "dbFreeSlots =
     [(0, 0), (0, 1), (0, 2), (0, 3), (0, 4),
      (1, 0), (1, 1), (1, 3), (1, 4),
      (2, 0), (2, 1), (2, 2), (2, 3), (2, 4),
      (3, 0), (3, 1), (3, 2), (3, 3), (3, 4),
      (4, 0), (4, 1), (4, 2), (4, 3), (4, 4),
      (5, 0), (5, 1), (5, 2), (5, 3), (5, 4)]"

definition dbMoves :: "ConflictSuggestion list" where
  "dbMoves = projr (fst (db_generateConflictSuggestions dbCreated 1))"

definition dbTwoTeachers :: Database where
  "dbTwoTeachers = dbExample\<lparr> db_teachers := db_teachers dbExample @ [snd (exampleTeacher 2 ''Bikram'' None)] \<rparr>"

section \<open>Lemmas\<close>

lemma digitChar_cases:
  "d < 10 \<Longrightarrow> digitChar d \<in> set ''0123456789''"
  unfolding digitChar_def by (rule nth_mem) simp

lemma digitVal_digitChar: "d < 10 \<Longrightarrow> digitVal (digitChar d) = int d"
proof -
  assume "d < 10"
  then have "d = 0 \<or> d = 1 \<or> d = 2 \<or> d = 3 \<or> d = 4 \<or> d = 5 \<or> d = 6 \<or> d = 7 \<or> d = 8 \<or> d = 9"
    by arith
  then show ?thesis
    by (elim disjE) (simp_all add: digitVal_def digitChar_def)
qed

lemma digitChar_not_minus: "d < 10 \<Longrightarrow> digitChar d \<noteq> CHR ''-''"
  using digitChar_cases [of d] by auto

lemma digits_no_minus: "CHR ''-'' \<notin> set (digits n)"
proof (induction n rule: digits.induct)
  case (1 n)
  show ?case
  proof (cases "n < 10")
    case True
    then show ?thesis using digitChar_not_minus [of n] by (simp add: digits.simps [of n])
  next
    case False
    have "n mod 10 < 10" by simp
    then have "digitChar (n mod 10) \<noteq> CHR ''-''" by (rule digitChar_not_minus)
    with False 1 show ?thesis by (auto simp add: digits.simps [of n])
  qed
qed

lemma digits_nonempty: "digits n \<noteq> []"
  by (subst digits.simps) simp

lemma Number_snoc: "Number (xs @ [c]) = 10 * Number xs + digitVal c"
  by (simp add: Number_def)

lemma Number_digits: "Number (digits n) = int n"
proof (induction n rule: digits.induct)
  case (1 n)
  show ?case
  proof (cases "n < 10")
    case True
    then show ?thesis by (simp add: digits.simps [of n] Number_def digitVal_digitChar)
  next
    case False
    have "Number (digits n) = 10 * Number (digits (n div 10)) + digitVal (digitChar (n mod 10))"
      using False by (simp add: digits.simps [of n] Number_snoc)
    also have "\<dots> = 10 * int (n div 10) + int (n mod 10)"
      using False 1 by (simp add: digitVal_digitChar)
    also have "\<dots> = int n" by presburger
    finally show ?thesis .
  qed
qed

lemma digits_inj: "digits a = digits b \<Longrightarrow> a = b"
  by (metis Number_digits of_nat_eq_iff)

lemma hd_digits: "hd (digits n) \<noteq> CHR ''-''"
  using digits_no_minus [of n] digits_nonempty [of n] by (metis list.set_sel(1))

lemma toString_inj: "toString a = toString b \<Longrightarrow> a = b"
proof -
  assume eq: "toString a = toString b"
  show ?thesis
  proof (cases "a < 0")
    case True
    show ?thesis
    proof (cases "b < 0")
      case True
      with \<open>a < 0\<close> eq have "digits (nat (- a)) = digits (nat (- b))" by (simp add: toString_def)
      then have "nat (- a) = nat (- b)" by (rule digits_inj)
      with True \<open>a < 0\<close> show ?thesis by linarith
    next
      case False
      with \<open>a < 0\<close> eq have "CHR ''-'' # digits (nat (- a)) = digits (nat b)" by (simp add: toString_def)
      then have "hd (digits (nat b)) = CHR ''-''" by (metis list.sel(1))
      with hd_digits show ?thesis by blast
    qed
  next
    case False
    show ?thesis
    proof (cases "b < 0")
      case True
      with \<open>\<not> a < 0\<close> eq have "digits (nat a) = CHR ''-'' # digits (nat (- b))" by (simp add: toString_def)
      then have "hd (digits (nat a)) = CHR ''-''" by (metis list.sel(1))
      with hd_digits show ?thesis by blast
    next
      case False
      with \<open>\<not> a < 0\<close> eq have "digits (nat a) = digits (nat b)" by (simp add: toString_def)
      then have "nat a = nat b" by (rule digits_inj)
      with False \<open>\<not> a < 0\<close> show ?thesis by linarith
    qed
  qed
qed

lemma sep_unique:
  assumes "c \<notin> set a" "c \<notin> set a'" "a @ c # b = a' @ c # b'"
  shows "a = a' \<and> b = b'"
proof -
  have tw: "\<And>u v. c \<notin> set u \<Longrightarrow> takeWhile (\<lambda>x. x \<noteq> c) (u @ c # v) = u"
  proof -
    fix u v show "c \<notin> set u \<Longrightarrow> takeWhile (\<lambda>x. x \<noteq> c) (u @ c # v) = u"
      by (induction u) auto
  qed
  have "takeWhile (\<lambda>x. x \<noteq> c) (a @ c # b) = a" using assms(1) by (rule tw)
  moreover have "takeWhile (\<lambda>x. x \<noteq> c) (a' @ c # b') = a'" using assms(2) by (rule tw)
  ultimately have "a = a'" using assms(3) by simp
  with assms(3) show ?thesis by simp
qed

lemma dayTimeKey_inj:
  assumes "dayTimeKey d s = dayTimeKey d' s'"
  shows "d = d' \<and> s = s'"
proof -
  let ?m = "CHR ''-''"
  have key: "\<And>x y. dayTimeKey x y = toString x @ ?m # toString y" by (simp add: dayTimeKey_def)
  have eq: "toString d @ ?m # toString s = toString d' @ ?m # toString s'"
    using assms by (simp add: key)
  have hdk: "\<And>x y. hd (dayTimeKey x y) = ?m \<longleftrightarrow> x < 0"
    by (simp add: key toString_def hd_append digits_nonempty hd_digits)
  have sign: "d < 0 \<longleftrightarrow> d' < 0" using hdk [of d s] hdk [of d' s'] assms by simp
  show ?thesis
  proof (cases "d < 0")
    case True
    with sign have d': "d' < 0" by simp
    from eq True d' have "digits (nat (- d)) @ ?m # toString s = digits (nat (- d')) @ ?m # toString s'"
      by (simp add: toString_def)
    then have "digits (nat (- d)) = digits (nat (- d')) \<and> toString s = toString s'"
      by (rule sep_unique [OF digits_no_minus digits_no_minus])
    then have "nat (- d) = nat (- d')" "s = s'" using digits_inj toString_inj by blast+
    with True d' show ?thesis by linarith
  next
    case False
    with sign have d': "\<not> d' < 0" by simp
    from eq False d' have "digits (nat d) @ ?m # toString s = digits (nat d') @ ?m # toString s'"
      by (simp add: toString_def)
    then have "digits (nat d) = digits (nat d') \<and> toString s = toString s'"
      by (rule sep_unique [OF digits_no_minus digits_no_minus])
    then have "nat d = nat d'" "s = s'" using digits_inj toString_inj by blast+
    with False d' show ?thesis by linarith
  qed
qed

lemma split_no_sep: "c \<notin> set b \<Longrightarrow> split c b = [b]"
  by (induction b) auto

lemma split_sep: "c \<notin> set a \<Longrightarrow> split c (a @ c # b) = a # split c b"
  by (induction a) auto

lemma splitKey_dayTimeKey:
  assumes "0 \<le> d" "0 \<le> s"
  shows "splitKey (dayTimeKey d s) = (d, s)"
proof -
  have "dayTimeKey d s = digits (nat d) @ CHR ''-'' # digits (nat s)"
    using assms by (simp add: dayTimeKey_def toString_def)
  then have "split CHR ''-'' (dayTimeKey d s) = [digits (nat d), digits (nat s)]"
    by (simp add: split_sep split_no_sep digits_no_minus)
  then show ?thesis using assms by (simp add: splitKey_def Number_digits)
qed

lemma map_of_Map_set: "map_of (Map_set k v m) = (map_of m)(k \<mapsto> v)"
  by (induction m) (auto simp add: fun_eq_iff)

lemma keys_Map_set:
  "map fst (Map_set k v m) = (if k \<in> fst ` set m then map fst m else map fst m @ [k])"
proof (induction m)
  case Nil
  then show ?case by simp
next
  case (Cons p m)
  show ?case
  proof (cases "fst p = k")
    case True
    then show ?thesis by (cases p) simp
  next
    case False
    with Cons show ?thesis by (cases p) auto
  qed
qed

lemma distinct_Map_set: "distinct (map fst m) \<Longrightarrow> distinct (map fst (Map_set k v m))"
  by (simp add: keys_Map_set)

lemma Map_set_fresh: "k \<notin> fst ` set m \<Longrightarrow> Map_set k v m = m @ [(k, v)]"
  by (induction m) auto

lemma in_Map_set:
  assumes "distinct (map fst m)"
  shows "(a, b) \<in> set (Map_set k v m) \<longleftrightarrow> (if a = k then b = v else (a, b) \<in> set m)"
proof -
  have "(a, b) \<in> set (Map_set k v m) \<longleftrightarrow> map_of (Map_set k v m) a = Some b"
    using distinct_Map_set [OF assms] by simp
  also have "\<dots> \<longleftrightarrow> (if a = k then b = v else map_of m a = Some b)"
    by (auto simp add: map_of_Map_set)
  also have "\<dots> \<longleftrightarrow> (if a = k then b = v else (a, b) \<in> set m)"
    using assms by simp
  finally show ?thesis .
qed

lemma map_of_pushId:
  "map_of (pushId key i m) = (map_of m)(key \<mapsto> (case map_of m key of None \<Rightarrow> [] | Some ids \<Rightarrow> ids) @ [i])"
  by (simp add: pushId_def Map_get_def map_of_Map_set split: option.splits)

lemma distinct_pushId: "distinct (map fst m) \<Longrightarrow> distinct (map fst (pushId key i m))"
  by (simp add: pushId_def distinct_Map_set split: option.splits)

lemma lookup2_groupSchedule:
  "lookup2 (groupSchedule G s) t k =
     (if t = sch_teacherId s \<and> k = dayTimeKey (sch_dayOfWeek s) (sch_timeSlot s)
      then Some ((case lookup2 G t k of None \<Rightarrow> [] | Some ids \<Rightarrow> ids) @ [sch_id s])
      else lookup2 G t k)"
  by (auto simp add: lookup2_def groupSchedule_def Let_def Map_get_def map_of_Map_set map_of_pushId
      split: option.splits)

lemma nested_distinct_groupSchedule:
  assumes "nested_distinct G"
  shows "nested_distinct (groupSchedule G s)"
proof -
  let ?t = "sch_teacherId s"
  let ?m = "case Map_get G ?t of None \<Rightarrow> [] | Some m \<Rightarrow> m"
  have dm: "distinct (map fst ?m)"
  proof (cases "map_of G ?t")
    case None
    then show ?thesis by (simp add: Map_get_def)
  next
    case (Some m)
    then have "(?t, m) \<in> set G" by (rule map_of_SomeD)
    with assms Some show ?thesis by (auto simp add: nested_distinct_def Map_get_def)
  qed
  have "groupSchedule G s = Map_set ?t (pushId (dayTimeKey (sch_dayOfWeek s) (sch_timeSlot s)) (sch_id s) ?m) G"
    by (simp add: groupSchedule_def Let_def)
  moreover have "distinct (map fst G)" using assms by (simp add: nested_distinct_def)
  ultimately show ?thesis
    using assms dm
    by (auto simp add: nested_distinct_def distinct_Map_set in_Map_set distinct_pushId split: if_splits)
qed

lemma nested_distinct_foldl:
  "nested_distinct G \<Longrightarrow> nested_distinct (foldl groupSchedule G scheds)"
  by (induction scheds arbitrary: G) (simp_all add: nested_distinct_groupSchedule)

lemma lookup2_foldl:
  "lookup2 (foldl groupSchedule [] scheds) t k =
     (if idsAt scheds t k = [] then None else Some (idsAt scheds t k))"
proof (induction scheds rule: rev_induct)
  case Nil
  then show ?case by (simp add: lookup2_def idsAt_def)
next
  case (snoc s scheds)
  then show ?case
    by (auto simp add: lookup2_groupSchedule idsAt_def)
qed

lemma flat_Cons: "flat ((t, m) # G) = map (\<lambda>(k, ids). (t, k, ids)) m @ flat G"
  by (simp add: flat_def)

lemma flat_Nil: "flat [] = []"
  by (simp add: flat_def)

lemma fst_flat: "(t, k, ids) \<in> set (flat G) \<Longrightarrow> t \<in> fst ` set G"
  by (induction G) (auto simp add: flat_Cons flat_Nil)

lemma distinct_flat:
  "nested_distinct G \<Longrightarrow> distinct (map (\<lambda>(t, k, ids). (t, k)) (flat G))"
proof (induction G)
  case Nil
  then show ?case by (simp add: flat_Nil)
next
  case (Cons p G)
  obtain t m where p: "p = (t, m)" by (cases p)
  from Cons.prems have nd: "nested_distinct G" and dm: "distinct (map fst m)" and t: "t \<notin> fst ` set G"
    by (auto simp add: nested_distinct_def p)
  have 1: "distinct (map (\<lambda>(t, k, ids). (t, k)) (map (\<lambda>(k, ids). (t, k, ids)) m))"
  proof -
    have "map (\<lambda>(t, k, ids). (t, k)) (map (\<lambda>(k, ids). (t, k, ids)) m) = map (Pair t) (map fst m)"
      by (induction m) auto
    with dm show ?thesis by (simp add: distinct_map inj_on_def)
  qed
  have 2: "set (map (\<lambda>(t, k, ids). (t, k)) (map (\<lambda>(k, ids). (t, k, ids)) m))
           \<inter> set (map (\<lambda>(t, k, ids). (t, k)) (flat G)) = {}"
    using t fst_flat by fastforce
  show ?case
    using Cons.IH [OF nd] 1 2 by (simp add: p flat_Cons)
qed

lemma in_flat:
  "nested_distinct G \<Longrightarrow> (t, k, ids) \<in> set (flat G) \<longleftrightarrow> lookup2 G t k = Some ids"
proof (induction G)
  case Nil
  then show ?case by (simp add: flat_Nil lookup2_def)
next
  case (Cons p G)
  obtain t' m where p: "p = (t', m)" by (cases p)
  from Cons.prems have nd: "nested_distinct G" and dm: "distinct (map fst m)" and t': "t' \<notin> fst ` set G"
    by (auto simp add: nested_distinct_def p)
  show ?case
  proof (cases "t = t'")
    case True
    then have "(t, k, ids) \<notin> set (flat G)" using t' fst_flat by blast
    moreover have "(k, ids) \<in> set m \<longleftrightarrow> map_of m k = Some ids" using dm by simp
    ultimately show ?thesis using True by (auto simp add: p flat_Cons lookup2_def)
  next
    case False
    then show ?thesis using Cons.IH [OF nd] by (auto simp add: p flat_Cons lookup2_def)
  qed
qed

lemma numbered_append: "numbered n (xs @ ys) = numbered n xs @ numbered (n + int (length xs)) ys"
  by (induction xs arbitrary: n) (simp_all add: add.assoc)

lemma numbered_ids: "c \<in> set (numbered n B) \<Longrightarrow> n \<le> cf_id c \<and> cf_id c < n + int (length B)"
  by (induction B arbitrary: n) (fastforce simp add: mkConflict_def split: prod.splits)+

lemma emit_Nil: "emit st [] = st"
  by (simp add: emit_def)

lemma emit_emit: "emit (emit st xs) ys = emit st (xs @ ys)"
  by (simp add: emit_def numbered_append add.assoc)

lemma keys_below_emit: "keys_below st \<Longrightarrow> keys_below (emit st B)"
  by (fastforce simp add: keys_below_def emit_def dest: numbered_ids)

lemma createConflict_fresh:
  assumes "keys_below st"
  shows "createConflict \<lparr> ic_teacherId = t, ic_dayOfWeek = fst (splitKey k), ic_timeSlot = snd (splitKey k),
            ic_conflictingScheduleIds = ids, ic_resolved = False, ic_suggestions = [] \<rparr> st
         = (mkConflict (conflictId st) (t, k, ids), emit st [(t, k, ids)])"
proof -
  have "conflictId st \<notin> fst ` set (conflicts st)" using assms by (auto simp add: keys_below_def)
  then show ?thesis
    by (simp add: createConflict_def Let_def mkConflict_def emit_def Map_set_fresh)
qed

lemma detectSlot_step:
  assumes "keys_below st"
  shows "detectSlot t (found, st) (k, ids) =
           (found @ numbered (conflictId st) (filter big [(t, k, ids)]), emit st (filter big [(t, k, ids)]))"
  using createConflict_fresh [OF assms, of t k ids]
  by (simp add: detectSlot_def big_def emit_Nil split_beta)

lemma emit_step:
  "(found @ numbered (conflictId st) xs) @ numbered (conflictId (emit st xs)) ys
     = found @ numbered (conflictId st) (xs @ ys)"
  by (simp add: numbered_append emit_def)

lemma foldl_detectSlot:
  "keys_below st \<Longrightarrow>
   foldl (detectSlot t) (found, st) m =
     (found @ numbered (conflictId st) (filter big (map (\<lambda>(k, ids). (t, k, ids)) m)),
      emit st (filter big (map (\<lambda>(k, ids). (t, k, ids)) m)))"
proof (induction m arbitrary: found st)
  case Nil
  then show ?case by (simp add: emit_Nil)
next
  case (Cons e m)
  obtain k ids where e: "e = (k, ids)" by (cases e)
  let ?B1 = "filter big [(t, k, ids)]"
  let ?B2 = "filter big (map (\<lambda>(k, ids). (t, k, ids)) m)"
  have kb: "keys_below (emit st ?B1)" using Cons.prems by (rule keys_below_emit)
  have split: "filter big (map (\<lambda>(k, ids). (t, k, ids)) (e # m)) = ?B1 @ ?B2" by (simp add: e)
  have "foldl (detectSlot t) (found, st) (e # m)
          = foldl (detectSlot t) (found @ numbered (conflictId st) ?B1, emit st ?B1) m"
    by (simp only: foldl_Cons e detectSlot_step [OF Cons.prems])
  also have "\<dots> = ((found @ numbered (conflictId st) ?B1) @ numbered (conflictId (emit st ?B1)) ?B2,
                      emit (emit st ?B1) ?B2)"
    by (rule Cons.IH [OF kb])
  also have "\<dots> = (found @ numbered (conflictId st) (?B1 @ ?B2), emit st (?B1 @ ?B2))"
    by (simp only: emit_step emit_emit)
  finally show ?case by (simp only: split)
qed

lemma foldl_detectTeacher:
  "keys_below st \<Longrightarrow>
   foldl detectTeacher (found, st) G =
     (found @ numbered (conflictId st) (filter big (flat G)), emit st (filter big (flat G)))"
proof (induction G arbitrary: found st)
  case Nil
  then show ?case by (simp add: flat_Nil emit_Nil)
next
  case (Cons p G)
  obtain t m where p: "p = (t, m)" by (cases p)
  let ?B1 = "filter big (map (\<lambda>(k, ids). (t, k, ids)) m)"
  let ?B2 = "filter big (flat G)"
  have kb: "keys_below (emit st ?B1)" using Cons.prems by (rule keys_below_emit)
  have split: "filter big (flat (p # G)) = ?B1 @ ?B2" by (simp add: p flat_Cons)
  have "detectTeacher (found, st) p = foldl (detectSlot t) (found, st) m"
    by (simp add: detectTeacher_def p)
  then have "foldl detectTeacher (found, st) (p # G)
          = foldl detectTeacher (found @ numbered (conflictId st) ?B1, emit st ?B1) G"
    by (simp only: foldl_Cons foldl_detectSlot [OF Cons.prems])
  also have "\<dots> = ((found @ numbered (conflictId st) ?B1) @ numbered (conflictId (emit st ?B1)) ?B2,
                      emit (emit st ?B1) ?B2)"
    by (rule Cons.IH [OF kb])
  also have "\<dots> = (found @ numbered (conflictId st) (?B1 @ ?B2), emit st (?B1 @ ?B2))"
    by (simp only: emit_step emit_emit)
  finally show ?case by (simp only: split)
qed

lemma detectConflicts_eq:
  "detectConflicts st =
     (numbered 1 (slotGroups st),
      emit (st\<lparr> conflicts := [], conflictId := 1, detectLog := detectLog st @ [getSchedules st] \<rparr>)
        (slotGroups st))"
proof -
  have kb: "keys_below (st\<lparr> conflicts := [], conflictId := 1, detectLog := detectLog st @ [getSchedules st] \<rparr>)"
    by (simp add: keys_below_def)
  show ?thesis
    using foldl_detectTeacher [OF kb, of "[]"]
    by (simp add: detectConflicts_def Let_def slotGroups_def getSchedules_def)
qed

lemma getConflicts_detectConflicts:
  "getConflicts (snd (detectConflicts st)) = fst (detectConflicts st)"
  by (simp add: detectConflicts_eq getConflicts_def Map_values_def emit_def comp_def)

lemma idsAt_dayTimeKey: "idsAt scheds t (dayTimeKey d s) = map sch_id (groupOf scheds (t, d, s))"
proof -
  have "filter (\<lambda>x. sch_teacherId x = t \<and> dayTimeKey (sch_dayOfWeek x) (sch_timeSlot x) = dayTimeKey d s) scheds
        = filter (\<lambda>x. slotKey x = (t, d, s)) scheds"
    by (rule filter_cong) (auto simp add: slotKey_def dest: dayTimeKey_inj)
  then show ?thesis by (simp add: idsAt_def groupOf_def)
qed

lemma idsAt_nonempty:
  "idsAt scheds t k \<noteq> [] \<longleftrightarrow> (\<exists>x \<in> set scheds. sch_teacherId x = t \<and> dayTimeKey (sch_dayOfWeek x) (sch_timeSlot x) = k)"
  by (auto simp add: idsAt_def filter_empty_conv)

lemma set_flat_groups:
  "set (flat (foldl groupSchedule [] scheds)) = set (map keyed (specGroups scheds))"
proof -
  let ?G = "foldl groupSchedule [] scheds"
  have nd: "nested_distinct ?G" by (rule nested_distinct_foldl) (simp add: nested_distinct_def)
  have "(t, k, ids) \<in> set (flat ?G) \<longleftrightarrow> (t, k, ids) \<in> set (map keyed (specGroups scheds))" for t k ids
  proof
    assume "(t, k, ids) \<in> set (flat ?G)"
    then have "lookup2 ?G t k = Some ids" using in_flat [OF nd] by simp
    then have ne: "idsAt scheds t k \<noteq> []" and ids: "ids = idsAt scheds t k"
      by (auto simp add: lookup2_foldl split: if_splits)
    from ne obtain x where x: "x \<in> set scheds" "sch_teacherId x = t"
      "dayTimeKey (sch_dayOfWeek x) (sch_timeSlot x) = k"
      using idsAt_nonempty by blast
    let ?key = "(t, sch_dayOfWeek x, sch_timeSlot x)"
    have "?key \<in> set (remdups (map slotKey scheds))" using x by (force simp add: slotKey_def)
    then have "(?key, map sch_id (groupOf scheds ?key)) \<in> set (specGroups scheds)"
      by (simp add: specGroups_def)
    then have "keyed (?key, map sch_id (groupOf scheds ?key)) \<in> set (map keyed (specGroups scheds))"
      by simp
    moreover have "keyed (?key, map sch_id (groupOf scheds ?key)) = (t, k, ids)"
      using x ids idsAt_dayTimeKey [of scheds t "sch_dayOfWeek x" "sch_timeSlot x"] by (simp add: keyed_def)
    ultimately show "(t, k, ids) \<in> set (map keyed (specGroups scheds))" by simp
  next
    assume "(t, k, ids) \<in> set (map keyed (specGroups scheds))"
    then obtain key where key: "key \<in> set (map slotKey scheds)"
      and eq: "(t, k, ids) = keyed (key, map sch_id (groupOf scheds key))"
      by (auto simp add: specGroups_def)
    obtain t' d s where k3: "key = (t', d, s)" by (cases key)
    from eq have t: "t' = t" and k: "k = dayTimeKey d s" and ids: "ids = map sch_id (groupOf scheds (t, d, s))"
      by (simp_all add: keyed_def k3)
    from key obtain x where "x \<in> set scheds" "slotKey x = (t, d, s)" using k3 t by auto
    then have "idsAt scheds t k \<noteq> []" using idsAt_nonempty k by (auto simp add: slotKey_def)
    moreover have "idsAt scheds t k = ids" using ids k idsAt_dayTimeKey by simp
    ultimately have "lookup2 ?G t k = Some ids" by (simp add: lookup2_foldl)
    then show "(t, k, ids) \<in> set (flat ?G)" using in_flat [OF nd] by simp
  qed
  then show ?thesis by (auto simp del: set_map)
qed

lemma distinct_keyed_groups: "distinct (map keyed (specGroups scheds))"
proof -
  have "inj_on (\<lambda>k. keyed (k, map sch_id (groupOf scheds k))) (set (remdups (map slotKey scheds)))"
    by (rule inj_onI) (auto simp add: keyed_def dest: dayTimeKey_inj)
  then show ?thesis by (simp add: specGroups_def distinct_map comp_def)
qed

lemma mset_flat_groups:
  "mset (flat (foldl groupSchedule [] scheds)) = mset (map keyed (specGroups scheds))"
proof -
  let ?G = "foldl groupSchedule [] scheds"
  have nd: "nested_distinct ?G" by (rule nested_distinct_foldl) (simp add: nested_distinct_def)
  have "distinct (flat ?G)" using distinct_flat [OF nd] by (simp add: distinct_map)
  then show ?thesis
    using distinct_keyed_groups set_flat_groups set_eq_iff_mset_eq_distinct by blast
qed

lemma big_keyed: "big (keyed (k, ids)) \<longleftrightarrow> length ids > 1"
  by (cases k) (simp add: big_def keyed_def)

lemma filter_big_groups:
  "filter big (map keyed (specGroups scheds))
     = map (\<lambda>k. keyed (k, map sch_id (groupOf scheds k))) (doubleBooked scheds)"
  by (simp add: specGroups_def doubleBooked_def filter_map comp_def big_keyed)

lemma mset_slotGroups:
  "mset (slotGroups st) = mset (map (\<lambda>k. keyed (k, map sch_id (groupOf (getSchedules st) k))) (doubleBooked (getSchedules st)))"
proof -
  have "mset (slotGroups st) = filter_mset big (mset (flat (foldl groupSchedule [] (getSchedules st))))"
    by (simp add: slotGroups_def)
  also have "\<dots> = mset (filter big (map keyed (specGroups (getSchedules st))))"
    by (simp add: mset_flat_groups)
  finally show ?thesis by (simp add: filter_big_groups)
qed

lemma content_numbered:
  "map conflictContent (numbered n B) = map (\<lambda>(t, k, ids). (t, ids, False, [])) B"
  by (induction B arbitrary: n) (auto simp add: conflictContent_def mkConflict_def)

lemma detectConflicts_groups:
  "mset (map conflictContent (fst (detectConflicts st)))
     = mset (map (\<lambda>(t, d, s). (t, map sch_id (groupOf (getSchedules st) (t, d, s)), False, []))
              (doubleBooked (getSchedules st)))"
proof -
  let ?f = "\<lambda>(t, k, ids). (t, ids, False, []) :: int \<times> int list \<times> bool \<times> ConflictSuggestion list"
  let ?g = "\<lambda>k. keyed (k, map sch_id (groupOf (getSchedules st) k))"
  have a: "map conflictContent (fst (detectConflicts st)) = map ?f (slotGroups st)"
    by (simp add: detectConflicts_eq content_numbered)
  have b: "mset (map ?f (slotGroups st)) = mset (map ?f (map ?g (doubleBooked (getSchedules st))))"
    using mset_slotGroups [of st] by (metis mset_map)
  have c: "map ?f (map ?g (doubleBooked (getSchedules st)))
      = map (\<lambda>(t, d, s). (t, map sch_id (groupOf (getSchedules st) (t, d, s)), False, []))
              (doubleBooked (getSchedules st))"
    by (simp add: keyed_def split_beta)
  show ?thesis by (simp only: a b c)
qed

lemma slot_numbered:
  "map conflictSlot (numbered n B) = map (\<lambda>(t, k, ids). ((t, fst (splitKey k), snd (splitKey k)), ids)) B"
  by (induction B arbitrary: n) (auto simp add: conflictSlot_def mkConflict_def)

lemma doubleBooked_subset: "k \<in> set (doubleBooked scheds) \<Longrightarrow> k \<in> slotKey ` set scheds"
  by (simp add: doubleBooked_def)

lemma detectConflicts_slots:
  assumes "\<forall>x \<in> set (getSchedules st). 0 \<le> sch_dayOfWeek x \<and> 0 \<le> sch_timeSlot x"
  shows "mset (map conflictSlot (fst (detectConflicts st)))
           = mset (map (\<lambda>k. (k, map sch_id (groupOf (getSchedules st) k))) (doubleBooked (getSchedules st)))"
proof -
  let ?f = "\<lambda>(t, k, ids). ((t, fst (splitKey k), snd (splitKey k)), ids) :: (int \<times> int \<times> int) \<times> int list"
  let ?g = "\<lambda>k. keyed (k, map sch_id (groupOf (getSchedules st) k))"
  have a: "map conflictSlot (fst (detectConflicts st)) = map ?f (slotGroups st)"
    by (simp add: detectConflicts_eq slot_numbered)
  have b: "mset (map ?f (slotGroups st)) = mset (map ?f (map ?g (doubleBooked (getSchedules st))))"
    using mset_slotGroups [of st] by (metis mset_map)
  have "?f (?g k) = (k, map sch_id (groupOf (getSchedules st) k))" if "k \<in> set (doubleBooked (getSchedules st))" for k
  proof -
    obtain t d s where k: "k = (t, d, s)" by (cases k)
    from that obtain x where "x \<in> set (getSchedules st)" "slotKey x = k"
      using doubleBooked_subset by blast
    with assms k have "0 \<le> d" "0 \<le> s" by (auto simp add: slotKey_def)
    then show ?thesis by (simp add: k keyed_def splitKey_dayTimeKey)
  qed
  then have c: "map ?f (map ?g (doubleBooked (getSchedules st)))
      = map (\<lambda>k. (k, map sch_id (groupOf (getSchedules st) k))) (doubleBooked (getSchedules st))"
    by simp
  show ?thesis by (simp only: a b c)
qed

lemma exampleStore_schedules:
  "getSchedules exampleStore = map snd [exampleSchedule 10 1 1 2 1, exampleSchedule 11 1 1 2 2,
                    exampleSchedule 12 2 3 0 1, exampleSchedule 13 3 1 2 2]"
  by (simp add: getSchedules_def Map_values_def exampleStore_def)

lemma stampAll_append: "stampAll u (xs @ ys) = stampAll u xs @ stampAll (u + length xs) ys"
  by (induction xs arbitrary: u) simp_all

lemma length_stampAll: "length (stampAll u xs) = length xs"
  by (induction xs arbitrary: u) simp_all

lemma pushAll_Nil: "pushAll acc [] = acc"
  by (simp add: pushAll_def)

lemma pushAll_pushAll: "pushAll (pushAll acc xs) ys = pushAll acc (xs @ ys)"
  by (simp add: pushAll_def stampAll_append)

lemma push_stamped: "push acc (\<lambda>u. b\<lparr> sg_id := u \<rparr>) = pushAll acc [b]"
  by (cases acc) (simp add: push_def pushAll_def stamped_def)

lemma foldl_pushAll:
  assumes "\<And>acc x. f acc x = pushAll acc (g x)"
  shows "foldl f acc xs = pushAll acc (concat (map g xs))"
  by (induction xs arbitrary: acc) (simp_all add: assms pushAll_Nil pushAll_pushAll)

lemma slotBody_pushAll: "slotBody sc schedule day slot acc = pushAll acc (slotBodies sc schedule day slot)"
proof (cases "freeSlot sc (day, slot)")
  case True
  then have "slotBody sc schedule day slot acc = push acc (\<lambda>u. (moveOf sc schedule day slot)\<lparr> sg_id := u \<rparr>)"
    by (auto simp add: slotBody_def freeSlot_def moveOf_def Let_def)
  with True show ?thesis by (simp add: slotBodies_def push_stamped)
next
  case False
  then show ?thesis by (auto simp add: slotBody_def freeSlot_def slotBodies_def pushAll_Nil Let_def)
qed

lemma slotLoop_pushAll:
  "slotLoop sc schedule day slot acc = pushAll acc (concat (map (slotBodies sc schedule day) [slot..4]))"
proof (induction sc schedule day slot acc rule: slotLoop.induct)
  case (1 sc schedule day slot acc)
  show ?case
  proof (cases "slot < 5")
    case True
    then have up: "[slot..4] = slot # [slot + 1..4]" by (simp add: upto_rec1)
    have "slotLoop sc schedule day slot acc
            = slotLoop sc schedule day (slot + 1) (slotBody sc schedule day slot acc)"
      using True by (simp add: slotLoop.simps [of sc schedule day slot])
    also have "\<dots> = pushAll (slotBody sc schedule day slot acc)
                       (concat (map (slotBodies sc schedule day) [slot + 1..4]))"
      using True by (rule "1.IH")
    finally show ?thesis by (simp add: slotBody_pushAll pushAll_pushAll up)
  next
    case False
    then show ?thesis by (simp add: slotLoop.simps [of sc schedule day slot] pushAll_Nil)
  qed
qed

lemma dayLoop_pushAll:
  "dayLoop sc schedule day acc
     = pushAll acc (concat (map (\<lambda>d. concat (map (slotBodies sc schedule d) [0..4])) [day..5]))"
proof (induction sc schedule day acc rule: dayLoop.induct)
  case (1 sc schedule day acc)
  show ?case
  proof (cases "day < 6")
    case True
    then have up: "[day..5] = day # [day + 1..5]" by (simp add: upto_rec1)
    have "dayLoop sc schedule day acc = dayLoop sc schedule (day + 1) (slotLoop sc schedule day 0 acc)"
      using True by (simp add: dayLoop.simps [of sc schedule day])
    also have "\<dots> = pushAll (slotLoop sc schedule day 0 acc)
                       (concat (map (\<lambda>d. concat (map (slotBodies sc schedule d) [0..4])) [day + 1..5]))"
      using True by (rule "1.IH")
    finally show ?thesis by (simp add: slotLoop_pushAll pushAll_pushAll up)
  next
    case False
    then show ?thesis by (simp add: dayLoop.simps [of sc schedule day] pushAll_Nil)
  qed
qed

lemma concat_filter_singleton:
  "concat (map (\<lambda>x. if P x then [f x] else []) xs) = map f (filter P xs)"
  by (induction xs) simp_all

lemma concat_map_concat: "concat (map f (concat xss)) = concat (map (\<lambda>xs. concat (map f xs)) xss)"
  by (induction xss) simp_all

lemma moves_enumerated:
  "concat (map (\<lambda>d. concat (map (slotBodies sc schedule d) [0..4])) [0..5]) = moveBodies sc schedule"
proof -
  let ?f = "\<lambda>p. if freeSlot sc p then [moveOf sc schedule (fst p) (snd p)] else []"
  have "concat (map ?f candidateSlots)
          = concat (map (\<lambda>d. concat (map ?f (map (Pair d) [0..4]))) [0..5])"
    unfolding candidateSlots_def by (simp only: concat_map_concat map_map comp_def)
  also have "\<dots> = concat (map (\<lambda>d. concat (map (slotBodies sc schedule d) [0..4])) [0..5])"
    by (simp add: slotBodies_def [abs_def] comp_def cong: if_cong)
  finally have "concat (map ?f candidateSlots)
      = concat (map (\<lambda>d. concat (map (slotBodies sc schedule d) [0..4])) [0..5])" .
  moreover have "concat (map ?f candidateSlots) = moveBodies sc schedule"
    by (simp add: moveBodies_def concat_filter_singleton split_beta)
  ultimately show ?thesis by simp
qed

lemma swapBody_pushAll: "swapBody sc schedule acc other = pushAll acc [swapOf sc schedule other]"
proof -
  have "swapBody sc schedule acc other = push acc (\<lambda>u. (swapOf sc schedule other)\<lparr> sg_id := u \<rparr>)"
    by (simp add: swapBody_def swapOf_def Let_def)
  then show ?thesis by (simp add: push_stamped)
qed

lemma reassignBody_pushAll: "reassignBody sc schedule acc t = pushAll acc (reassignBodies sc schedule t)"
proof (cases "busyAt (sc_allSchedules sc) (tch_id t) (cf_dayOfWeek (sc_conflict sc)) (cf_timeSlot (sc_conflict sc))")
  case True
  then show ?thesis
    by (simp add: reassignBody_def reassignBodies_def busyAt_def list_ex_iff pushAll_Nil)
next
  case False
  then have "reassignBody sc schedule acc t = push acc (\<lambda>u. (reassignOf sc schedule t)\<lparr> sg_id := u \<rparr>)"
    by (simp add: reassignBody_def reassignOf_def busyAt_def list_ex_iff Let_def)
  with False show ?thesis by (simp add: reassignBodies_def push_stamped)
qed

lemma scheduleBody_pushAll: "scheduleBody sc acc schedule = pushAll acc (scheduleBodies sc schedule)"
proof -
  have sw: "foldl (swapBody sc schedule) a xs = pushAll a (map (swapOf sc schedule) xs)" for a xs
    using foldl_pushAll [of "swapBody sc schedule" "\<lambda>x. [swapOf sc schedule x]" a xs]
    by (simp add: swapBody_pushAll)
  have re: "foldl (reassignBody sc schedule) a ts = pushAll a (concat (map (reassignBodies sc schedule) ts))" for a ts
    by (rule foldl_pushAll) (rule reassignBody_pushAll)
  show ?thesis
    by (simp add: scheduleBody_def Let_def sw re dayLoop_pushAll moves_enumerated pushAll_pushAll
        scheduleBodies_def swapBodies_def)
qed

lemma generate_unfold:
  "generateConflictSuggestions st i =
     (case getConflictById st i of
        None \<Rightarrow> ([], st)
      | Some conflict \<Rightarrow>
          if length (validSchedules st conflict) < 2 then ([], st)
          else (let r = foldl (scheduleBody (scopeOf st conflict)) ([], uuidNext st) (validSchedules st conflict)
                in (fst r, st\<lparr> uuidNext := snd r \<rparr>)))"
  by (simp add: generateConflictSuggestions_def validSchedules_def scopeOf_def Let_def split_beta
      split: option.splits)

lemma generate_eq:
  assumes "getConflictById st i = Some conflict"
  shows "generateConflictSuggestions st i
           = (stampAll (uuidNext st) (allBodies st conflict),
              st\<lparr> uuidNext := uuidNext st + length (allBodies st conflict) \<rparr>)"
proof (cases "length (validSchedules st conflict) < 2")
  case True
  then show ?thesis
    using assms by (simp add: generate_unfold allBodies_def)
next
  case False
  have "foldl (scheduleBody (scopeOf st conflict)) ([], uuidNext st) (validSchedules st conflict)
          = pushAll ([], uuidNext st) (allBodies st conflict)"
    using False foldl_pushAll [of "scheduleBody (scopeOf st conflict)" "scheduleBodies (scopeOf st conflict)"]
    by (simp add: scheduleBody_pushAll allBodies_def)
  then show ?thesis
    using assms False by (simp add: generate_unfold Let_def pushAll_def)
qed

lemma generate_absent:
  "getConflictById st i = None \<Longrightarrow> generateConflictSuggestions st i = ([], st)"
  by (simp add: generateConflictSuggestions_def)

lemma in_stampAll:
  "sg \<in> set (stampAll u bs) \<Longrightarrow> \<exists>b \<in> set bs. sg = b\<lparr> sg_id := sg_id sg \<rparr> \<and> u \<le> sg_id sg"
proof (induction bs arbitrary: u)
  case Nil
  then show ?case by simp
next
  case (Cons b bs)
  from Cons.prems consider "sg = stamped b u" | "sg \<in> set (stampAll (u + 1) bs)" by auto
  then show ?case
  proof cases
    case 1
    then show ?thesis by (simp add: stamped_def)
  next
    case 2
    from Cons.IH [OF 2] show ?thesis by force
  qed
qed

lemma map_stampAll:
  assumes "\<And>b u. f (b\<lparr> sg_id := u \<rparr>) = f b"
  shows "map f (stampAll u bs) = map f bs"
  by (induction bs arbitrary: u) (simp_all add: stamped_def assms)

lemma filter_stampAll:
  assumes "\<And>b u. P (b\<lparr> sg_id := u \<rparr>) = P b" "\<And>b u. f (b\<lparr> sg_id := u \<rparr>) = f b"
  shows "map f (filter P (stampAll u bs)) = map f (filter P bs)"
  by (induction bs arbitrary: u) (simp_all add: stamped_def assms)

lemma occupied_key:
  "dayTimeKey d s \<in> sc_occupiedSlots (scopeOf st conflict) \<longleftrightarrow> occupied (getSchedules st) (d, s)"
  by (auto simp add: scopeOf_def occupied_def dest: dayTimeKey_inj)

lemma freeSlot_scopeOf:
  "freeSlot (scopeOf st conflict) p
     \<longleftrightarrow> p \<noteq> (cf_dayOfWeek conflict, cf_timeSlot conflict) \<and> \<not> occupied (getSchedules st) p"
proof (cases p)
  case (Pair d s)
  have "sc_conflict (scopeOf st conflict) = conflict" by (simp add: scopeOf_def)
  then show ?thesis by (auto simp add: Pair freeSlot_def occupied_key)
qed

lemma filter_move_scheduleBodies:
  "filter (\<lambda>sg. sg_action sg = Move) (scheduleBodies sc e) = moveBodies sc e"
proof -
  have m: "filter (\<lambda>sg. sg_action sg = Move) (moveBodies sc e) = moveBodies sc e"
    by (rule filter_True) (auto simp add: moveBodies_def moveOf_def)
  have s: "filter (\<lambda>sg. sg_action sg = Move) (swapBodies sc e) = []"
    by (auto simp add: filter_empty_conv swapBodies_def swapOf_def)
  have r: "filter (\<lambda>sg. sg_action sg = Move) (concat (map (reassignBodies sc e) ts)) = []" for ts
    by (auto simp add: filter_empty_conv reassignBodies_def reassignOf_def split: if_splits)
  show ?thesis by (simp add: scheduleBodies_def m s r)
qed

lemma filter_concat_map: "filter P (concat (map f xs)) = concat (map (\<lambda>x. filter P (f x)) xs)"
  by (induction xs) simp_all

lemma moves_allBodies:
  "filter (\<lambda>sg. sg_action sg = Move) (allBodies st conflict)
     = concat (map (moveBodies (scopeOf st conflict)) (resolving st conflict))"
  by (simp add: allBodies_def resolving_def filter_concat_map filter_move_scheduleBodies)

lemma moveTarget_moveBodies:
  "map moveTarget (moveBodies (scopeOf st conflict) e)
     = map (\<lambda>(d, s). (sch_id e, Some d, Some s))
         (filter (\<lambda>p. p \<noteq> (cf_dayOfWeek conflict, cf_timeSlot conflict) \<and> \<not> occupied (getSchedules st) p) candidateSlots)"
proof -
  have "freeSlot (scopeOf st conflict) = (\<lambda>p. p \<noteq> (cf_dayOfWeek conflict, cf_timeSlot conflict) \<and> \<not> occupied (getSchedules st) p)"
    by (rule ext) (rule freeSlot_scopeOf)
  then show ?thesis
    by (simp add: moveBodies_def moveTarget_def moveOf_def comp_def split_beta)
qed

lemma candidateSlots_enum:
  "candidateSlots =
     [(0, 0), (0, 1), (0, 2), (0, 3), (0, 4),
      (1, 0), (1, 1), (1, 2), (1, 3), (1, 4),
      (2, 0), (2, 1), (2, 2), (2, 3), (2, 4),
      (3, 0), (3, 1), (3, 2), (3, 3), (3, 4),
      (4, 0), (4, 1), (4, 2), (4, 3), (4, 4),
      (5, 0), (5, 1), (5, 2), (5, 3), (5, 4)]"
  by (simp add: candidateSlots_def upto_rec1)

lemma move_targets:
  assumes "getConflictById st i = Some conflict"
  shows "map moveTarget (filter (\<lambda>sg. sg_action sg = Move) (fst (generateConflictSuggestions st i)))
     = concat (map (\<lambda>e. map (\<lambda>(d, s). (sch_id e, Some d, Some s))
                          (filter (\<lambda>p. p \<noteq> (cf_dayOfWeek conflict, cf_timeSlot conflict) \<and> \<not> occupied (getSchedules st) p)
                             candidateSlots))
                (resolving st conflict))"
proof -
  have "map moveTarget (filter (\<lambda>sg. sg_action sg = Move) (fst (generateConflictSuggestions st i)))
          = map moveTarget (filter (\<lambda>sg. sg_action sg = Move) (allBodies st conflict))"
    by (simp add: generate_eq [OF assms] filter_stampAll moveTarget_def)
  then show ?thesis
    by (simp add: moves_allBodies map_concat comp_def moveTarget_moveBodies)
qed

lemma detectedExample_eq:
  "detectedExample = exampleStore\<lparr> conflicts := [(1, exampleConflict)], conflictId := 2,
       detectLog := [getSchedules exampleStore] \<rparr>"
  by code_simp

lemma filter_reassign_scheduleBodies:
  "filter (\<lambda>sg. sg_action sg = Reassign) (scheduleBodies sc e)
     = concat (map (reassignBodies sc e)
         (filter (\<lambda>t. tch_id t \<noteq> cf_teacherId (sc_conflict sc)) (sc_getTeachers sc)))"
proof -
  have m: "filter (\<lambda>sg. sg_action sg = Reassign) (moveBodies sc e) = []"
    by (auto simp add: filter_empty_conv moveBodies_def moveOf_def)
  have s: "filter (\<lambda>sg. sg_action sg = Reassign) (swapBodies sc e) = []"
    by (auto simp add: filter_empty_conv swapBodies_def swapOf_def)
  have r: "filter (\<lambda>sg. sg_action sg = Reassign) (concat (map (reassignBodies sc e) ts))
             = concat (map (reassignBodies sc e) ts)" for ts
    by (rule filter_True) (auto simp add: reassignBodies_def reassignOf_def split: if_splits)
  show ?thesis by (simp add: scheduleBodies_def m s r)
qed

lemma reassignTarget_bodies:
  "map reassignTarget (concat (map (reassignBodies (scopeOf st conflict) e) ts))
     = map (\<lambda>t. (sch_id e, Some (tch_id t)))
         (filter (\<lambda>t. \<not> busyAt (getSchedules st) (tch_id t) (cf_dayOfWeek conflict) (cf_timeSlot conflict)) ts)"
  by (induction ts) (simp_all add: reassignBodies_def reassignOf_def reassignTarget_def scopeOf_def)

lemma reassign_targets:
  assumes "getConflictById st i = Some conflict"
  shows "map reassignTarget (filter (\<lambda>sg. sg_action sg = Reassign) (fst (generateConflictSuggestions st i)))
     = concat (map (\<lambda>e. map (\<lambda>t. (sch_id e, Some (tch_id t)))
                          (filter (\<lambda>t. tch_id t \<noteq> cf_teacherId conflict
                                        \<and> \<not> busyAt (getSchedules st) (tch_id t) (cf_dayOfWeek conflict) (cf_timeSlot conflict))
                             (getTeachers st)))
                (resolving st conflict))"
proof -
  have sc: "sc_conflict (scopeOf st conflict) = conflict" "sc_getTeachers (scopeOf st conflict) = getTeachers st"
    by (simp_all add: scopeOf_def)
  have "map reassignTarget (filter (\<lambda>sg. sg_action sg = Reassign) (fst (generateConflictSuggestions st i)))
          = map reassignTarget (filter (\<lambda>sg. sg_action sg = Reassign) (allBodies st conflict))"
    by (simp add: generate_eq [OF assms] filter_stampAll reassignTarget_def)
  also have "\<dots> = concat (map (\<lambda>e. map reassignTarget (filter (\<lambda>sg. sg_action sg = Reassign)
                        (scheduleBodies (scopeOf st conflict) e))) (resolving st conflict))"
    by (simp add: allBodies_def resolving_def filter_concat_map map_concat comp_def)
  finally show ?thesis
    by (simp add: filter_reassign_scheduleBodies reassignTarget_bodies sc conj_commute)
qed

lemma length_defined: "length (defined (map (Map_get m) ids)) = length (filter (Map_has m) ids)"
  by (induction ids) (auto simp add: Map_get_def Map_has_def)

lemma preferenceMatch_prefers: "preferenceMatch teacher day slot = prefers teacher day slot"
  by (auto simp add: preferenceMatch_def prefers_def storedPreferences_def withinPreference_def
      list_ex_iff split: option.splits)

lemma moveNote_moveBodies:
  "map moveNote (moveBodies (scopeOf st conflict) e)
     = map (\<lambda>(d, s). ((sch_id e, Some d, Some s),
                       moveText (getCourseById st (sch_courseId e)) (labelAt dayNames d) (labelAt slotLabels s) (prefers (getTeacherById st (cf_teacherId conflict)) d s)))
         (filter (\<lambda>p. p \<noteq> (cf_dayOfWeek conflict, cf_timeSlot conflict) \<and> \<not> occupied (getSchedules st) p) candidateSlots)"
proof -
  have "freeSlot (scopeOf st conflict) = (\<lambda>p. p \<noteq> (cf_dayOfWeek conflict, cf_timeSlot conflict) \<and> \<not> occupied (getSchedules st) p)"
    by (rule ext) (rule freeSlot_scopeOf)
  moreover have "sc_getCourseById (scopeOf st conflict) = getCourseById st"
    "sc_teacher (scopeOf st conflict) = getTeacherById st (cf_teacherId conflict)"
    "sc_dayLabel (scopeOf st conflict) = labelAt dayNames"
    "sc_slotLabel (scopeOf st conflict) = labelAt slotLabels"
    by (simp_all add: scopeOf_def)
  ultimately show ?thesis
    by (simp add: moveBodies_def moveNote_def moveTarget_def moveOf_def moveText_def preferenceNote_def
        preferenceMatch_prefers comp_def split_beta)
qed

lemma generate_frame:
  "snd (generateConflictSuggestions st i) = st\<lparr> uuidNext := uuidNext (snd (generateConflictSuggestions st i)) \<rparr>"
  by (cases "getConflictById st i") (simp_all add: generate_absent generate_eq)

lemma generate_tokens:
  assumes "sg \<in> set (fst (generateConflictSuggestions st i))"
  shows "uuidNext st \<le> sg_id sg"
proof (cases "getConflictById st i")
  case None
  with assms show ?thesis by (simp add: generate_absent)
next
  case (Some conflict)
  with assms have "sg \<in> set (stampAll (uuidNext st) (allBodies st conflict))" by (simp add: generate_eq)
  then show ?thesis using in_stampAll by blast
qed

lemma schedules_emit: "schedules (emit st B) = schedules st"
  by (simp add: emit_def)

lemma schedules_detectConflicts: "schedules (snd (detectConflicts st)) = schedules st"
  by (simp add: detectConflicts_eq schedules_emit)

lemma detected_depends_on_schedules:
  "schedules st = schedules st' \<Longrightarrow> fst (detectConflicts st) = fst (detectConflicts st')"
  by (simp add: detectConflicts_eq slotGroups_def getSchedules_def)

lemma schedules_updateConflict: "schedules (snd (updateConflict i p st)) = schedules st"
  by (simp add: updateConflict_def Let_def split: option.splits)

lemma schedules_attachSuggestions: "schedules (attachSuggestions st c) = schedules st"
proof -
  have "schedules (snd (generateConflictSuggestions st (cf_id c))) = schedules st"
    by (subst generate_frame) simp
  then show ?thesis by (simp add: attachSuggestions_def split_beta schedules_updateConflict)
qed

lemma schedules_pendingSuggestions: "schedules (pendingSuggestions cs st) = schedules st"
  unfolding pendingSuggestions_def
  by (induction cs arbitrary: st) (simp_all add: schedules_attachSuggestions)

lemma emit_frame:
  "courses (emit st B) = courses st" "teachers (emit st B) = teachers st"
  "uuidNext (emit st B) = uuidNext st" "detectLog (emit st B) = detectLog st"
  by (simp_all add: emit_def)

lemma detectConflicts_frame:
  "courses (snd (detectConflicts st)) = courses st"
  "teachers (snd (detectConflicts st)) = teachers st"
  "uuidNext (snd (detectConflicts st)) = uuidNext st"
  "detectLog (snd (detectConflicts st)) = detectLog st @ [getSchedules st]"
  by (simp_all add: detectConflicts_eq emit_frame)

lemma getSchedules_cong: "schedules st = schedules st' \<Longrightarrow> getSchedules st = getSchedules st'"
  by (simp add: getSchedules_def)

lemma updateSchedule_absent:
  "Map_get (schedules st) k = None \<Longrightarrow> updateSchedule k p st = (None, st)"
  by (simp add: updateSchedule_def)

lemma updateSchedule_present:
  assumes "Map_get (schedules st) k = Some e"
  shows "schedules (snd (updateSchedule k p st)) = Map_set k (patchSchedule e p) (schedules st)"
    and "detectLog (snd (updateSchedule k p st))
           = detectLog st @ [Map_values (Map_set k (patchSchedule e p) (schedules st))]"
    and "teachers (snd (updateSchedule k p st)) = teachers st"
    and "courses (snd (updateSchedule k p st)) = courses st"
    and "getConflicts (snd (updateSchedule k p st)) = fst (detectConflicts (snd (updateSchedule k p st)))"
proof -
  let ?st1 = "st\<lparr> schedules := Map_set k (patchSchedule e p) (schedules st) \<rparr>"
  have u: "snd (updateSchedule k p st) = snd (detectConflicts ?st1)"
    using assms by (simp add: updateSchedule_def Let_def split_beta)
  show "schedules (snd (updateSchedule k p st)) = Map_set k (patchSchedule e p) (schedules st)"
    by (simp add: u schedules_detectConflicts)
  show "detectLog (snd (updateSchedule k p st))
           = detectLog st @ [Map_values (Map_set k (patchSchedule e p) (schedules st))]"
    by (simp add: u detectConflicts_frame getSchedules_def)
  show "teachers (snd (updateSchedule k p st)) = teachers st" by (simp add: u detectConflicts_frame)
  show "courses (snd (updateSchedule k p st)) = courses st" by (simp add: u detectConflicts_frame)
  have "fst (detectConflicts (snd (detectConflicts ?st1))) = fst (detectConflicts ?st1)"
    by (rule detected_depends_on_schedules) (rule schedules_detectConflicts)
  then show "getConflicts (snd (updateSchedule k p st)) = fst (detectConflicts (snd (updateSchedule k p st)))"
    by (simp add: u getConflicts_detectConflicts)
qed

lemma finishResolve_eq:
  "finishResolve i st = (ResolvedSuccessfully,
      snd (detectConflicts (snd (updateConflict i \<lparr> cp_resolved = Some True, cp_suggestions = None \<rparr> st))))"
  by (simp add: finishResolve_def split_beta)

lemma updateConflict_frame:
  "teachers (snd (updateConflict i p st)) = teachers st"
  "courses (snd (updateConflict i p st)) = courses st"
  "detectLog (snd (updateConflict i p st)) = detectLog st"
  "uuidNext (snd (updateConflict i p st)) = uuidNext st"
  by (simp_all add: updateConflict_def Let_def split: option.splits)

lemma finishResolve_frame:
  "fst (finishResolve i st) = ResolvedSuccessfully"
  "schedules (snd (finishResolve i st)) = schedules st"
  "teachers (snd (finishResolve i st)) = teachers st"
  "courses (snd (finishResolve i st)) = courses st"
  "detectLog (snd (finishResolve i st)) = detectLog st @ [getSchedules st]"
  "getConflicts (snd (finishResolve i st)) = fst (detectConflicts (snd (finishResolve i st)))"
proof -
  let ?st1 = "snd (updateConflict i \<lparr> cp_resolved = Some True, cp_suggestions = None \<rparr> st)"
  have s: "schedules ?st1 = schedules st" by (rule schedules_updateConflict)
  show "fst (finishResolve i st) = ResolvedSuccessfully" by (simp add: finishResolve_eq)
  show "schedules (snd (finishResolve i st)) = schedules st"
    by (simp add: finishResolve_eq schedules_detectConflicts s)
  show "teachers (snd (finishResolve i st)) = teachers st"
    by (simp add: finishResolve_eq detectConflicts_frame updateConflict_frame)
  show "courses (snd (finishResolve i st)) = courses st"
    by (simp add: finishResolve_eq detectConflicts_frame updateConflict_frame)
  show "detectLog (snd (finishResolve i st)) = detectLog st @ [getSchedules st]"
    by (simp add: finishResolve_eq detectConflicts_frame updateConflict_frame getSchedules_cong [OF s])
  have "fst (detectConflicts (snd (detectConflicts ?st1))) = fst (detectConflicts ?st1)"
    by (rule detected_depends_on_schedules) (rule schedules_detectConflicts)
  then show "getConflicts (snd (finishResolve i st)) = fst (detectConflicts (snd (finishResolve i st)))"
    by (simp add: finishResolve_eq getConflicts_detectConflicts)
qed

lemma find_by_id:
  assumes "wellFormed st"
  shows "find (\<lambda>s. sch_id s = k) (getSchedules st) = Map_get (schedules st) k"
proof -
  have "distinct (map fst m) \<Longrightarrow> list_all (\<lambda>(k, s). sch_id s = k) m
          \<Longrightarrow> find (\<lambda>s. sch_id s = k) (map snd m) = map_of m k" for m :: "(int \<times> Schedule) list"
    by (induction m) auto
  then show ?thesis using assms by (simp add: wellFormed_def getSchedules_def Map_values_def Map_get_def)
qed

lemma Map_get_Map_set: "Map_get (Map_set k v m) k' = (if k' = k then Some v else Map_get m k')"
  by (simp add: Map_get_def map_of_Map_set)

lemma patch_move:
  "patchSchedule e \<lparr> sp_dayOfWeek = Some (sch_dayOfWeek x), sp_timeSlot = Some (sch_timeSlot x), sp_teacherId = None \<rparr>
     = moveTo e (slotOf x)"
  by (simp add: patchSchedule_def moveTo_def slotOf_def)

lemma sch_id_present:
  assumes "wellFormed st" "Map_get (schedules st) k = Some e"
  shows "sch_id e = k"
proof -
  from assms(2) have "(k, e) \<in> set (schedules st)" by (simp add: Map_get_def map_of_SomeD)
  with assms(1) show ?thesis by (auto simp add: wellFormed_def list_all_iff)
qed

lemma resolveRoute_swap:
  assumes "wellFormed st"
    and "getConflictById st i = Some conflict"
    and "find (\<lambda>s. sg_id s = sid) (cf_suggestions conflict) = Some sg"
    and "sg_action sg = Swap"
    and "sg_swapWithScheduleId sg = Some w" and "w \<noteq> 0"
    and "Map_get (schedules st) (sg_scheduleId sg) = Some A"
    and "Map_get (schedules st) w = Some B"
  shows "resolveRoute st i (Some sid) = resolveSwap i A B st"
  using assms by (simp add: resolveRoute_def find_by_id)

lemma resolveSwap_effect:
  assumes "Map_get (schedules st) k = Some A" "Map_get (schedules st) w = Some B"
    and "sch_id A = k" "sch_id B = w"
  shows "fst (resolveSwap i A B st) = ResolvedSuccessfully"
    and "Map_get (schedules (snd (resolveSwap i A B st))) k = Some (moveTo A (slotOf B))"
    and "Map_get (schedules (snd (resolveSwap i A B st))) w = Some (moveTo B (slotOf A))"
    and "j \<noteq> k \<Longrightarrow> j \<noteq> w \<Longrightarrow> Map_get (schedules (snd (resolveSwap i A B st))) j = Map_get (schedules st) j"
    and "detectLog (snd (resolveSwap i A B st))
           = detectLog st @ [Map_values (Map_set k (moveTo A (slotOf B)) (schedules st)),
                             getSchedules (snd (resolveSwap i A B st)),
                             getSchedules (snd (resolveSwap i A B st))]"
    and "getConflicts (snd (resolveSwap i A B st)) = fst (detectConflicts (snd (resolveSwap i A B st)))"
proof -
  let ?p1 = "\<lparr> sp_dayOfWeek = Some (sch_dayOfWeek B), sp_timeSlot = Some (sch_timeSlot B), sp_teacherId = None \<rparr>"
  let ?p2 = "\<lparr> sp_dayOfWeek = Some (sch_dayOfWeek A), sp_timeSlot = Some (sch_timeSlot A), sp_teacherId = None \<rparr>"
  let ?st1 = "snd (updateSchedule k ?p1 st)"
  let ?B0 = "if w = k then moveTo A (slotOf B) else B"
  let ?st2 = "snd (updateSchedule w ?p2 ?st1)"
  have r: "resolveSwap i A B st = finishResolve i ?st2"
    using assms(3,4) by (simp add: resolveSwap_def split_beta)
  have s1: "schedules ?st1 = Map_set k (moveTo A (slotOf B)) (schedules st)"
    using updateSchedule_present(1) [OF assms(1)] by (simp add: patch_move)
  have l1: "detectLog ?st1 = detectLog st @ [Map_values (Map_set k (moveTo A (slotOf B)) (schedules st))]"
    using updateSchedule_present(2) [OF assms(1)] by (simp add: patch_move)
  have g: "Map_get (schedules ?st1) w = Some ?B0"
    using assms(2) by (simp add: s1 Map_get_Map_set)
  have s2: "schedules ?st2 = Map_set w (moveTo ?B0 (slotOf A)) (schedules ?st1)"
    using updateSchedule_present(1) [OF g] by (simp add: patch_move)
  have l2: "detectLog ?st2 = detectLog ?st1 @ [Map_values (schedules ?st2)]"
    using updateSchedule_present(2) [OF g] by (simp add: patch_move s2)
  have same: "w = k \<Longrightarrow> A = B" using assms(1,2) by simp
  have b0: "moveTo ?B0 (slotOf A) = moveTo B (slotOf A)"
    using same by (auto simp add: moveTo_def slotOf_def)
  have a1: "k = w \<Longrightarrow> moveTo B (slotOf A) = moveTo A (slotOf B)"
    using same by auto
  show "fst (resolveSwap i A B st) = ResolvedSuccessfully" by (simp add: r finishResolve_frame)
  show "Map_get (schedules (snd (resolveSwap i A B st))) k = Some (moveTo A (slotOf B))"
    using a1 by (simp add: r finishResolve_frame s2 s1 Map_get_Map_set b0)
  show "Map_get (schedules (snd (resolveSwap i A B st))) w = Some (moveTo B (slotOf A))"
    by (simp add: r finishResolve_frame s2 Map_get_Map_set b0)
  show "j \<noteq> k \<Longrightarrow> j \<noteq> w \<Longrightarrow> Map_get (schedules (snd (resolveSwap i A B st))) j = Map_get (schedules st) j"
    by (simp add: r finishResolve_frame s2 s1 Map_get_Map_set)
  show "detectLog (snd (resolveSwap i A B st))
           = detectLog st @ [Map_values (Map_set k (moveTo A (slotOf B)) (schedules st)),
                             getSchedules (snd (resolveSwap i A B st)),
                             getSchedules (snd (resolveSwap i A B st))]"
    by (simp add: r finishResolve_frame l2 l1 getSchedules_def)
  show "getConflicts (snd (resolveSwap i A B st)) = fst (detectConflicts (snd (resolveSwap i A B st)))"
    by (simp add: r finishResolve_frame)
qed

lemma slotOf_moveTo: "slotOf (moveTo e p) = p"
  by (simp add: slotOf_def moveTo_def)

lemma resolveSwap_fst: "fst (resolveSwap i A B st) = ResolvedSuccessfully"
  by (simp add: resolveSwap_def split_beta finishResolve_frame)

lemma resolveRoute_cases:
  "resolveRoute st i suggestionId =
     (case suggestionId of
        None \<Rightarrow> (SuggestionIdRequired, st)
      | Some sid \<Rightarrow>
          (case getConflictById st i of
             None \<Rightarrow> (ConflictNotFound i, st)
           | Some conflict \<Rightarrow>
               (case find (\<lambda>s. sg_id s = sid) (cf_suggestions conflict) of
                  None \<Rightarrow> (SuggestionNotFound sid, st)
                | Some sg \<Rightarrow>
                    if sg_action sg = Swap
                    then (case sg_swapWithScheduleId sg of
                            None \<Rightarrow> (InvalidSwapSuggestion, st)
                          | Some w \<Rightarrow>
                              if w = 0 then (InvalidSwapSuggestion, st)
                              else (case entryWithId st (sg_scheduleId sg) of
                                      None \<Rightarrow> (SchedulesNotFound, st)
                                    | Some A \<Rightarrow>
                                        (case entryWithId st w of
                                           None \<Rightarrow> (SchedulesNotFound, st)
                                         | Some B \<Rightarrow> resolveSwap i A B st)))
                    else finishResolve i
                           (snd (updateSchedule (sg_scheduleId sg)
                                  (if sg_action sg = Move
                                   then \<lparr> sp_dayOfWeek = sg_newDayOfWeek sg, sp_timeSlot = sg_newTimeSlot sg,
                                          sp_teacherId = None \<rparr>
                                   else \<lparr> sp_dayOfWeek = None, sp_timeSlot = None,
                                          sp_teacherId = sg_newTeacherId sg \<rparr>) st)))))"
  by (simp add: resolveRoute_def entryWithId_def split_beta split: option.splits action.splits)

lemma resolve_error_unchanged:
  "outcomeOf (fst (resolveRoute st i suggestionId)) \<noteq> Success \<Longrightarrow> snd (resolveRoute st i suggestionId) = st"
  by (auto simp add: resolveRoute_cases resolveSwap_fst finishResolve_frame split: option.splits if_splits)

lemma resolve_NotFound_iff:
  "outcomeOf (fst (resolveRoute st i suggestionId)) = NotFound
     \<longleftrightarrow> (\<exists>sid. suggestionId = Some sid
           \<and> (getConflictById st i = None
              \<or> (\<exists>conflict sg w. getConflictById st i = Some conflict
                    \<and> find (\<lambda>s. sg_id s = sid) (cf_suggestions conflict) = Some sg
                    \<and> sg_action sg = Swap \<and> sg_swapWithScheduleId sg = Some w \<and> w \<noteq> 0
                    \<and> (entryWithId st (sg_scheduleId sg) = None \<or> entryWithId st w = None))))"
  by (auto simp add: resolveRoute_cases resolveSwap_fst finishResolve_frame split: option.splits if_splits)

lemma resolve_InvalidSuggestion_iff:
  "outcomeOf (fst (resolveRoute st i suggestionId)) = InvalidSuggestion
     \<longleftrightarrow> suggestionId = None
         \<or> (\<exists>sid conflict. suggestionId = Some sid \<and> getConflictById st i = Some conflict
               \<and> (find (\<lambda>s. sg_id s = sid) (cf_suggestions conflict) = None
                  \<or> (\<exists>sg. find (\<lambda>s. sg_id s = sid) (cf_suggestions conflict) = Some sg
                        \<and> sg_action sg = Swap
                        \<and> (sg_swapWithScheduleId sg = None \<or> sg_swapWithScheduleId sg = Some 0))))"
  by (auto simp add: resolveRoute_cases resolveSwap_fst finishResolve_frame split: option.splits if_splits)

lemma resolve_success_redetects:
  assumes "outcomeOf (fst (resolveRoute st i suggestionId)) = Success"
  shows "getConflicts (snd (resolveRoute st i suggestionId)) = fst (detectConflicts (snd (resolveRoute st i suggestionId)))
       \<and> detectLog (snd (resolveRoute st i suggestionId)) \<noteq> []
       \<and> last (detectLog (snd (resolveRoute st i suggestionId))) = getSchedules (snd (resolveRoute st i suggestionId))"
proof -
  have fin: "getConflicts (snd (finishResolve i x)) = fst (detectConflicts (snd (finishResolve i x)))
       \<and> detectLog (snd (finishResolve i x)) \<noteq> []
       \<and> last (detectLog (snd (finishResolve i x))) = getSchedules (snd (finishResolve i x))" for x
    by (simp add: finishResolve_frame getSchedules_cong [OF finishResolve_frame(2)])
  have sw: "snd (resolveSwap i A B st) = snd (finishResolve i
      (snd (updateSchedule (sch_id B) \<lparr> sp_dayOfWeek = Some (sch_dayOfWeek A), sp_timeSlot = Some (sch_timeSlot A), sp_teacherId = None \<rparr>
        (snd (updateSchedule (sch_id A) \<lparr> sp_dayOfWeek = Some (sch_dayOfWeek B), sp_timeSlot = Some (sch_timeSlot B), sp_teacherId = None \<rparr> st)))))" for A B
    by (simp add: resolveSwap_def split_beta)
  from assms obtain x where "snd (resolveRoute st i suggestionId) = snd (finishResolve i x)"
    by (auto simp add: resolveRoute_cases sw split: option.splits if_splits)
  then show ?thesis using fin by simp
qed

lemma resolve_reassign_unchecked:
  assumes "getConflictById st i = Some conflict"
    and "find (\<lambda>s. sg_id s = sid) (cf_suggestions conflict) = Some sg"
    and "sg_action sg = Reassign" and "sg_newTeacherId sg = Some t"
    and "Map_get (schedules st) (sg_scheduleId sg) = Some e"
  shows "fst (resolveRoute st i (Some sid)) = ResolvedSuccessfully
       \<and> Map_get (schedules (snd (resolveRoute st i (Some sid)))) (sg_scheduleId sg) = Some (e\<lparr> sch_teacherId := t \<rparr>)"
proof -
  let ?p = "\<lparr> sp_dayOfWeek = None, sp_timeSlot = None, sp_teacherId = Some t \<rparr>"
  have r: "resolveRoute st i (Some sid) = finishResolve i (snd (updateSchedule (sg_scheduleId sg) ?p st))"
    using assms by (simp add: resolveRoute_cases)
  have "patchSchedule e ?p = e\<lparr> sch_teacherId := t \<rparr>" by (simp add: patchSchedule_def)
  then show ?thesis
    using updateSchedule_present(1) [OF assms(5), of ?p]
    by (simp add: r finishResolve_frame Map_get_Map_set)
qed

subsection \<open>Keys, generated fields and the database generator\<close>

lemma digits_chars: "set (digits n) \<subseteq> set ''0123456789''"
proof (induction n rule: digits.induct)
  case (1 n)
  show ?case
  proof (cases "n < 10")
    case True
    then show ?thesis using digitChar_cases [of n] by (simp add: digits.simps [of n])
  next
    case False
    have "n mod 10 < 10" by simp
    then have "digitChar (n mod 10) \<in> set ''0123456789''" by (rule digitChar_cases)
    with False 1 show ?thesis by (simp add: digits.simps [of n])
  qed
qed

lemma split_pieces: "p \<in> set (split c xs) \<Longrightarrow> set p \<subseteq> set xs - {c}"
proof (induction xs arbitrary: p)
  case Nil
  then show ?case by simp
next
  case (Cons x xs)
  show ?case
  proof (cases "x = c")
    case True
    with Cons show ?thesis by auto
  next
    case False
    show ?thesis
    proof (cases "split c xs")
      case Nil
      with Cons.prems False show ?thesis by simp
    next
      case (Cons w ws)
      with Cons.prems False have "p = x # w \<or> p \<in> set ws" by simp
      moreover have "set w \<subseteq> set xs - {c}" using Cons.IH [of w] Cons by simp
      moreover have "p \<in> set ws \<Longrightarrow> set p \<subseteq> set xs - {c}" using Cons.IH [of p] Cons by simp
      ultimately show ?thesis using False by auto
    qed
  qed
qed

lemma toString_chars: "c \<in> set (toString i) \<Longrightarrow> c = CHR ''-'' \<or> (\<exists>n. c \<in> set (digits n))"
  by (auto simp add: toString_def split: if_splits)

lemma dayTimeKey_chars:
  "c \<in> set (dayTimeKey d s) \<Longrightarrow> c = CHR ''-'' \<or> (\<exists>n. c \<in> set (digits n))"
proof -
  assume "c \<in> set (dayTimeKey d s)"
  then have "c \<in> set (toString d) \<or> c = CHR ''-'' \<or> c \<in> set (toString s)"
    by (auto simp add: dayTimeKey_def)
  then show ?thesis using toString_chars by blast
qed

lemma split_dayTimeKey_digits:
  assumes "p \<in> set (split CHR ''-'' (dayTimeKey d s))"
  shows "set p \<subseteq> set ''0123456789''"
proof
  fix c
  assume c: "c \<in> set p"
  with split_pieces [OF assms] have "c \<in> set (dayTimeKey d s)" and "c \<noteq> CHR ''-''" by blast+
  with dayTimeKey_chars obtain n where "c \<in> set (digits n)" by blast
  with digits_chars show "c \<in> set ''0123456789''" by (rule_tac subsetD)
qed

lemma hasFields_scheduleBodies: "b \<in> set (scheduleBodies sc e) \<Longrightarrow> hasFields b"
proof -
  assume "b \<in> set (scheduleBodies sc e)"
  then consider "b \<in> set (moveBodies sc e)" | "b \<in> set (swapBodies sc e)"
    | t where "b \<in> set (reassignBodies sc e t)"
    by (auto simp add: scheduleBodies_def)
  then show ?thesis
  proof cases
    case 1
    then show ?thesis by (auto simp add: moveBodies_def moveOf_def hasFields_def)
  next
    case 2
    then show ?thesis by (auto simp add: swapBodies_def swapOf_def hasFields_def)
  next
    case 3
    then show ?thesis by (auto simp add: reassignBodies_def reassignOf_def hasFields_def split: if_splits)
  qed
qed

lemma generated_fields:
  assumes "sg \<in> set (fst (generateConflictSuggestions st i))"
  shows "hasFields sg"
proof (cases "getConflictById st i")
  case None
  with assms show ?thesis by (simp add: generate_absent)
next
  case (Some conflict)
  with assms obtain b where b: "b \<in> set (allBodies st conflict)" and sg: "sg = b\<lparr> sg_id := sg_id sg \<rparr>"
    using in_stampAll by (fastforce simp add: generate_eq)
  from b have "hasFields b" by (auto simp add: allBodies_def hasFields_scheduleBodies split: if_splits)
  moreover have "hasFields (b\<lparr> sg_id := u \<rparr>) = hasFields b" for u
    by (simp add: hasFields_def split: action.splits)
  ultimately show ?thesis using sg by metis
qed

lemma freeSlot_occupied:
  assumes "sc_occupiedSlots sc = set (map (\<lambda>s. dayTimeKey (sch_dayOfWeek s) (sch_timeSlot s)) scheds)"
  shows "freeSlot sc p \<longleftrightarrow> p \<noteq> (cf_dayOfWeek (sc_conflict sc), cf_timeSlot (sc_conflict sc)) \<and> \<not> occupied scheds p"
proof (cases p)
  case (Pair d s)
  have "dayTimeKey d s \<in> sc_occupiedSlots sc \<longleftrightarrow> occupied scheds (d, s)"
    by (auto simp add: assms occupied_def dest: dayTimeKey_inj)
  then show ?thesis by (auto simp add: Pair freeSlot_def)
qed

lemma filter_freeSlot:
  assumes "sc_occupiedSlots sc = set (map (\<lambda>s. dayTimeKey (sch_dayOfWeek s) (sch_timeSlot s)) scheds)"
  shows "filter (freeSlot sc) candidateSlots = freeSlots scheds (sc_conflict sc)"
proof -
  have "freeSlot sc = (\<lambda>p. p \<noteq> (cf_dayOfWeek (sc_conflict sc), cf_timeSlot (sc_conflict sc)) \<and> \<not> occupied scheds p)"
    by (rule ext) (rule freeSlot_occupied [OF assms])
  then show ?thesis by (simp add: freeSlots_def)
qed

lemma moveTarget_moveBodies_any:
  assumes "sc_occupiedSlots sc = set (map (\<lambda>s. dayTimeKey (sch_dayOfWeek s) (sch_timeSlot s)) scheds)"
  shows "map moveTarget (moveBodies sc e)
           = map (\<lambda>(d, s). (sch_id e, Some d, Some s)) (freeSlots scheds (sc_conflict sc))"
  by (simp add: moveBodies_def filter_freeSlot [OF assms] moveTarget_def moveOf_def comp_def split_beta)

lemma moveNote_moveBodies_any:
  assumes "sc_occupiedSlots sc = set (map (\<lambda>s. dayTimeKey (sch_dayOfWeek s) (sch_timeSlot s)) scheds)"
  shows "map moveNote (moveBodies sc e)
           = map (\<lambda>(d, s). ((sch_id e, Some d, Some s),
                     moveText (sc_getCourseById sc (sch_courseId e)) (sc_dayLabel sc d) (sc_slotLabel sc s)
                       (prefers (sc_teacher sc) d s)))
               (freeSlots scheds (sc_conflict sc))"
  by (simp add: moveBodies_def filter_freeSlot [OF assms] moveNote_def moveTarget_def moveOf_def
      moveText_def preferenceNote_def preferenceMatch_prefers comp_def split_beta)

lemma all_moves: "sg \<in> set (moveBodies sc e) \<Longrightarrow> sg_action sg = Move"
  by (auto simp add: moveBodies_def moveOf_def)

lemma db_scheduleBody_None:
  assumes "db_scheduleBody sc schedule acc = (None, acc1)"
  shows "acc1 = pushAll acc (moveBodies sc schedule)"
  using assms
  by (simp add: db_scheduleBody_def Let_def dayLoop_pushAll moves_enumerated split: if_splits)

lemma db_scheduleLoop_None:
  "db_scheduleLoop sc acc es = (None, acc1) \<Longrightarrow> acc1 = pushAll acc (concat (map (moveBodies sc) es))"
proof (induction es arbitrary: acc)
  case Nil
  then show ?case by (simp add: pushAll_Nil)
next
  case (Cons e es)
  obtain r a where b: "db_scheduleBody sc e acc = (r, a)" by (cases "db_scheduleBody sc e acc")
  with Cons.prems have r: "r = None" and l: "db_scheduleLoop sc a es = (None, acc1)"
    by (auto split: option.splits)
  from b r have "a = pushAll acc (moveBodies sc e)" by (simp add: db_scheduleBody_None)
  with Cons.IH [OF l] show ?case by (simp add: pushAll_pushAll)
qed

lemma db_generate_unfold:
  "db_generateConflictSuggestions d i =
     (case db_getConflictById d i of
        None \<Rightarrow> (Inr [], d)
      | Some conflict \<Rightarrow>
          if length (db_validSchedules d conflict) = 0 then (Inr [], d)
          else (case db_scheduleLoop (db_scopeOf d conflict) ([], db_uuidNext d) (db_validSchedules d conflict) of
                  (Some e, (suggestions, u)) \<Rightarrow> (Inl e, d\<lparr> db_uuidNext := u \<rparr>)
                | (None, (suggestions, u)) \<Rightarrow> (Inr suggestions, d\<lparr> db_uuidNext := u \<rparr>)))"
  by (simp add: db_generateConflictSuggestions_def db_validSchedules_def db_scopeOf_def Let_def
      split: option.splits)

lemma db_generate_Inr:
  assumes "db_getConflictById d i = Some conflict"
    and "fst (db_generateConflictSuggestions d i) = Inr sugs"
  shows "sugs = stampAll (db_uuidNext d)
                  (concat (map (moveBodies (db_scopeOf d conflict)) (db_validSchedules d conflict)))"
proof (cases "length (db_validSchedules d conflict) = 0")
  case True
  with assms show ?thesis by (simp add: db_generate_unfold)
next
  case False
  obtain r a u where l: "db_scheduleLoop (db_scopeOf d conflict) ([], db_uuidNext d) (db_validSchedules d conflict) = (r, a, u)"
    by (metis prod_cases3)
  with assms False have r: "r = None" and a: "a = sugs"
    by (auto simp add: db_generate_unfold split: option.splits)
  from l r have "(a, u) = pushAll ([], db_uuidNext d)
      (concat (map (moveBodies (db_scopeOf d conflict)) (db_validSchedules d conflict)))"
    by (simp add: db_scheduleLoop_None)
  with a show ?thesis by (simp add: pushAll_def)
qed

lemma db_scope_facts:
  "sc_conflict (db_scopeOf d conflict) = conflict"
  "sc_occupiedSlots (db_scopeOf d conflict)
     = set (map (\<lambda>s. dayTimeKey (sch_dayOfWeek s) (sch_timeSlot s)) (db_schedules d))"
  "sc_getCourseById (db_scopeOf d conflict) = db_getCourseById d"
  "sc_teacher (db_scopeOf d conflict) = db_getTeacherById d (cf_teacherId conflict)"
  "sc_dayLabel (db_scopeOf d conflict) = labelAt DAYS_OF_WEEK"
  "sc_slotLabel (db_scopeOf d conflict) = labelAt TIME_SLOTS"
  by (simp_all add: db_scopeOf_def db_getSchedules_def)

lemma scope_facts:
  "sc_conflict (scopeOf st conflict) = conflict"
  "sc_occupiedSlots (scopeOf st conflict)
     = set (map (\<lambda>s. dayTimeKey (sch_dayOfWeek s) (sch_timeSlot s)) (getSchedules st))"
  "sc_getCourseById (scopeOf st conflict) = getCourseById st"
  "sc_teacher (scopeOf st conflict) = getTeacherById st (cf_teacherId conflict)"
  "sc_dayLabel (scopeOf st conflict) = labelAt dayNames"
  "sc_slotLabel (scopeOf st conflict) = labelAt slotLabels"
  "sc_getTeachers (scopeOf st conflict) = getTeachers st"
  by (simp_all add: scopeOf_def)

lemma filter_all_moves:
  "filter (\<lambda>sg. sg_action sg = Move) (concat (map (moveBodies sc) es)) = concat (map (moveBodies sc) es)"
  by (rule filter_True) (auto dest: all_moves)

lemma mem_move_targets:
  assumes "getConflictById st i = Some conflict"
  shows "map moveTarget (filter (\<lambda>sg. sg_action sg = Move) (fst (generateConflictSuggestions st i)))
           = expectedMoves (getSchedules st) conflict (resolving st conflict)"
proof -
  have "map moveTarget (filter (\<lambda>sg. sg_action sg = Move) (fst (generateConflictSuggestions st i)))
          = map moveTarget (filter (\<lambda>sg. sg_action sg = Move) (allBodies st conflict))"
    by (simp add: generate_eq [OF assms] filter_stampAll moveTarget_def)
  then show ?thesis
    using moveTarget_moveBodies_any [OF scope_facts(2)]
    by (simp add: moves_allBodies map_concat comp_def expectedMoves_def scope_facts(1))
qed

lemma db_move_targets:
  assumes "db_getConflictById d i = Some conflict"
    and "fst (db_generateConflictSuggestions d i) = Inr sugs"
  shows "map moveTarget (filter (\<lambda>sg. sg_action sg = Move) sugs)
           = expectedMoves (db_schedules d) conflict (db_validSchedules d conflict)"
proof -
  let ?B = "concat (map (moveBodies (db_scopeOf d conflict)) (db_validSchedules d conflict))"
  have "map moveTarget (filter (\<lambda>sg. sg_action sg = Move) sugs)
          = map moveTarget (filter (\<lambda>sg. sg_action sg = Move) ?B)"
    by (simp add: db_generate_Inr [OF assms] filter_stampAll moveTarget_def)
  then show ?thesis
    using moveTarget_moveBodies_any [OF db_scope_facts(2)]
    by (simp add: filter_all_moves map_concat comp_def expectedMoves_def db_scope_facts(1))
qed

lemma expectedMoves_avoid:
  assumes "sg_action sg = Move" "sg \<in> set sugs"
    and "map moveTarget (filter (\<lambda>sg. sg_action sg = Move) sugs) = expectedMoves scheds conflict entries"
  shows "avoidsTakenSlots scheds conflict sg"
proof -
  from assms(1,2) have "moveTarget sg \<in> set (map moveTarget (filter (\<lambda>sg. sg_action sg = Move) sugs))"
    by simp
  then have "moveTarget sg \<in> set (expectedMoves scheds conflict entries)" by (simp only: assms(3))
  then show ?thesis
    by (auto simp add: expectedMoves_def freeSlots_def moveTarget_def avoidsTakenSlots_def)
qed

lemma mem_reassign_targets:
  assumes "getConflictById st i = Some conflict"
  shows "map reassignTarget (filter (\<lambda>sg. sg_action sg = Reassign) (fst (generateConflictSuggestions st i)))
           = expectedReassignments (getSchedules st) (getTeachers st) conflict (resolving st conflict)"
  by (simp add: reassign_targets [OF assms] expectedReassignments_def)

lemma mem_reassign_each:
  assumes "getConflictById st i = Some conflict"
    and "sg \<in> set (fst (generateConflictSuggestions st i))" and "sg_action sg = Reassign"
  shows "\<exists>t. sg_newTeacherId sg = Some t \<and> t \<noteq> cf_teacherId conflict
            \<and> \<not> busyAt (getSchedules st) t (cf_dayOfWeek conflict) (cf_timeSlot conflict)"
proof -
  from assms(2,3) have "reassignTarget sg \<in> set (map reassignTarget
      (filter (\<lambda>sg. sg_action sg = Reassign) (fst (generateConflictSuggestions st i))))"
    by simp
  then have "reassignTarget sg \<in> set (expectedReassignments (getSchedules st) (getTeachers st) conflict (resolving st conflict))"
    by (simp only: mem_reassign_targets [OF assms(1)])
  then show ?thesis by (auto simp add: reassignTarget_def expectedReassignments_def)
qed

lemma db_only_moves:
  assumes "fst (db_generateConflictSuggestions d i) = Inr sugs" and "sg \<in> set sugs"
  shows "sg_action sg = Move"
proof (cases "db_getConflictById d i")
  case None
  with assms show ?thesis by (simp add: db_generate_unfold)
next
  case (Some conflict)
  from db_generate_Inr [OF Some assms(1)] assms(2)
  obtain b where "b \<in> set (concat (map (moveBodies (db_scopeOf d conflict)) (db_validSchedules d conflict)))"
    and "sg = b\<lparr> sg_id := sg_id sg \<rparr>"
    using in_stampAll by blast
  then have "sg_action b = Move" "sg_action sg = sg_action b"
    by (auto dest: all_moves) (metis ConflictSuggestion.select_convs(3) ConflictSuggestion.surjective ConflictSuggestion.update_convs(1))
  then show ?thesis by simp
qed

lemma mem_move_notes:
  assumes "getConflictById st i = Some conflict"
  shows "map moveNote (filter (\<lambda>sg. sg_action sg = Move) (fst (generateConflictSuggestions st i)))
           = expectedNotes (getCourseById st) dayNames slotLabels (getTeacherById st (cf_teacherId conflict))
               (getSchedules st) conflict (resolving st conflict)"
proof -
  have "map moveNote (filter (\<lambda>sg. sg_action sg = Move) (fst (generateConflictSuggestions st i)))
          = map moveNote (filter (\<lambda>sg. sg_action sg = Move) (allBodies st conflict))"
    by (simp add: generate_eq [OF assms] filter_stampAll moveNote_def moveTarget_def)
  then show ?thesis
    using moveNote_moveBodies_any [OF scope_facts(2)]
    by (simp add: moves_allBodies map_concat comp_def expectedNotes_def scope_facts)
qed

lemma db_move_notes:
  assumes "db_getConflictById d i = Some conflict"
    and "fst (db_generateConflictSuggestions d i) = Inr sugs"
  shows "map moveNote (filter (\<lambda>sg. sg_action sg = Move) sugs)
           = expectedNotes (db_getCourseById d) DAYS_OF_WEEK TIME_SLOTS (db_getTeacherById d (cf_teacherId conflict))
               (db_schedules d) conflict (db_validSchedules d conflict)"
proof -
  let ?B = "concat (map (moveBodies (db_scopeOf d conflict)) (db_validSchedules d conflict))"
  have "map moveNote (filter (\<lambda>sg. sg_action sg = Move) sugs)
          = map moveNote (filter (\<lambda>sg. sg_action sg = Move) ?B)"
    by (simp add: db_generate_Inr [OF assms] filter_stampAll moveNote_def moveTarget_def)
  then show ?thesis
    using moveNote_moveBodies_any [OF db_scope_facts(2)]
    by (simp add: filter_all_moves map_concat comp_def expectedNotes_def db_scope_facts)
qed

section \<open>Claims\<close>

text \<open>
  C1. \<open>MemStorage.detectConflicts\<close> emits, for every set of schedule entries, exactly one
  conflict per (teacherId, dayOfWeek, timeSlot) group with more than one entry, carrying
  exactly the ids of that group, \<open>resolved = false\<close> and no suggestions, and the store then
  holds exactly the emitted conflicts; when no day or slot is negative, each emitted conflict
  also records its group's teacher, day and slot. \<open>DatabaseStorage.detectConflicts\<close> does
  not: a group for which the table already holds a row is passed over. In \<open>dbGrown\<close>
  teacher 1 has the entries 10, 11 and 12 on day 1, slot 2; the call emits nothing and the
  table keeps the row that lists 10 and 11 only.
\<close>

theorem detectConflicts_one_conflict_per_group_unless_recorded:
  "mset (map conflictContent (fst (detectConflicts st)))
     = mset (map (\<lambda>(t, d, s). (t, map sch_id (groupOf (getSchedules st) (t, d, s)), False, []))
              (doubleBooked (getSchedules st)))
   \<and> getConflicts (snd (detectConflicts st)) = fst (detectConflicts st)
   \<and> ((\<forall>x \<in> set (getSchedules st). 0 \<le> sch_dayOfWeek x \<and> 0 \<le> sch_timeSlot x) \<longrightarrow>
        mset (map conflictSlot (fst (detectConflicts st)))
          = mset (map (\<lambda>k. (k, map sch_id (groupOf (getSchedules st) k))) (doubleBooked (getSchedules st))))
   \<and> doubleBooked (db_schedules dbGrown) = [(1, 1, 2)]
   \<and> map sch_id (groupOf (db_schedules dbGrown) (1, 1, 2)) = [10, 11, 12]
   \<and> fst (db_detectConflicts dbGrown) = Inr []
   \<and> map conflictSlot (db_conflicts (snd (db_detectConflicts dbGrown))) = [((1, 1, 2), [10, 11])]"
proof -
  have a: "doubleBooked (db_schedules dbGrown) = [(1, 1, 2)]" by code_simp
  have b: "map sch_id (groupOf (db_schedules dbGrown) (1, 1, 2)) = [10, 11, 12]" by code_simp
  have c: "fst (db_detectConflicts dbGrown) = Inr []" by code_simp
  have d: "map conflictSlot (db_conflicts (snd (db_detectConflicts dbGrown))) = [((1, 1, 2), [10, 11])]"
    by code_simp
  show ?thesis
    using detectConflicts_groups [of st] getConflicts_detectConflicts [of st]
      detectConflicts_slots [of st] a b c d
    by blast
qed

theorem detectConflicts_one_conflict_per_group_unless_recorded_witness:
  "list_all (\<lambda>x. 0 \<le> sch_dayOfWeek x \<and> 0 \<le> sch_timeSlot x) (getSchedules exampleStore)
   \<and> mset (map conflictSlot (fst (detectConflicts exampleStore))) = {#((1, 1, 2), [10, 11])#}
   \<and> mset (map conflictContent (fst (detectConflicts exampleStore))) = {#(1, [10, 11], False, [])#}"
proof -
  have h: "\<forall>x \<in> set (getSchedules exampleStore). 0 \<le> sch_dayOfWeek x \<and> 0 \<le> sch_timeSlot x"
    by (simp add: exampleStore_schedules exampleSchedule_def)
  have db: "doubleBooked (getSchedules exampleStore) = [(1, 1, 2)]"
    by (simp add: exampleStore_schedules exampleSchedule_def doubleBooked_def groupOf_def slotKey_def)
  have g: "map sch_id (groupOf (getSchedules exampleStore) (1, 1, 2)) = [10, 11]"
    by (simp add: exampleStore_schedules exampleSchedule_def groupOf_def slotKey_def)
  from detectConflicts_one_conflict_per_group_unless_recorded [of exampleStore] h db g show ?thesis
    by (simp add: list_all_iff)
qed

text \<open>
  C2. In both implementations the move suggestions of \<open>generateConflictSuggestions\<close> are,
  for each conflicting entry in turn, the candidate slots in their order (day outer from 0
  to 5, slot inner from 0 to 4) that are neither the conflict's own slot nor occupied by any
  entry of any teacher; so no move suggestion targets the conflict's slot or an occupied
  slot. For \<open>DatabaseStorage\<close> this is about the calls that return a batch.
\<close>

theorem moves_avoid_conflict_and_occupied_slots:
  "(getConflictById st i = Some conflict \<longrightarrow>
      map moveTarget (filter (\<lambda>sg. sg_action sg = Move) (fst (generateConflictSuggestions st i)))
        = expectedMoves (getSchedules st) conflict (resolving st conflict)
      \<and> (\<forall>sg \<in> set (fst (generateConflictSuggestions st i)).
            sg_action sg = Move \<longrightarrow> avoidsTakenSlots (getSchedules st) conflict sg))
   \<and> (db_getConflictById d j = Some row \<and> fst (db_generateConflictSuggestions d j) = Inr sugs \<longrightarrow>
      map moveTarget (filter (\<lambda>sg. sg_action sg = Move) sugs)
        = expectedMoves (db_schedules d) row (db_validSchedules d row)
      \<and> (\<forall>sg \<in> set sugs. sg_action sg = Move \<longrightarrow> avoidsTakenSlots (db_schedules d) row sg))
   \<and> candidateSlots =
        [(0, 0), (0, 1), (0, 2), (0, 3), (0, 4),
         (1, 0), (1, 1), (1, 2), (1, 3), (1, 4),
         (2, 0), (2, 1), (2, 2), (2, 3), (2, 4),
         (3, 0), (3, 1), (3, 2), (3, 3), (3, 4),
         (4, 0), (4, 1), (4, 2), (4, 3), (4, 4),
         (5, 0), (5, 1), (5, 2), (5, 3), (5, 4)]"
  using mem_move_targets [of st i conflict] db_move_targets [of d j row sugs]
    expectedMoves_avoid candidateSlots_enum
  by (intro conjI impI ballI) blast+

theorem moves_avoid_conflict_and_occupied_slots_witness:
  "getConflictById detectedExample 1 = Some exampleConflict
   \<and> map moveTarget (filter (\<lambda>sg. sg_action sg = Move) (fst (generateConflictSuggestions detectedExample 1)))
       = map (\<lambda>(d, s). (10, Some d, Some s)) exampleFreeSlots
         @ map (\<lambda>(d, s). (11, Some d, Some s)) exampleFreeSlots
   \<and> db_getConflictById dbCreated 1 = Some exampleConflict
   \<and> fst (db_generateConflictSuggestions dbCreated 1) = Inr dbMoves
   \<and> map moveTarget (filter (\<lambda>sg. sg_action sg = Move) dbMoves)
       = map (\<lambda>(d, s). (10, Some d, Some s)) dbFreeSlots
         @ map (\<lambda>(d, s). (11, Some d, Some s)) dbFreeSlots"
proof -
  note t = moves_avoid_conflict_and_occupied_slots
    [where st = detectedExample and i = 1 and conflict = exampleConflict
       and d = dbCreated and j = 1 and row = exampleConflict and sugs = dbMoves]
  have h: "getConflictById detectedExample 1 = Some exampleConflict" by code_simp
  have k: "db_getConflictById dbCreated 1 = Some exampleConflict" by code_simp
  have l: "fst (db_generateConflictSuggestions dbCreated 1) = Inr dbMoves" by code_simp
  from t h have "map moveTarget (filter (\<lambda>sg. sg_action sg = Move) (fst (generateConflictSuggestions detectedExample 1)))
          = expectedMoves (getSchedules detectedExample) exampleConflict (resolving detectedExample exampleConflict)"
    by blast
  also have "\<dots> = map (\<lambda>(d, s). (10, Some d, Some s)) exampleFreeSlots
         @ map (\<lambda>(d, s). (11, Some d, Some s)) exampleFreeSlots"
    by code_simp
  finally have m: "map moveTarget (filter (\<lambda>sg. sg_action sg = Move) (fst (generateConflictSuggestions detectedExample 1)))
       = map (\<lambda>(d, s). (10, Some d, Some s)) exampleFreeSlots
         @ map (\<lambda>(d, s). (11, Some d, Some s)) exampleFreeSlots" .
  from t k l have "map moveTarget (filter (\<lambda>sg. sg_action sg = Move) dbMoves)
          = expectedMoves (db_schedules dbCreated) exampleConflict (db_validSchedules dbCreated exampleConflict)"
    by blast
  also have "\<dots> = map (\<lambda>(d, s). (10, Some d, Some s)) dbFreeSlots
         @ map (\<lambda>(d, s). (11, Some d, Some s)) dbFreeSlots"
    by code_simp
  finally have n: "map moveTarget (filter (\<lambda>sg. sg_action sg = Move) dbMoves)
       = map (\<lambda>(d, s). (10, Some d, Some s)) dbFreeSlots
         @ map (\<lambda>(d, s). (11, Some d, Some s)) dbFreeSlots" .
  from h k l m n show ?thesis by simp
qed

text \<open>
  C3. Every reassign suggestion of \<open>MemStorage.generateConflictSuggestions\<close> names a
  teacher other than the conflict's who has no entry in the conflict's slot: for each
  conflicting entry, the teachers of the store that are not the conflict's teacher and are
  not busy in that slot. A batch returned by \<open>DatabaseStorage.generateConflictSuggestions\<close>
  holds no reassign suggestion at all.
\<close>

theorem reassign_skips_busy_teachers:
  "(getConflictById st i = Some conflict \<longrightarrow>
      map reassignTarget (filter (\<lambda>sg. sg_action sg = Reassign) (fst (generateConflictSuggestions st i)))
        = expectedReassignments (getSchedules st) (getTeachers st) conflict (resolving st conflict)
      \<and> (\<forall>sg \<in> set (fst (generateConflictSuggestions st i)). sg_action sg = Reassign \<longrightarrow>
            (\<exists>t. sg_newTeacherId sg = Some t \<and> t \<noteq> cf_teacherId conflict
                 \<and> \<not> busyAt (getSchedules st) t (cf_dayOfWeek conflict) (cf_timeSlot conflict))))
   \<and> (fst (db_generateConflictSuggestions d j) = Inr sugs \<longrightarrow>
        filter (\<lambda>sg. sg_action sg = Reassign) sugs = [])"
proof (intro conjI impI ballI)
  assume "getConflictById st i = Some conflict"
  then show "map reassignTarget (filter (\<lambda>sg. sg_action sg = Reassign) (fst (generateConflictSuggestions st i)))
        = expectedReassignments (getSchedules st) (getTeachers st) conflict (resolving st conflict)"
    by (rule mem_reassign_targets)
next
  fix sg
  assume "getConflictById st i = Some conflict" "sg \<in> set (fst (generateConflictSuggestions st i))"
    "sg_action sg = Reassign"
  then show "\<exists>t. sg_newTeacherId sg = Some t \<and> t \<noteq> cf_teacherId conflict
                 \<and> \<not> busyAt (getSchedules st) t (cf_dayOfWeek conflict) (cf_timeSlot conflict)"
    by (rule mem_reassign_each)
next
  assume "fst (db_generateConflictSuggestions d j) = Inr sugs"
  then have "\<forall>sg \<in> set sugs. sg_action sg = Move" using db_only_moves by blast
  then show "filter (\<lambda>sg. sg_action sg = Reassign) sugs = []"
    by (auto simp add: filter_empty_conv)
qed

theorem reassign_skips_busy_teachers_witness:
  "getConflictById detectedExample 1 = Some exampleConflict
   \<and> busyAt (getSchedules detectedExample) 3 1 2
   \<and> map reassignTarget (filter (\<lambda>sg. sg_action sg = Reassign) (fst (generateConflictSuggestions detectedExample 1)))
       = [(10, Some 2), (11, Some 2)]
   \<and> fst (db_generateConflictSuggestions dbCreated 1) = Inr dbMoves
   \<and> filter (\<lambda>sg. sg_action sg = Reassign) dbMoves = []"
proof -
  note t = reassign_skips_busy_teachers
    [where st = detectedExample and i = 1 and conflict = exampleConflict
       and d = dbCreated and j = 1 and sugs = dbMoves]
  have h: "getConflictById detectedExample 1 = Some exampleConflict" by code_simp
  have b: "busyAt (getSchedules detectedExample) 3 1 2" by code_simp
  have l: "fst (db_generateConflictSuggestions dbCreated 1) = Inr dbMoves" by code_simp
  from t h have "map reassignTarget (filter (\<lambda>sg. sg_action sg = Reassign) (fst (generateConflictSuggestions detectedExample 1)))
           = expectedReassignments (getSchedules detectedExample) (getTeachers detectedExample) exampleConflict
               (resolving detectedExample exampleConflict)"
    by blast
  also have "\<dots> = [(10, Some 2), (11, Some 2)]" by code_simp
  finally have m: "map reassignTarget (filter (\<lambda>sg. sg_action sg = Reassign) (fst (generateConflictSuggestions detectedExample 1)))
       = [(10, Some 2), (11, Some 2)]" .
  from t l have n: "filter (\<lambda>sg. sg_action sg = Reassign) dbMoves = []" by blast
  from h b l m n show ?thesis by simp
qed

text \<open>
  C4. \<open>MemStorage.generateConflictSuggestions\<close> returns the empty sequence, and leaves
  the store as it is, when the conflict does not exist or fewer than two of its schedule ids
  are in the store. \<open>DatabaseStorage.generateConflictSuggestions\<close> does so when the
  conflict does not exist or none of its schedule ids is in the table, but not when exactly
  one is: in \<open>dbStale\<close> the conflict lists 10 and 11, row 11 is gone, and the call returns
  29 suggestions; with a second teacher in the table the same call is rejected.
\<close>

theorem no_suggestions_for_stale_conflict_unless_one_row_left:
  "((getConflictById st i = None
       \<or> (\<exists>conflict. getConflictById st i = Some conflict
             \<and> length (filter (Map_has (schedules st)) (cf_conflictingScheduleIds conflict)) < 2))
      \<longrightarrow> generateConflictSuggestions st i = ([], st))
   \<and> ((db_getConflictById d j = None
         \<or> (\<exists>row. db_getConflictById d j = Some row \<and> db_validSchedules d row = []))
      \<longrightarrow> db_generateConflictSuggestions d j = (Inr [], d))
   \<and> map cf_conflictingScheduleIds (db_conflicts dbStale) = [[10, 11]]
   \<and> map sch_id (db_schedules dbStale) = [10]
   \<and> map_sum id length (fst (db_generateConflictSuggestions dbStale 1)) = Inr 29
   \<and> fst (db_generateConflictSuggestions (dbStale\<lparr> db_teachers := db_teachers dbTwoTeachers \<rparr>) 1)
       = Inl ReferenceError"
proof -
  have a: "(getConflictById st i = None
       \<or> (\<exists>conflict. getConflictById st i = Some conflict
             \<and> length (filter (Map_has (schedules st)) (cf_conflictingScheduleIds conflict)) < 2))
      \<longrightarrow> generateConflictSuggestions st i = ([], st)"
    by (auto simp add: generate_unfold validSchedules_def length_defined)
  have b: "(db_getConflictById d j = None
         \<or> (\<exists>row. db_getConflictById d j = Some row \<and> db_validSchedules d row = []))
      \<longrightarrow> db_generateConflictSuggestions d j = (Inr [], d)"
    by (auto simp add: db_generate_unfold)
  have c: "map cf_conflictingScheduleIds (db_conflicts dbStale) = [[10, 11]]" by code_simp
  have e: "map sch_id (db_schedules dbStale) = [10]" by code_simp
  have f: "map_sum id length (fst (db_generateConflictSuggestions dbStale 1)) = Inr 29" by code_simp
  have g: "fst (db_generateConflictSuggestions (dbStale\<lparr> db_teachers := db_teachers dbTwoTeachers \<rparr>) 1)
       = Inl ReferenceError" by code_simp
  from a b c e f g show ?thesis by blast
qed

theorem no_suggestions_for_stale_conflict_unless_one_row_left_witness:
  "getConflictById exampleStore 1 = None
   \<and> generateConflictSuggestions exampleStore 1 = ([], exampleStore)
   \<and> getConflictById staleExample 1 = Some exampleConflict
   \<and> length (filter (Map_has (schedules staleExample)) (cf_conflictingScheduleIds exampleConflict)) = 1
   \<and> generateConflictSuggestions staleExample 1 = ([], staleExample)
   \<and> db_getConflictById dbExample 1 = None
   \<and> db_generateConflictSuggestions dbExample 1 = (Inr [], dbExample)"
proof -
  have a: "getConflictById exampleStore 1 = None" by code_simp
  have b: "getConflictById staleExample 1 = Some exampleConflict" by code_simp
  have c: "length (filter (Map_has (schedules staleExample)) (cf_conflictingScheduleIds exampleConflict)) = 1"
    by code_simp
  have e: "db_getConflictById dbExample 1 = None" by code_simp
  from a have 1: "generateConflictSuggestions exampleStore 1 = ([], exampleStore)"
    using no_suggestions_for_stale_conflict_unless_one_row_left [where st = exampleStore and i = 1]
    by blast
  from b c have 2: "generateConflictSuggestions staleExample 1 = ([], staleExample)"
    using no_suggestions_for_stale_conflict_unless_one_row_left [where st = staleExample and i = 1]
    by simp
  from e have 3: "db_generateConflictSuggestions dbExample 1 = (Inr [], dbExample)"
    using no_suggestions_for_stale_conflict_unless_one_row_left [where d = dbExample and j = 1]
    by blast
  from a b c e 1 2 3 show ?thesis by simp
qed

text \<open>
  C5 (amended). When \<open>resolve\<close> applies a swap suggestion over existing entries A and
  B of a well-formed store, it answers success, A ends in B's former slot and B in A's, and
  no other entry changes. Each of the two \<open>updateSchedule\<close> calls runs its own detection
  pass: the first pass reads the entries with A moved and B not yet moved, the second pass and
  the final pass read the entries with both moved, and the conflicts the store holds at the
  end are those of the swapped entries.
\<close>

theorem swap_exchanges_slots_with_pass_in_between:
  assumes "wellFormed st"
    and "getConflictById st i = Some conflict"
    and "find (\<lambda>s. sg_id s = sid) (cf_suggestions conflict) = Some sg"
    and "sg_action sg = Swap"
    and "sg_swapWithScheduleId sg = Some w" and "w \<noteq> 0"
    and "Map_get (schedules st) (sg_scheduleId sg) = Some A"
    and "Map_get (schedules st) w = Some B"
  shows "fst (resolveRoute st i (Some sid)) = ResolvedSuccessfully
     \<and> Map_get (schedules (snd (resolveRoute st i (Some sid)))) (sg_scheduleId sg) = Some (moveTo A (slotOf B))
     \<and> Map_get (schedules (snd (resolveRoute st i (Some sid)))) w = Some (moveTo B (slotOf A))
     \<and> (\<forall>j. j \<noteq> sg_scheduleId sg \<and> j \<noteq> w \<longrightarrow>
            Map_get (schedules (snd (resolveRoute st i (Some sid)))) j = Map_get (schedules st) j)
     \<and> detectLog (snd (resolveRoute st i (Some sid)))
           = detectLog st @ [Map_values (Map_set (sg_scheduleId sg) (moveTo A (slotOf B)) (schedules st)),
                             getSchedules (snd (resolveRoute st i (Some sid))),
                             getSchedules (snd (resolveRoute st i (Some sid)))]
     \<and> getConflicts (snd (resolveRoute st i (Some sid)))
           = fst (detectConflicts (snd (resolveRoute st i (Some sid))))"
proof -
  have r: "resolveRoute st i (Some sid) = resolveSwap i A B st"
    using assms by (rule resolveRoute_swap)
  have ia: "sch_id A = sg_scheduleId sg" using assms(1,7) by (rule sch_id_present)
  have ib: "sch_id B = w" using assms(1,8) by (rule sch_id_present)
  note e = resolveSwap_effect [OF assms(7,8) ia ib, where i = i]
  show ?thesis
    unfolding r using e by simp
qed

theorem swap_exchanges_slots_with_pass_in_between_witness:
  "wellFormed settledExample
   \<and> storedSuggestion settledExample 1 28 = Some exampleSwap
   \<and> map_option slotOf (Map_get (schedules settledExample) 10) = Some (1, 2)
   \<and> map_option slotOf (Map_get (schedules settledExample) 12) = Some (3, 0)
   \<and> map_option slotOf (Map_get (schedules (snd (resolveRoute settledExample 1 (Some 28)))) 10) = Some (3, 0)
   \<and> map_option slotOf (Map_get (schedules (snd (resolveRoute settledExample 1 (Some 28)))) 12) = Some (1, 2)"
proof -
  have wf: "wellFormed settledExample" by code_simp
  have s: "storedSuggestion settledExample 1 28 = Some exampleSwap" by code_simp
  then obtain conflict where c: "getConflictById settledExample 1 = Some conflict"
    and f: "find (\<lambda>s. sg_id s = 28) (cf_suggestions conflict) = Some exampleSwap"
    by (auto simp add: storedSuggestion_def split: option.splits)
  have a: "sg_action exampleSwap = Swap" "sg_swapWithScheduleId exampleSwap = Some 12" "(12::int) \<noteq> 0"
    by (simp_all add: exampleSwap_def)
  have k: "sg_scheduleId exampleSwap = 10" by (simp add: exampleSwap_def)
  have A: "Map_get (schedules settledExample) (sg_scheduleId exampleSwap) = Some (snd (exampleSchedule 10 1 1 2 1))"
    unfolding k by code_simp
  have B: "Map_get (schedules settledExample) 12 = Some (snd (exampleSchedule 12 2 3 0 1))" by code_simp
  note t = swap_exchanges_slots_with_pass_in_between [OF wf c f a A B]
  have sa: "slotOf (snd (exampleSchedule 10 1 1 2 1)) = (1, 2)" by (simp add: slotOf_def exampleSchedule_def)
  have sb: "slotOf (snd (exampleSchedule 12 2 3 0 1)) = (3, 0)" by (simp add: slotOf_def exampleSchedule_def)
  from t have "Map_get (schedules (snd (resolveRoute settledExample 1 (Some 28)))) 10
      = Some (moveTo (snd (exampleSchedule 10 1 1 2 1)) (slotOf (snd (exampleSchedule 12 2 3 0 1))))"
    by (simp add: k)
  then have 1: "map_option slotOf (Map_get (schedules (snd (resolveRoute settledExample 1 (Some 28)))) 10) = Some (3, 0)"
    by (simp add: slotOf_moveTo sb)
  from t have "Map_get (schedules (snd (resolveRoute settledExample 1 (Some 28)))) 12
      = Some (moveTo (snd (exampleSchedule 12 2 3 0 1)) (slotOf (snd (exampleSchedule 10 1 1 2 1))))"
    by simp
  then have 2: "map_option slotOf (Map_get (schedules (snd (resolveRoute settledExample 1 (Some 28)))) 12) = Some (1, 2)"
    by (simp add: slotOf_moveTo sa)
  from A B have 3: "map_option slotOf (Map_get (schedules settledExample) 10) = Some (1, 2)"
    "map_option slotOf (Map_get (schedules settledExample) 12) = Some (3, 0)"
    by (simp_all add: k sa sb)
  from wf s 1 2 3 show ?thesis by simp
qed

text \<open>
  C5 as stated fails. Swapping entry 10 (day 1, slot 2) with entry 12 (day 3, slot 0): the
  first detection pass that \<open>resolve\<close> runs reads entry 10 on day 3, slot 0 while entry 12
  is still there.
\<close>

theorem swap_detection_pass_sees_half_swapped_state:
  "map slotsOf (detectLog settledExample) = [[(10, 1, 2), (11, 1, 2), (12, 3, 0), (13, 1, 2)]]
   \<and> map slotsOf (detectLog (snd (resolveRoute settledExample 1 (Some 28))))
       = [[(10, 1, 2), (11, 1, 2), (12, 3, 0), (13, 1, 2)],
          [(10, 3, 0), (11, 1, 2), (12, 3, 0), (13, 1, 2)],
          [(10, 3, 0), (11, 1, 2), (12, 1, 2), (13, 1, 2)],
          [(10, 3, 0), (11, 1, 2), (12, 1, 2), (13, 1, 2)]]"
  by code_simp

text \<open>
  C6. After a run of \<open>MemStorage.detectConflicts\<close> the conflict store holds exactly the
  conflicts emitted by that run, whatever it held before (resolved conflicts included), and
  a second run with no schedule change in between, with or without the suggestion chains of
  the first run completed, emits the same conflicts. \<open>DatabaseStorage.detectConflicts\<close>
  deletes no row and passes over every group that has one: on \<open>dbExample\<close> the first run
  emits the conflict of entries 10 and 11 and the second run emits nothing, and a row marked
  resolved stays as it is although its double booking is still there.
\<close>

theorem detectConflicts_rebuilds_store_but_database_keeps_rows:
  "getConflicts (snd (detectConflicts st)) = fst (detectConflicts st)
   \<and> fst (detectConflicts (st\<lparr> conflicts := previous, conflictId := n \<rparr>)) = fst (detectConflicts st)
   \<and> fst (detectConflicts (snd (detectConflicts st))) = fst (detectConflicts st)
   \<and> fst (detectConflicts (pendingSuggestions (fst (detectConflicts st)) (snd (detectConflicts st))))
       = fst (detectConflicts st)
   \<and> fst (db_detectConflicts dbExample) = Inr [exampleConflict]
   \<and> fst (db_detectConflicts (snd (db_detectConflicts dbExample))) = Inr []
   \<and> doubleBooked (db_schedules dbResolved) = [(1, 1, 2)]
   \<and> fst (db_detectConflicts dbResolved) = Inr []
   \<and> map (\<lambda>c. (conflictSlot c, cf_resolved c)) (db_conflicts (snd (db_detectConflicts dbResolved)))
       = [(((1, 1, 2), [10, 11]), True)]"
proof (intro conjI)
  show "getConflicts (snd (detectConflicts st)) = fst (detectConflicts st)"
    by (rule getConflicts_detectConflicts)
  show "fst (detectConflicts (st\<lparr> conflicts := previous, conflictId := n \<rparr>)) = fst (detectConflicts st)"
    by (rule detected_depends_on_schedules) simp
  show "fst (detectConflicts (snd (detectConflicts st))) = fst (detectConflicts st)"
    by (rule detected_depends_on_schedules) (rule schedules_detectConflicts)
  show "fst (detectConflicts (pendingSuggestions (fst (detectConflicts st)) (snd (detectConflicts st))))
       = fst (detectConflicts st)"
    by (rule detected_depends_on_schedules) (simp add: schedules_pendingSuggestions schedules_detectConflicts)
  show "fst (db_detectConflicts dbExample) = Inr [exampleConflict]" by code_simp
  show "fst (db_detectConflicts (snd (db_detectConflicts dbExample))) = Inr []" by code_simp
  show "doubleBooked (db_schedules dbResolved) = [(1, 1, 2)]" by code_simp
  show "fst (db_detectConflicts dbResolved) = Inr []" by code_simp
  show "map (\<lambda>c. (conflictSlot c, cf_resolved c)) (db_conflicts (snd (db_detectConflicts dbResolved)))
       = [(((1, 1, 2), [10, 11]), True)]" by code_simp
qed

text \<open>
  C7. On the example store \<open>MemStorage.detectConflicts\<close> returns the one conflict it
  emitted and the store holds it, but with no suggestion attached: the 62 suggestions that
  generation produces for it are attached only by the chain that is still pending when the
  call returns. \<open>DatabaseStorage.detectConflicts\<close> awaits each step: on \<open>dbExample\<close> the
  row has its 58 suggestions when the call returns. With a second teacher in the table the
  call is rejected after the row is inserted, and the row is left without suggestions.
\<close>

theorem detectConflicts_returns_before_suggestions_attached:
  "fst (detectConflicts exampleStore) = [exampleConflict]
   \<and> getConflicts (snd (detectConflicts exampleStore)) = [exampleConflict]
   \<and> cf_suggestions exampleConflict = []
   \<and> length (fst (generateConflictSuggestions (snd (detectConflicts exampleStore)) 1)) = 62
   \<and> map (\<lambda>c. length (cf_suggestions c))
        (getConflicts (pendingSuggestions (fst (detectConflicts exampleStore)) (snd (detectConflicts exampleStore))))
       = [62]
   \<and> fst (db_detectConflicts dbExample) = Inr [exampleConflict]
   \<and> map (\<lambda>c. length (cf_suggestions c)) (db_conflicts (snd (db_detectConflicts dbExample))) = [58]
   \<and> fst (db_detectConflicts dbTwoTeachers) = Inl ReferenceError
   \<and> db_conflicts (snd (db_detectConflicts dbTwoTeachers)) = [exampleConflict]"
  by code_simp

text \<open>
  C8 (amended). When the chosen suggestion is a swap, or its schedule entry exists,
  \<open>resolve\<close> answers NotFound exactly when a suggestion id is given and the conflict is
  absent, or the chosen suggestion is a swap with a partner id and one of its two schedule
  entries is absent. It answers InvalidSuggestion exactly when no suggestion id
  is given, the conflict holds no suggestion of that id, or the chosen swap suggestion has no
  partner id. Every answer other than success leaves the whole store unchanged. A success
  follows a detection pass on the final schedule entries, whose conflicts the store then
  holds. A reassignment is applied to an existing entry whether or not the named teacher
  exists.
\<close>

theorem resolve_errors_leave_store_unchanged:
  "(targetsExistingEntry st i suggestionId \<longrightarrow>
    (outcomeOf (fst (resolveRoute st i suggestionId)) = NotFound
     \<longleftrightarrow> (\<exists>sid. suggestionId = Some sid
           \<and> (getConflictById st i = None
              \<or> (\<exists>conflict sg w. getConflictById st i = Some conflict
                    \<and> find (\<lambda>s. sg_id s = sid) (cf_suggestions conflict) = Some sg
                    \<and> sg_action sg = Swap \<and> sg_swapWithScheduleId sg = Some w \<and> w \<noteq> 0
                    \<and> (entryWithId st (sg_scheduleId sg) = None \<or> entryWithId st w = None))))))
   \<and> (outcomeOf (fst (resolveRoute st i suggestionId)) = InvalidSuggestion
     \<longleftrightarrow> suggestionId = None
         \<or> (\<exists>sid conflict. suggestionId = Some sid \<and> getConflictById st i = Some conflict
               \<and> (find (\<lambda>s. sg_id s = sid) (cf_suggestions conflict) = None
                  \<or> (\<exists>sg. find (\<lambda>s. sg_id s = sid) (cf_suggestions conflict) = Some sg
                        \<and> sg_action sg = Swap
                        \<and> (sg_swapWithScheduleId sg = None \<or> sg_swapWithScheduleId sg = Some 0)))))
   \<and> (outcomeOf (fst (resolveRoute st i suggestionId)) \<noteq> Success
        \<longrightarrow> snd (resolveRoute st i suggestionId) = st)
   \<and> (outcomeOf (fst (resolveRoute st i suggestionId)) = Success
        \<longrightarrow> getConflicts (snd (resolveRoute st i suggestionId))
              = fst (detectConflicts (snd (resolveRoute st i suggestionId)))
            \<and> detectLog (snd (resolveRoute st i suggestionId)) \<noteq> []
            \<and> last (detectLog (snd (resolveRoute st i suggestionId)))
                = getSchedules (snd (resolveRoute st i suggestionId)))
   \<and> (\<forall>sid conflict sg t e.
          suggestionId = Some sid \<and> getConflictById st i = Some conflict
          \<and> find (\<lambda>s. sg_id s = sid) (cf_suggestions conflict) = Some sg
          \<and> sg_action sg = Reassign \<and> sg_newTeacherId sg = Some t
          \<and> Map_get (schedules st) (sg_scheduleId sg) = Some e
        \<longrightarrow> fst (resolveRoute st i suggestionId) = ResolvedSuccessfully
            \<and> Map_get (schedules (snd (resolveRoute st i suggestionId))) (sg_scheduleId sg)
                = Some (e\<lparr> sch_teacherId := t \<rparr>))"
  using resolve_NotFound_iff [of st i suggestionId] resolve_InvalidSuggestion_iff [of st i suggestionId]
    resolve_error_unchanged [of st i suggestionId] resolve_success_redetects [of st i suggestionId]
    resolve_reassign_unchecked [of st i]
  by blast

theorem resolve_errors_leave_store_unchanged_witness:
  "storedSuggestion settledExample 1 99 = None
   \<and> outcomeOf (fst (resolveRoute settledExample 1 (Some 99))) = InvalidSuggestion
   \<and> snd (resolveRoute settledExample 1 (Some 99)) = settledExample
   \<and> storedSuggestion settledExample 1 30 = Some exampleReassign
   \<and> outcomeOf (fst (resolveRoute settledExample 1 (Some 30))) = Success
   \<and> map_option sch_teacherId (Map_get (schedules (snd (resolveRoute settledExample 1 (Some 30)))) 10) = Some 2
   \<and> getConflicts (snd (resolveRoute settledExample 1 (Some 30))) = []
   \<and> targetsExistingEntry settledExample 7 (Some 30)
   \<and> getConflictById settledExample 7 = None
   \<and> outcomeOf (fst (resolveRoute settledExample 7 (Some 30))) = NotFound
   \<and> snd (resolveRoute settledExample 7 (Some 30)) = settledExample"
proof -
  have n: "storedSuggestion settledExample 1 99 = None" by code_simp
  have i: "outcomeOf (fst (resolveRoute settledExample 1 (Some 99))) = InvalidSuggestion" by code_simp
  have s: "storedSuggestion settledExample 1 30 = Some exampleReassign" by code_simp
  then obtain conflict where c: "getConflictById settledExample 1 = Some conflict"
    and f: "find (\<lambda>s. sg_id s = 30) (cf_suggestions conflict) = Some exampleReassign"
    by (auto simp add: storedSuggestion_def split: option.splits)
  have e: "Map_get (schedules settledExample) (sg_scheduleId exampleReassign) = Some (snd (exampleSchedule 10 1 1 2 1))"
    by code_simp
  note t1 = resolve_errors_leave_store_unchanged [of settledExample 1 "Some 99"]
  from t1 i have u: "snd (resolveRoute settledExample 1 (Some 99)) = settledExample" by simp
  note t2 = resolve_errors_leave_store_unchanged [of settledExample 1 "Some 30"]
  from t2 c f e have ok: "fst (resolveRoute settledExample 1 (Some 30)) = ResolvedSuccessfully"
    and tid: "Map_get (schedules (snd (resolveRoute settledExample 1 (Some 30)))) (sg_scheduleId exampleReassign)
         = Some ((snd (exampleSchedule 10 1 1 2 1))\<lparr> sch_teacherId := 2 \<rparr>)"
    by (simp_all add: exampleReassign_def)
  from ok have su: "outcomeOf (fst (resolveRoute settledExample 1 (Some 30))) = Success" by simp
  from tid have tt: "map_option sch_teacherId (Map_get (schedules (snd (resolveRoute settledExample 1 (Some 30)))) 10) = Some 2"
    by (simp add: exampleReassign_def)
  have g: "getConflicts (snd (resolveRoute settledExample 1 (Some 30))) = []" by code_simp
  have x: "targetsExistingEntry settledExample 7 (Some 30)" by code_simp
  have a: "getConflictById settledExample 7 = None" by code_simp
  note t3 = resolve_errors_leave_store_unchanged [of settledExample 7 "Some 30"]
  from t3 x a have nf: "outcomeOf (fst (resolveRoute settledExample 7 (Some 30))) = NotFound" by blast
  with t3 have un: "snd (resolveRoute settledExample 7 (Some 30)) = settledExample" by simp
  from n i u s su tt g x a nf un show ?thesis by simp
qed

text \<open>
  C8 as stated fails. Teacher 2 was deleted after the suggestions were generated; resolving
  with the suggestion that reassigns entry 10 to teacher 2 answers success, not NotFound, and
  entry 10 is given the absent teacher.
\<close>

theorem resolve_reassign_to_deleted_teacher_succeeds:
  "getTeacherById missingTeacherExample 2 = None
   \<and> storedSuggestion missingTeacherExample 1 30 = Some exampleReassign
   \<and> fst (resolveRoute missingTeacherExample 1 (Some 30)) = ResolvedSuccessfully
   \<and> outcomeOf (fst (resolveRoute missingTeacherExample 1 (Some 30))) \<noteq> NotFound
   \<and> map_option sch_teacherId (Map_get (schedules (snd (resolveRoute missingTeacherExample 1 (Some 30)))) 10) = Some 2"
  by code_simp

text \<open>
  C9. \<open>preferenceMatch\<close> holds exactly when the conflict's teacher has no stored
  preferences or some preference has the candidate's day and the candidate slot lies between
  its start and end slot, both included; a preference whose start is after its end matches
  no slot; and in both implementations the description of every move suggestion carries the
  preference note exactly when this holds for its target.
\<close>

theorem preferenceMatch_inclusive_range:
  "(preferenceMatch teacher day slot
      \<longleftrightarrow> storedPreferences teacher = []
          \<or> (\<exists>pref \<in> set (storedPreferences teacher).
                tp_dayOfWeek pref = day \<and> tp_startTimeSlot pref \<le> slot \<and> slot \<le> tp_endTimeSlot pref))
   \<and> \<not> (tp_startTimeSlot pref > tp_endTimeSlot pref \<and> withinPreference pref day slot)
   \<and> (getConflictById st i = Some conflict \<longrightarrow>
        map moveNote (filter (\<lambda>sg. sg_action sg = Move) (fst (generateConflictSuggestions st i)))
          = expectedNotes (getCourseById st) dayNames slotLabels (getTeacherById st (cf_teacherId conflict))
               (getSchedules st) conflict (resolving st conflict))
   \<and> (db_getConflictById d j = Some row \<and> fst (db_generateConflictSuggestions d j) = Inr sugs \<longrightarrow>
        map moveNote (filter (\<lambda>sg. sg_action sg = Move) sugs)
          = expectedNotes (db_getCourseById d) DAYS_OF_WEEK TIME_SLOTS (db_getTeacherById d (cf_teacherId row))
               (db_schedules d) row (db_validSchedules d row))"
proof (intro conjI impI)
  show "preferenceMatch teacher day slot
      \<longleftrightarrow> storedPreferences teacher = []
          \<or> (\<exists>pref \<in> set (storedPreferences teacher).
                tp_dayOfWeek pref = day \<and> tp_startTimeSlot pref \<le> slot \<and> slot \<le> tp_endTimeSlot pref)"
    by (simp add: preferenceMatch_prefers prefers_def withinPreference_def)
next
  show "\<not> (tp_startTimeSlot pref > tp_endTimeSlot pref \<and> withinPreference pref day slot)"
    by (auto simp add: withinPreference_def)
next
  assume "getConflictById st i = Some conflict"
  then show "map moveNote (filter (\<lambda>sg. sg_action sg = Move) (fst (generateConflictSuggestions st i)))
          = expectedNotes (getCourseById st) dayNames slotLabels (getTeacherById st (cf_teacherId conflict))
               (getSchedules st) conflict (resolving st conflict)"
    by (rule mem_move_notes)
next
  assume "db_getConflictById d j = Some row \<and> fst (db_generateConflictSuggestions d j) = Inr sugs"
  then show "map moveNote (filter (\<lambda>sg. sg_action sg = Move) sugs)
          = expectedNotes (db_getCourseById d) DAYS_OF_WEEK TIME_SLOTS (db_getTeacherById d (cf_teacherId row))
               (db_schedules d) row (db_validSchedules d row)"
    using db_move_notes by blast
qed

theorem preferenceMatch_inclusive_range_witness:
  "getConflictById detectedExample 1 = Some exampleConflict
   \<and> storedPreferences (getTeacherById detectedExample 1)
       = [\<lparr> tp_dayOfWeek = 2, tp_startTimeSlot = 1, tp_endTimeSlot = 3 \<rparr>]
   \<and> map snd (filter (\<lambda>n. fst n \<in> {(10, Some 2, Some 0), (10, Some 2, Some 1), (10, Some 2, Some 3), (10, Some 2, Some 4)})
        (map moveNote (filter (\<lambda>sg. sg_action sg = Move) (fst (generateConflictSuggestions detectedExample 1)))))
       = [''Move Algebra to Tuesday at 6:30-7:20 AM '',
          ''Move Algebra to Tuesday at 7:20-8:10 AM (matches teacher preference)'',
          ''Move Algebra to Tuesday at 9:20-10:10 AM (matches teacher preference)'',
          ''Move Algebra to Tuesday at 10:10-11:00 AM '']
   \<and> db_getConflictById dbCreated 1 = Some exampleConflict
   \<and> fst (db_generateConflictSuggestions dbCreated 1) = Inr dbMoves
   \<and> map snd (filter (\<lambda>n. fst n \<in> {(11, Some 2, Some 0), (11, Some 2, Some 3)})
        (map moveNote (filter (\<lambda>sg. sg_action sg = Move) dbMoves)))
       = [''Move Physics to Tuesday at 6:30 AM - 7:20 AM '',
          ''Move Physics to Tuesday at 9:20 AM - 10:10 AM (matches teacher preference)'']"
proof -
  note t = preferenceMatch_inclusive_range
    [where st = detectedExample and i = 1 and conflict = exampleConflict
       and d = dbCreated and j = 1 and row = exampleConflict and sugs = dbMoves]
  have h: "getConflictById detectedExample 1 = Some exampleConflict" by code_simp
  have p: "storedPreferences (getTeacherById detectedExample 1)
       = [\<lparr> tp_dayOfWeek = 2, tp_startTimeSlot = 1, tp_endTimeSlot = 3 \<rparr>]" by code_simp
  have k: "db_getConflictById dbCreated 1 = Some exampleConflict" by code_simp
  have l: "fst (db_generateConflictSuggestions dbCreated 1) = Inr dbMoves" by code_simp
  from t h have "map moveNote (filter (\<lambda>sg. sg_action sg = Move) (fst (generateConflictSuggestions detectedExample 1)))
          = expectedNotes (getCourseById detectedExample) dayNames slotLabels
              (getTeacherById detectedExample (cf_teacherId exampleConflict))
              (getSchedules detectedExample) exampleConflict (resolving detectedExample exampleConflict)"
    by blast
  then have "map snd (filter (\<lambda>n. fst n \<in> {(10, Some 2, Some 0), (10, Some 2, Some 1), (10, Some 2, Some 3), (10, Some 2, Some 4)})
        (map moveNote (filter (\<lambda>sg. sg_action sg = Move) (fst (generateConflictSuggestions detectedExample 1)))))
       = map snd (filter (\<lambda>n. fst n \<in> {(10, Some 2, Some 0), (10, Some 2, Some 1), (10, Some 2, Some 3), (10, Some 2, Some 4)})
          (expectedNotes (getCourseById detectedExample) dayNames slotLabels
              (getTeacherById detectedExample (cf_teacherId exampleConflict))
              (getSchedules detectedExample) exampleConflict (resolving detectedExample exampleConflict)))"
    by simp
  also have "\<dots> = [''Move Algebra to Tuesday at 6:30-7:20 AM '',
          ''Move Algebra to Tuesday at 7:20-8:10 AM (matches teacher preference)'',
          ''Move Algebra to Tuesday at 9:20-10:10 AM (matches teacher preference)'',
          ''Move Algebra to Tuesday at 10:10-11:00 AM '']"
    by code_simp
  finally have m: "map snd (filter (\<lambda>n. fst n \<in> {(10, Some 2, Some 0), (10, Some 2, Some 1), (10, Some 2, Some 3), (10, Some 2, Some 4)})
        (map moveNote (filter (\<lambda>sg. sg_action sg = Move) (fst (generateConflictSuggestions detectedExample 1)))))
       = [''Move Algebra to Tuesday at 6:30-7:20 AM '',
          ''Move Algebra to Tuesday at 7:20-8:10 AM (matches teacher preference)'',
          ''Move Algebra to Tuesday at 9:20-10:10 AM (matches teacher preference)'',
          ''Move Algebra to Tuesday at 10:10-11:00 AM '']" .
  from t k l have "map moveNote (filter (\<lambda>sg. sg_action sg = Move) dbMoves)
          = expectedNotes (db_getCourseById dbCreated) DAYS_OF_WEEK TIME_SLOTS
              (db_getTeacherById dbCreated (cf_teacherId exampleConflict))
              (db_schedules dbCreated) exampleConflict (db_validSchedules dbCreated exampleConflict)"
    by blast
  then have "map snd (filter (\<lambda>n. fst n \<in> {(11, Some 2, Some 0), (11, Some 2, Some 3)})
        (map moveNote (filter (\<lambda>sg. sg_action sg = Move) dbMoves)))
       = map snd (filter (\<lambda>n. fst n \<in> {(11, Some 2, Some 0), (11, Some 2, Some 3)})
          (expectedNotes (db_getCourseById dbCreated) DAYS_OF_WEEK TIME_SLOTS
              (db_getTeacherById dbCreated (cf_teacherId exampleConflict))
              (db_schedules dbCreated) exampleConflict (db_validSchedules dbCreated exampleConflict)))"
    by simp
  also have "\<dots> = [''Move Physics to Tuesday at 6:30 AM - 7:20 AM '',
          ''Move Physics to Tuesday at 9:20 AM - 10:10 AM (matches teacher preference)'']"
    by code_simp
  finally have n: "map snd (filter (\<lambda>n. fst n \<in> {(11, Some 2, Some 0), (11, Some 2, Some 3)})
        (map moveNote (filter (\<lambda>sg. sg_action sg = Move) dbMoves)))
       = [''Move Physics to Tuesday at 6:30 AM - 7:20 AM '',
          ''Move Physics to Tuesday at 9:20 AM - 10:10 AM (matches teacher preference)'']" .
  from h p k l m n show ?thesis by simp
qed

text \<open>
  C10. \<open>generateConflictSuggestions\<close> and the suggestions endpoint leave courses,
  teachers, schedule entries and the conflict store (stored suggestions and resolved flags
  included) as they were; the endpoint answers with the generated batch, whose tokens are all
  new, so none of them is among the tokens stored with any conflict.
\<close>

theorem suggestions_endpoint_writes_nothing:
  "courses (snd (getSuggestionsRoute st i)) = courses st
   \<and> teachers (snd (getSuggestionsRoute st i)) = teachers st
   \<and> schedules (snd (getSuggestionsRoute st i)) = schedules st
   \<and> conflicts (snd (getSuggestionsRoute st i)) = conflicts st
   \<and> conflictId (snd (getSuggestionsRoute st i)) = conflictId st
   \<and> snd (getSuggestionsRoute st i) = snd (generateConflictSuggestions st i)
   \<and> (getConflictById st i \<noteq> None \<longrightarrow>
        fst (getSuggestionsRoute st i) = SuggestionList (fst (generateConflictSuggestions st i)))
   \<and> ((\<forall>t \<in> storedTokens st. t < uuidNext st) \<longrightarrow>
        (\<forall>sg \<in> set (fst (generateConflictSuggestions st i)). sg_id sg \<notin> storedTokens st))"
proof -
  have r: "snd (getSuggestionsRoute st i) = snd (generateConflictSuggestions st i)"
    by (cases "getConflictById st i") (simp_all add: getSuggestionsRoute_def generate_absent split_beta)
  have f: "snd (generateConflictSuggestions st i) = st\<lparr> uuidNext := uuidNext (snd (generateConflictSuggestions st i)) \<rparr>"
    by (rule generate_frame)
  have 1: "courses (snd (generateConflictSuggestions st i)) = courses st" by (subst f) simp
  have 2: "teachers (snd (generateConflictSuggestions st i)) = teachers st" by (subst f) simp
  have 3: "schedules (snd (generateConflictSuggestions st i)) = schedules st" by (subst f) simp
  have 4: "conflicts (snd (generateConflictSuggestions st i)) = conflicts st" by (subst f) simp
  have 5: "conflictId (snd (generateConflictSuggestions st i)) = conflictId st" by (subst f) simp
  have 6: "getConflictById st i \<noteq> None \<longrightarrow>
        fst (getSuggestionsRoute st i) = SuggestionList (fst (generateConflictSuggestions st i))"
    by (auto simp add: getSuggestionsRoute_def split_beta)
  have 7: "(\<forall>t \<in> storedTokens st. t < uuidNext st) \<longrightarrow>
        (\<forall>sg \<in> set (fst (generateConflictSuggestions st i)). sg_id sg \<notin> storedTokens st)"
    using generate_tokens by fastforce
  show ?thesis using r 1 2 3 4 5 6 7 by simp
qed

theorem suggestions_endpoint_writes_nothing_witness:
  "list_all (\<lambda>t. t < uuidNext settledExample) (concat (map (\<lambda>c. map sg_id (cf_suggestions c)) (getConflicts settledExample)))
   \<and> length (concat (map (\<lambda>c. map sg_id (cf_suggestions c)) (getConflicts settledExample))) = 62
   \<and> fst (getSuggestionsRoute settledExample 1) = SuggestionList (fst (generateConflictSuggestions settledExample 1))
   \<and> map sg_id (fst (generateConflictSuggestions settledExample 1)) = [62..<124]
   \<and> list_all (\<lambda>sg. sg_id sg \<notin> storedTokens settledExample) (fst (generateConflictSuggestions settledExample 1))
   \<and> conflicts (snd (getSuggestionsRoute settledExample 1)) = conflicts settledExample"
proof -
  have a: "list_all (\<lambda>t. t < uuidNext settledExample) (concat (map (\<lambda>c. map sg_id (cf_suggestions c)) (getConflicts settledExample)))"
    by code_simp
  have b: "length (concat (map (\<lambda>c. map sg_id (cf_suggestions c)) (getConflicts settledExample))) = 62"
    by code_simp
  have c: "getConflictById settledExample 1 \<noteq> None" by code_simp
  have d: "map sg_id (fst (generateConflictSuggestions settledExample 1)) = [62..<124]" by code_simp
  from a have h: "\<forall>t \<in> storedTokens settledExample. t < uuidNext settledExample"
    by (simp add: storedTokens_def list_all_iff)
  note t = suggestions_endpoint_writes_nothing [of settledExample 1]
  from t c have e: "fst (getSuggestionsRoute settledExample 1) = SuggestionList (fst (generateConflictSuggestions settledExample 1))"
    by blast
  from t h have f: "list_all (\<lambda>sg. sg_id sg \<notin> storedTokens settledExample) (fst (generateConflictSuggestions settledExample 1))"
    by (simp add: list_all_iff)
  from t have g: "conflicts (snd (getSuggestionsRoute settledExample 1)) = conflicts settledExample" by blast
  from a b d e f g show ?thesis by simp
qed

end
